(* ===== verification/Auth_Prelude.thy ===== *)
theory Auth_Prelude
  imports Main
begin

text \<open>
  Shared vocabulary of the development: the JavaScript truthiness tests and the
  \<open>||\<close> and \<open>??\<close> operators that the components apply to optional strings, and the
  collections of rules through which the component proofs are automated.
  A JavaScript value that may be \<open>null\<close> or \<open>undefined\<close> is an \<open>option\<close>; a string
  is a \<open>char list\<close> read as its UTF-8 bytes.
\<close>

named_theorems effect_simps
  "how one browser effect (storage write, toast, navigation, timer, log) changes the world"

named_theorems frame_simps
  "which parts of the world an operation leaves unchanged"

type_synonym js_string = "string option"

subsection \<open>JavaScript truthiness of optional strings\<close>

text \<open>
  \<open>if (s)\<close> on a \<open>string | null\<close>: \<open>null\<close>, \<open>undefined\<close> and the empty string are
  falsy, every other string is truthy.
\<close>

fun js_truthy :: "js_string \<Rightarrow> bool" where
  "js_truthy None = False"
| "js_truthy (Some s) = (s \<noteq> [])"

text \<open>\<open>a || d\<close> where \<open>d\<close> is a string literal: the first truthy operand.\<close>

fun js_or :: "js_string \<Rightarrow> string \<Rightarrow> string" where
  "js_or None d = d"
| "js_or (Some s) d = (if s = [] then d else s)"

text \<open>\<open>a ?? d\<close>: only \<open>null\<close> and \<open>undefined\<close> fall through, the empty string does not.\<close>

fun js_nullish :: "'a option \<Rightarrow> 'a \<Rightarrow> 'a" where
  "js_nullish None d = d"
| "js_nullish (Some x) d = x"

lemma js_or_truthy: "js_truthy a \<Longrightarrow> js_or a d = the a"
  by (cases a) auto

lemma js_or_falsy: "\<not> js_truthy a \<Longrightarrow> js_or a d = d"
  by (cases a) auto

lemma js_or_nonempty [simp]: "d \<noteq> [] \<Longrightarrow> js_or a d \<noteq> []"
  by (cases a) auto

lemma js_truthy_Some_iff: "js_truthy a \<longleftrightarrow> (\<exists>s. a = Some s \<and> s \<noteq> [])"
  by (cases a) auto

lemma js_or_cases: "js_or a d = d \<or> (a = Some (js_or a d) \<and> js_or a d \<noteq> [])"
  by (cases a) auto

subsection \<open>Lists\<close>

lemma map_filter_snoc:
  "List.map_filter f (xs @ [x]) = List.map_filter f xs @ (case f x of None \<Rightarrow> [] | Some y \<Rightarrow> [y])"
  by (induction xs) (simp_all add: map_filter_simps split: option.split)

end
