(* ===== verification/Json.thy ===== *)
theory Json
  imports Auth_Prelude
begin

text \<open>
  JSON values as the backend sends them in \<open>response.data.user\<close>, JavaScript truthiness
  of such a value (the test \<open>if (response.data.user)\<close>), and \<open>JSON.stringify\<close>, which
  serialises the user profile before it is stored. \<open>JSON.stringify\<close> is a built-in,
  modelled from ECMA-262 (SerializeJSONProperty, QuoteJSONString) for values whose numbers
  are integers. Object members keep their order, as a JavaScript object's string keys do.
\<close>

datatype json =
    JNull
  | JBool bool
  | JNum int
  | JStr string
  | JArr "json list"
  | JObj "(string \<times> json) list"

text \<open>\<open>if (v)\<close> on a JSON value: \<open>null\<close>, \<open>false\<close>, \<open>0\<close> and \<open>""\<close> are falsy.\<close>

fun json_truthy :: "json \<Rightarrow> bool" where
  "json_truthy JNull = False"
| "json_truthy (JBool b) = b"
| "json_truthy (JNum n) = (n \<noteq> 0)"
| "json_truthy (JStr s) = (s \<noteq> [])"
| "json_truthy (JArr _) = True"
| "json_truthy (JObj _) = True"

subsection \<open>Serialisation\<close>

fun nat_to_string :: "nat \<Rightarrow> string" where
  "nat_to_string n =
     (if n < 10 then [char_of (48 + n)]
      else nat_to_string (n div 10) @ [char_of (48 + n mod 10)])"

declare nat_to_string.simps [simp del]

definition int_to_string :: "int \<Rightarrow> string" where
  "int_to_string i = (if i < 0 then CHR ''-'' # nat_to_string (nat (- i)) else nat_to_string (nat i))"

definition hex4 :: "nat \<Rightarrow> string" where
  \<comment> \<open>four lower-case hex digits of a byte value, as in \<open>\u001f\<close>\<close>
  "hex4 n = [CHR ''0'', CHR ''0'', char_of (if n div 16 < 10 then 48 + n div 16 else 87 + n div 16),
             char_of (if n mod 16 < 10 then 48 + n mod 16 else 87 + n mod 16)]"

text \<open>QuoteJSONString on one byte.\<close>

definition json_escape_char :: "char \<Rightarrow> string" where
  "json_escape_char c =
     (let n = (of_char c :: nat) in
      if n = 8 then [CHR 0x5C, CHR ''b''] else if n = 9 then [CHR 0x5C, CHR ''t''] else if n = 10 then [CHR 0x5C, CHR ''n'']
      else if n = 12 then [CHR 0x5C, CHR ''f''] else if n = 13 then [CHR 0x5C, CHR ''r'']
      else if n = 34 then [CHR 0x5C, CHR 0x22] else if n = 92 then [CHR 0x5C, CHR 0x5C]
      else if n < 32 then CHR 0x5C # CHR ''u'' # hex4 n
      else [c])"

definition quote_json :: "string \<Rightarrow> string" where
  "quote_json s = CHR 0x22 # concat (map json_escape_char s) @ [CHR 0x22]"

fun join_with :: "char \<Rightarrow> string list \<Rightarrow> string" where
  "join_with d [] = []"
| "join_with d [x] = x"
| "join_with d (x # y # zs) = x @ d # join_with d (y # zs)"

fun json_stringify :: "json \<Rightarrow> string" where
  "json_stringify JNull = ''null''"
| "json_stringify (JBool b) = (if b then ''true'' else ''false'')"
| "json_stringify (JNum n) = int_to_string n"
| "json_stringify (JStr s) = quote_json s"
| "json_stringify (JArr vs) = CHR ''['' # join_with CHR '','' (map json_stringify vs) @ '']''"
| "json_stringify (JObj kvs) =
     CHR ''{'' # join_with CHR '',''
       (map (\<lambda>kv. quote_json (fst kv) @ CHR '':'' # json_stringify (snd kv)) kvs) @ ''}''"

text \<open>A string without raw control bytes (below 0x20).\<close>

definition no_control :: "string \<Rightarrow> bool" where
  "no_control s \<longleftrightarrow> (\<forall>c \<in> set s. (32::nat) \<le> of_char c)"

subsection \<open>The serialised form has no raw control bytes\<close>

lemma no_control_append [simp]: "no_control (xs @ ys) \<longleftrightarrow> no_control xs \<and> no_control ys"
  by (auto simp: no_control_def)

lemma no_control_Cons [simp]: "no_control (c # cs) \<longleftrightarrow> (32::nat) \<le> of_char c \<and> no_control cs"
  by (simp add: no_control_def)

lemma no_control_Nil [simp]: "no_control []"
  by (simp add: no_control_def)

lemma nat_to_string_no_control: "no_control (nat_to_string n)"
proof (induction n rule: nat_to_string.induct)
  case (1 n)
  show ?case
  proof (cases "n < 10")
    case True
    then show ?thesis by (subst nat_to_string.simps) simp
  next
    case False
    with "1.IH" show ?thesis by (subst nat_to_string.simps) simp
  qed
qed

lemma int_to_string_no_control: "no_control (int_to_string i)"
  by (simp add: int_to_string_def nat_to_string_no_control)

lemma hex4_no_control: "m < 32 \<Longrightarrow> no_control (hex4 m)"
  by (simp add: hex4_def)

lemma json_escape_char_no_control: "no_control (json_escape_char c)"
  unfolding json_escape_char_def Let_def
  by (simp add: hex4_no_control split: if_split)

lemma quote_json_no_control: "no_control (quote_json s)"
proof -
  have "no_control (concat (map json_escape_char s))"
    by (induction s) (simp_all add: json_escape_char_no_control)
  then show ?thesis by (simp add: quote_json_def)
qed

lemma join_with_no_control:
  "(32::nat) \<le> of_char d \<Longrightarrow> \<forall>x \<in> set xs. no_control x \<Longrightarrow> no_control (join_with d xs)"
  by (induction d xs rule: join_with.induct) auto

text \<open>
  \<open>JSON.stringify\<close> never emits a raw control byte: newlines, tabs and the other bytes
  below 0x20 inside strings are escaped.
\<close>

lemma json_stringify_no_control: "no_control (json_stringify v)"
proof (induction v rule: json_stringify.induct)
  case (5 vs)
  then show ?case by (simp add: join_with_no_control)
next
  case (6 kvs)
  then show ?case by (simp add: join_with_no_control quote_json_no_control)
qed (simp_all add: int_to_string_no_control quote_json_no_control)

end
