(* ===== verification/Http.thy ===== *)
theory Http
  imports Json
begin

text \<open>
  The HTTP layer the services call: requests as the axios instance \<open>api\<close> receives them,
  the response envelope of the auth backend, the errors a call can raise, and
  \<open>apiErrorHandler\<close>. The axios instance and \<open>apiErrorHandler\<close> live in
  \<open>@/lib/axios\<close>, which is not part of the repository: the types follow the spec
  (sections 4.1 and 6), and the backend is a \<open>transport\<close>, a function from a request
  to a response or an error, so every lemma holds for every backend behaviour.
\<close>

datatype http_method = GET | POST

record request =
  req_method :: http_method
  req_path :: string
  req_body :: "json option"
  req_params :: "(string \<times> string) list"

text \<open>The response envelope \<open>{status, message, data?: {tokens?, user?}}\<close>.\<close>

record tokens =
  accessToken :: string
  refreshToken :: string

record auth_data =
  data_tokens :: "tokens option"
  data_user :: "json option"

record auth_response =
  resp_status :: string
  resp_message :: "string option"
  resp_data :: "auth_data option"

text \<open>
  What a call can throw: an HTTP error status with the backend's error payload message,
  a failure without a response (network error, timeout; axios's own message), or an
  \<open>Error\<close> thrown by the front end itself (\<open>throw new Error(msg)\<close>).
\<close>

datatype api_error =
    Http_Error nat "string option"
  | Network_Error string
  | Plain_Error string

type_synonym transport = "request \<Rightarrow> api_error + auth_response"

text \<open>The OAuth providers of \<open>oauth-buttons.tsx\<close> (\<open>type OAuthProvider\<close>).\<close>

datatype oauth_provider = Google | Github

text \<open>
  \<open>apiErrorHandler(err).message\<close>, from the spec: the backend's message when its payload
  has one, a generic message otherwise, axios's message for transport failures and the
  message of a plain \<open>Error\<close>. The components take the handler as a parameter of type
  \<open>api_error \<Rightarrow> string option\<close> (the \<open>message\<close> field may be absent, which is why
  the code writes \<open>?? "Unknown error"\<close>); this is the instance the spec describes.
\<close>

definition api_error_default :: string where
  "api_error_default = ''Something went wrong''"

fun apiErrorHandler :: "api_error \<Rightarrow> string option" where
  "apiErrorHandler (Http_Error _ (Some m)) = Some m"
| "apiErrorHandler (Http_Error _ None) = Some api_error_default"
| "apiErrorHandler (Network_Error m) = Some m"
| "apiErrorHandler (Plain_Error m) = Some m"

end
