(* ===== verification/Browser.thy ===== *)
theory Browser
  imports Http
begin

text \<open>
  The browser around the components, as one record threaded through every handler:
  \<open>localStorage\<close> (a map from keys to strings), the toasts shown by \<open>sonner\<close>, the
  targets of \<open>router.push\<close> in order, the pending \<open>setTimeout\<close> navigations, the
  \<open>console.error\<close> log, the requests sent to the backend and the OAuth provider
  redirects started. Each effect the code performs is one function on this record.
\<close>

datatype toast = Toast_Success string | Toast_Error string

record world =
  storage :: "string \<rightharpoonup> string"
  toasts :: "toast list"
  navigations :: "string list"
  timers :: "(nat \<times> string) list"
  console :: "api_error list"
  requests :: "request list"
  redirects :: "oauth_provider list"

definition setItem :: "string \<Rightarrow> string \<Rightarrow> world \<Rightarrow> world" where
  "setItem k v w = w\<lparr>storage := (storage w)(k \<mapsto> v)\<rparr>"

definition toast_success :: "string \<Rightarrow> world \<Rightarrow> world" where
  "toast_success m w = w\<lparr>toasts := toasts w @ [Toast_Success m]\<rparr>"

definition toast_error :: "string \<Rightarrow> world \<Rightarrow> world" where
  "toast_error m w = w\<lparr>toasts := toasts w @ [Toast_Error m]\<rparr>"

definition router_push :: "string \<Rightarrow> world \<Rightarrow> world" where
  "router_push url w = w\<lparr>navigations := navigations w @ [url]\<rparr>"

text \<open>\<open>setTimeout(() => router.push(url), ms)\<close>: the navigation is only scheduled.\<close>

definition set_timeout_push :: "nat \<Rightarrow> string \<Rightarrow> world \<Rightarrow> world" where
  "set_timeout_push ms url w = w\<lparr>timers := timers w @ [(ms, url)]\<rparr>"

definition console_error :: "api_error \<Rightarrow> world \<Rightarrow> world" where
  "console_error e w = w\<lparr>console := console w @ [e]\<rparr>"

text \<open>
  The event loop running every pending timer: they fire in the order of their delays
  (\<open>sort_key\<close> is stable, so equal delays fire in the order they were set).
\<close>

definition fire_timers :: "world \<Rightarrow> world" where
  "fire_timers w = w\<lparr>navigations := navigations w @ map snd (sort_key fst (timers w)), timers := []\<rparr>"

definition empty_world :: world where
  "empty_world = \<lparr>storage = Map.empty, toasts = [], navigations = [], timers = [],
                  console = [], requests = [], redirects = []\<rparr>"

text \<open>Two worlds that agree on everything the user sees or the next page reads.\<close>

abbreviation same_ui :: "world \<Rightarrow> world \<Rightarrow> bool" where
  "same_ui w1 w \<equiv> storage w1 = storage w \<and> toasts w1 = toasts w \<and> navigations w1 = navigations w
                  \<and> timers w1 = timers w"

declare setItem_def [effect_simps] toast_success_def [effect_simps] toast_error_def [effect_simps]
  router_push_def [effect_simps] set_timeout_push_def [effect_simps]
  console_error_def [effect_simps] fire_timers_def [effect_simps]

end
