(* ===== verification/Auth_Service.thy ===== *)
theory Auth_Service
  imports Browser
begin

text \<open>
  The service functions of \<open>src/services/auth.ts\<close>. Each one sends one request through
  the axios instance and returns \<open>response.data\<close>; on failure it logs the error with
  \<open>console.error\<close> and rethrows it unchanged. The common shape is \<open>call_service\<close>;
  each service is that shape applied to the request it builds. The two services the
  components import but the file does not define (\<open>exchangeOAuthCode\<close>,
  \<open>initiateOAuth\<close>) are modelled from the spec.
\<close>

text \<open>\<open>try { const response = await api.<m>(...); return response.data; }
  catch (error) { console.error(error); throw error; }\<close>\<close>

definition call_service :: "transport \<Rightarrow> request \<Rightarrow> world \<Rightarrow> (api_error + auth_response) \<times> world" where
  "call_service tr req w =
     (let w1 = w\<lparr>requests := requests w @ [req]\<rparr> in
      case tr req of
        Inl e \<Rightarrow> (Inl e, console_error e w1)
      | Inr r \<Rightarrow> (Inr r, w1))"

definition post_request :: "string \<Rightarrow> json \<Rightarrow> request" where
  "post_request p b = \<lparr>req_method = POST, req_path = p, req_body = Some b, req_params = []\<rparr>"

text \<open>The form values of \<open>LoginSchema\<close> (its zod validator is not in the repository).\<close>

record login_values =
  email :: string
  password :: string

definition signupService :: "transport \<Rightarrow> json \<Rightarrow> world \<Rightarrow> (api_error + auth_response) \<times> world" where
  "signupService tr data = call_service tr (post_request ''/api/auth/v1/signup'' data)"

definition login_request :: "login_values \<Rightarrow> request" where
  "login_request v =
     post_request ''/api/auth/v1/login'' (JObj [(''email'', JStr (email v)), (''password'', JStr (password v))])"

definition loginService :: "transport \<Rightarrow> login_values \<Rightarrow> world \<Rightarrow> (api_error + auth_response) \<times> world" where
  "loginService tr v = call_service tr (login_request v)"

definition verifyEmailService :: "transport \<Rightarrow> string \<Rightarrow> world \<Rightarrow> (api_error + auth_response) \<times> world" where
  "verifyEmailService tr token = call_service tr
     \<lparr>req_method = GET, req_path = ''/api/auth/v1/verify-email'', req_body = None,
      req_params = [(''token'', token)]\<rparr>"

definition resendEmailVerificationService :: "transport \<Rightarrow> string \<Rightarrow> world \<Rightarrow> (api_error + auth_response) \<times> world" where
  "resendEmailVerificationService tr e = call_service tr
     (post_request ''/api/auth/v1/resend-email-verification'' (JObj [(''email'', JStr e)]))"

definition refreshTokenService :: "transport \<Rightarrow> string \<Rightarrow> world \<Rightarrow> (api_error + auth_response) \<times> world" where
  "refreshTokenService tr t = call_service tr
     (post_request ''/api/auth/v1/refres-token'' (JObj [(''refreshToken'', JStr t)]))"

text \<open>
  \<open>exchangeOAuthCode(code)\<close>: per the spec an (implied) POST carrying the code; the
  endpoint is not given anywhere, so it is a parameter \<open>ep\<close>.
\<close>

definition exchange_request :: "string \<Rightarrow> string \<Rightarrow> request" where
  "exchange_request ep code = post_request ep (JObj [(''code'', JStr code)])"

definition exchangeOAuthCode :: "transport \<Rightarrow> string \<Rightarrow> string \<Rightarrow> world \<Rightarrow> (api_error + auth_response) \<times> world" where
  "exchangeOAuthCode tr ep code = call_service tr (exchange_request ep code)"

text \<open>
  \<open>initiateOAuth(provider)\<close>: per the spec it navigates the browser to the provider's
  endpoint and returns nothing; the navigation is recorded in \<open>redirects\<close>. It is the
  default action of the OAuth buttons, whose model accepts any action that may throw.
\<close>

datatype thrown = Thrown_Error string | Thrown_Other

definition initiateOAuth :: "oauth_provider \<Rightarrow> world \<Rightarrow> thrown option \<times> world" where
  "initiateOAuth p w = (None, w\<lparr>redirects := redirects w @ [p]\<rparr>)"

text \<open>
  The two halves of a call around its \<open>await\<close>: sending the request, and what the
  service does with the answer when it arrives (return it, or log it and rethrow).
\<close>

definition service_send :: "request \<Rightarrow> world \<Rightarrow> world" where
  "service_send req w = w\<lparr>requests := requests w @ [req]\<rparr>"

definition service_settle :: "api_error + auth_response \<Rightarrow> world \<Rightarrow> (api_error + auth_response) \<times> world" where
  "service_settle a w = (case a of Inl e \<Rightarrow> (Inl e, console_error e w) | Inr r \<Rightarrow> (Inr r, w))"

subsection \<open>Every service is one logged request\<close>

lemma call_service_Inl:
  "tr req = Inl e \<Longrightarrow>
   call_service tr req w = (Inl e, w\<lparr>requests := requests w @ [req], console := console w @ [e]\<rparr>)"
  by (simp add: call_service_def console_error_def)

lemma call_service_Inr:
  "tr req = Inr r \<Longrightarrow> call_service tr req w = (Inr r, w\<lparr>requests := requests w @ [req]\<rparr>)"
  by (simp add: call_service_def)

lemmas call_service_simps = call_service_Inl call_service_Inr

lemma call_service_world:
  "call_service tr req w = (res, w1) \<Longrightarrow>
     storage w1 = storage w \<and> toasts w1 = toasts w \<and> navigations w1 = navigations w \<and> timers w1 = timers w
     \<and> requests w1 = requests w @ [req]"
  by (cases "tr req") (auto simp: call_service_def console_error_def)

lemma call_service_split: "call_service tr req w = service_settle (tr req) (service_send req w)"
  by (simp add: call_service_def service_send_def service_settle_def split: sum.split)

text \<open>
  C17: every service call sends exactly the one request it builds, returns the
  transport's answer unchanged (a failure is rethrown as the same error, after being
  logged), and changes nothing the user sees: no storage write, toast, navigation or
  timer.
\<close>

theorem call_service_rethrows:
  "fst (call_service tr req w) = tr req
 \<and> requests (snd (call_service tr req w)) = requests w @ [req]
 \<and> same_ui (snd (call_service tr req w)) w"
  by (cases "tr req") (simp_all add: call_service_def console_error_def)

end
