(* ===== verification/Session.thy ===== *)
theory Session
  imports Auth_Service
begin

text \<open>
  Session bootstrap: the block that stores the tokens and the user profile in
  \<open>localStorage\<close> after a successful authentication. The code has two copies of it,
  one in the login form and one in the OAuth callback page; each is modelled from its
  own lines, and the two are proved equal.
\<close>

text \<open>\<open>login-form.tsx\<close>: \<open>if (response.data.tokens) {...} if (response.data.user) {...}\<close>.\<close>

definition persist_session :: "auth_data \<Rightarrow> world \<Rightarrow> world" where
  "persist_session d w =
     (let w1 = (case data_tokens d of
                  Some t \<Rightarrow> setItem ''refreshToken'' (refreshToken t) (setItem ''accessToken'' (accessToken t) w)
                | None \<Rightarrow> w)
      in case data_user d of
           Some u \<Rightarrow> if json_truthy u then setItem ''user'' (json_stringify u) w1 else w1
         | None \<Rightarrow> w1)"

text \<open>The copy in \<open>oauth-callback/page.tsx\<close>.\<close>

definition store_auth_data :: "auth_data \<Rightarrow> world \<Rightarrow> world" where
  "store_auth_data d w =
     (let w1 = (case data_tokens d of
                  Some t \<Rightarrow> setItem ''refreshToken'' (refreshToken t) (setItem ''accessToken'' (accessToken t) w)
                | None \<Rightarrow> w)
      in case data_user d of
           Some u \<Rightarrow> if json_truthy u then setItem ''user'' (json_stringify u) w1 else w1
         | None \<Rightarrow> w1)"

definition session_keys :: "string set" where
  "session_keys = {''accessToken'', ''refreshToken'', ''user''}"

subsection \<open>What a session write changes\<close>

lemma persist_session_world [frame_simps]:
  "toasts (persist_session d w) = toasts w"
  "navigations (persist_session d w) = navigations w"
  "timers (persist_session d w) = timers w"
  "console (persist_session d w) = console w"
  "requests (persist_session d w) = requests w"
  "redirects (persist_session d w) = redirects w"
  by (simp_all add: persist_session_def setItem_def Let_def split: option.splits)

lemma store_auth_data_world [frame_simps]:
  "toasts (store_auth_data d w) = toasts w"
  "navigations (store_auth_data d w) = navigations w"
  "timers (store_auth_data d w) = timers w"
  "console (store_auth_data d w) = console w"
  "requests (store_auth_data d w) = requests w"
  "redirects (store_auth_data d w) = redirects w"
  by (simp_all add: store_auth_data_def setItem_def Let_def split: option.splits)

lemma storage_persist_session:
  "storage (persist_session d w) =
     (let s1 = (case data_tokens d of
                  Some t \<Rightarrow> (storage w)(''accessToken'' \<mapsto> accessToken t, ''refreshToken'' \<mapsto> refreshToken t)
                | None \<Rightarrow> storage w)
      in case data_user d of
           Some u \<Rightarrow> if json_truthy u then s1(''user'' \<mapsto> json_stringify u) else s1
         | None \<Rightarrow> s1)"
  by (simp add: persist_session_def setItem_def Let_def split: option.splits)

lemma persist_session_requests_update [frame_simps]:
  "persist_session d (w\<lparr>requests := x\<rparr>) = (persist_session d w)\<lparr>requests := x\<rparr>"
  by (simp add: persist_session_def setItem_def Let_def split: option.splits)

lemma persist_session_console_update [frame_simps]:
  "persist_session d (w\<lparr>console := x\<rparr>) = (persist_session d w)\<lparr>console := x\<rparr>"
  by (simp add: persist_session_def setItem_def Let_def split: option.splits)

lemma store_auth_data_requests_update [frame_simps]:
  "store_auth_data d (w\<lparr>requests := x\<rparr>) = (store_auth_data d w)\<lparr>requests := x\<rparr>"
  by (simp add: store_auth_data_def setItem_def Let_def split: option.splits)

text \<open>The two copies of the session write agree on every response and every world.\<close>

lemma store_auth_data_eq_persist_session: "store_auth_data = persist_session"
  by (simp add: fun_eq_iff store_auth_data_def persist_session_def)

subsection \<open>Properties of the session write\<close>

text \<open>
  C4: after the session write for a response that carries tokens, the stored
  \<open>accessToken\<close> and \<open>refreshToken\<close> are exactly the response's values, whatever the
  response's user field and whatever was stored before.
\<close>

theorem persist_session_tokens:
  assumes "data_tokens d = Some t"
  shows "storage (persist_session d w) ''accessToken'' = Some (accessToken t)
       \<and> storage (persist_session d w) ''refreshToken'' = Some (refreshToken t)"
  using assms by (simp add: storage_persist_session Let_def split: option.splits)

theorem persist_session_tokens_witness:
  "storage (persist_session \<lparr>data_tokens = Some \<lparr>accessToken = ''a1'', refreshToken = ''r1''\<rparr>, data_user = None\<rparr> empty_world) ''accessToken'' = Some ''a1''
 \<and> storage (persist_session \<lparr>data_tokens = Some \<lparr>accessToken = ''a1'', refreshToken = ''r1''\<rparr>, data_user = None\<rparr> empty_world) ''refreshToken'' = Some ''r1''"
  using persist_session_tokens [of "\<lparr>data_tokens = Some \<lparr>accessToken = ''a1'', refreshToken = ''r1''\<rparr>, data_user = None\<rparr>"
      "\<lparr>accessToken = ''a1'', refreshToken = ''r1''\<rparr>" empty_world] by simp

text \<open>
  C5: the three keys are not written together. When the response has no truthy
  \<open>user\<close>, the stored \<open>user\<close> is left as it was: a profile stored by an earlier session
  survives next to the new tokens (the spec's data model says the triple is always
  written together).
\<close>

theorem persist_session_keeps_stale_user:
  assumes "\<not> (\<exists>u. data_user d = Some u \<and> json_truthy u)"
  shows "storage (persist_session d w) ''user'' = storage w ''user''"
  using assms by (auto simp: storage_persist_session Let_def split: option.splits)

theorem persist_session_keeps_stale_user_witness:
  "\<not> (\<exists>u. data_user \<lparr>data_tokens = Some \<lparr>accessToken = ''a2'', refreshToken = ''r2''\<rparr>, data_user = None\<rparr> = Some u \<and> json_truthy u)
 \<and> storage (persist_session \<lparr>data_tokens = Some \<lparr>accessToken = ''a2'', refreshToken = ''r2''\<rparr>, data_user = None\<rparr>
       (empty_world\<lparr>storage := [''user'' \<mapsto> ''old'']\<rparr>)) ''user'' = Some ''old''"
  using persist_session_keeps_stale_user
      [of "\<lparr>data_tokens = Some \<lparr>accessToken = ''a2'', refreshToken = ''r2''\<rparr>, data_user = None\<rparr>"
          "empty_world\<lparr>storage := [''user'' \<mapsto> ''old'']\<rparr>"]
  by simp

text \<open>
  C19: the session write touches only the keys \<open>accessToken\<close>, \<open>refreshToken\<close> and
  \<open>user\<close> of the storage.
\<close>

theorem persist_session_other_keys:
  "k \<notin> session_keys \<Longrightarrow> storage (persist_session d w) k = storage w k"
  by (auto simp: storage_persist_session session_keys_def Let_def split: option.splits)

theorem persist_session_other_keys_witness:
  "''theme'' \<notin> session_keys
 \<and> storage (persist_session \<lparr>data_tokens = None, data_user = Some (JObj [])\<rparr>
       (empty_world\<lparr>storage := [''theme'' \<mapsto> ''dark'']\<rparr>)) ''theme'' = Some ''dark''"
proof -
  have k: "''theme'' \<notin> session_keys" by (simp add: session_keys_def)
  show ?thesis
    using k persist_session_other_keys [OF k, of "\<lparr>data_tokens = None, data_user = Some (JObj [])\<rparr>"
        "empty_world\<lparr>storage := [''theme'' \<mapsto> ''dark'']\<rparr>"]
    by simp
qed

text \<open>
  C23: a truthy user profile in the response is stored under \<open>user\<close> as its
  \<open>JSON.stringify\<close> serialisation, which contains no raw control byte (newlines and
  tabs in the profile's strings are escaped), so the stored value is one line.
\<close>

theorem persist_session_user_serialised:
  assumes "data_user d = Some u" and "json_truthy u"
  shows "storage (persist_session d w) ''user'' = Some (json_stringify u) \<and> no_control (json_stringify u)"
  using assms json_stringify_no_control [of u]
  by (simp add: storage_persist_session Let_def split: option.splits)

theorem persist_session_user_serialised_witness:
  "storage (persist_session \<lparr>data_tokens = None, data_user = Some (JObj [(''name'', JStr [CHR ''A'', CHR 0x0A])])\<rparr> empty_world) ''user''
     = Some (json_stringify (JObj [(''name'', JStr [CHR ''A'', CHR 0x0A])]))
 \<and> no_control (json_stringify (JObj [(''name'', JStr [CHR ''A'', CHR 0x0A])]))"
  using persist_session_user_serialised
      [of "\<lparr>data_tokens = None, data_user = Some (JObj [(''name'', JStr [CHR ''A'', CHR 0x0A])])\<rparr>"
          "JObj [(''name'', JStr [CHR ''A'', CHR 0x0A])]" empty_world]
  by simp

end
