(* ===== verification/Login_Form.thy ===== *)
theory Login_Form
  imports Session
begin

text \<open>
  The login form of \<open>src/components/auth/login-form.tsx\<close>: its React state (the form's
  field values, react-hook-form's \<open>isSubmitting\<close>, the password-visibility toggle),
  the submit handler \<open>onSubmit\<close>, react-hook-form's \<open>handleSubmit\<close> wrapper around it
  (in \<open>login_step\<close>),
  and what the form renders. Client-side validation (\<open>loginValidator\<close>, a zod schema
  not in the repository) is taken to have accepted the values.
\<close>

record login_form =
  form_values :: login_values
  is_submitting :: bool
  show_password :: bool

definition login_defaults :: login_values where
  "login_defaults = \<lparr>email = '''', password = ''''\<rparr>"

definition login_form_init :: login_form where
  "login_form_init = \<lparr>form_values = login_defaults, is_submitting = False, show_password = False\<rparr>"

text \<open>
  \<open>onSubmit(values)\<close>. \<open>eh\<close> is \<open>apiErrorHandler(error).message\<close>. A response that
  is not \<open>status === "success"\<close> with \<open>data\<close> falls out of the \<open>if\<close> and the
  handler returns without any effect of its own.
\<close>

definition onSubmit ::
  "transport \<Rightarrow> (api_error \<Rightarrow> string option) \<Rightarrow> login_values \<Rightarrow> login_form \<Rightarrow> world \<Rightarrow> login_form \<times> world" where
  "onSubmit tr eh v f w =
     (case loginService tr v w of
        (Inl e, w1) \<Rightarrow> (f, toast_error (js_nullish (eh e) ''Unknown error'') w1)
      | (Inr r, w1) \<Rightarrow>
          (if resp_status r = ''success'' then
             (case resp_data r of
                Some d \<Rightarrow>
                  (f\<lparr>form_values := login_defaults\<rparr>,
                   router_push ''/'' (toast_success (js_or (resp_message r) ''Login successful'')
                     (persist_session d w1)))
              | None \<Rightarrow> (f, w1))
           else (f, w1)))"

text \<open>The eye button: \<open>setShowPassword(!showPassword)\<close>.\<close>

definition toggle_password :: "login_form \<Rightarrow> login_form" where
  "toggle_password f = f\<lparr>show_password := \<not> show_password f\<rparr>"

text \<open>
  What the form renders: the password input's type, the submit button's label and
  whether it is disabled, and the two provider buttons, which have no \<open>onClick\<close>.
\<close>

record login_view =
  password_input_type :: string
  submit_label :: string
  submit_disabled :: bool
  google_button_action :: "oauth_provider option"
  github_button_action :: "oauth_provider option"

definition render_login_form :: "login_form \<Rightarrow> login_view" where
  "render_login_form f =
     \<lparr>password_input_type = (if show_password f then ''text'' else ''password''),
      submit_label = (if is_submitting f then ''Logging in...'' else ''Login''),
      submit_disabled = is_submitting f,
      google_button_action = None,
      github_button_action = None\<rparr>"

text \<open>
  The submission in two phases, as the browser sees it: \<open>Submit\<close> runs
  \<open>handleSubmit\<close> up to the \<open>await\<close> of the login request (the request is sent,
  \<open>isSubmitting\<close> is set), \<open>Settle a\<close> delivers the backend's answer \<open>a\<close> and runs
  the rest of \<open>onSubmit\<close> (\<open>login_settle\<close>, the code after \<open>await loginService\<close>,
  with the service's \<open>console.error\<close> on failure) and clears \<open>isSubmitting\<close>. In between
  the user may edit the fields or toggle the password visibility; the answer may be
  anything, so the backend is left completely open.
\<close>

definition login_settle ::
  "(api_error \<Rightarrow> string option) \<Rightarrow> api_error + auth_response \<Rightarrow> login_form \<Rightarrow> world \<Rightarrow> login_form \<times> world" where
  "login_settle eh a f w =
     (case a of
        Inl e \<Rightarrow> (f, toast_error (js_nullish (eh e) ''Unknown error'') (console_error e w))
      | Inr r \<Rightarrow>
          (if resp_status r = ''success'' then
             (case resp_data r of
                Some d \<Rightarrow>
                  (f\<lparr>form_values := login_defaults\<rparr>,
                   router_push ''/'' (toast_success (js_or (resp_message r) ''Login successful'')
                     (persist_session d w)))
              | None \<Rightarrow> (f, w))
           else (f, w)))"

record login_sys =
  ls_form :: login_form
  in_flight :: "login_values option"
  ls_world :: world
  ls_mounted :: bool

datatype login_event = Submit | Settle "api_error + auth_response" | Edit login_values | Toggle_Password | Leave

fun login_step :: "(api_error \<Rightarrow> string option) \<Rightarrow> login_sys \<Rightarrow> login_event \<Rightarrow> login_sys option" where
  "login_step eh s Submit =
     (if \<not> ls_mounted s then None
      else if is_submitting (ls_form s) then Some s
      else Some (s\<lparr>ls_form := (ls_form s)\<lparr>is_submitting := True\<rparr>,
                   in_flight := Some (form_values (ls_form s)),
                   ls_world := service_send (login_request (form_values (ls_form s))) (ls_world s)\<rparr>))"
| "login_step eh s (Settle a) =
     (case in_flight s of
        None \<Rightarrow> None
      | Some v \<Rightarrow>
          (case login_settle eh a (ls_form s) (ls_world s) of
             (f', w') \<Rightarrow> Some (s\<lparr>ls_form := f'\<lparr>is_submitting := False\<rparr>, in_flight := None, ls_world := w'\<rparr>)))"
| "login_step eh s (Edit v) =
     (if ls_mounted s then Some (s\<lparr>ls_form := (ls_form s)\<lparr>form_values := v\<rparr>\<rparr>) else None)"
| "login_step eh s Toggle_Password =
     (if ls_mounted s then Some (s\<lparr>ls_form := toggle_password (ls_form s)\<rparr>) else None)"
| "login_step eh s Leave = (if ls_mounted s then Some (s\<lparr>ls_mounted := False\<rparr>) else None)"

fun login_run :: "(api_error \<Rightarrow> string option) \<Rightarrow> login_sys \<Rightarrow> login_event list \<Rightarrow> login_sys option" where
  "login_run eh s [] = Some s"
| "login_run eh s (e # es) = (case login_step eh s e of None \<Rightarrow> None | Some s' \<Rightarrow> login_run eh s' es)"

definition login_sys_init :: "world \<Rightarrow> login_sys" where
  "login_sys_init w = \<lparr>ls_form = login_form_init, in_flight = None, ls_world = w, ls_mounted = True\<rparr>"

inductive login_reach :: "(api_error \<Rightarrow> string option) \<Rightarrow> login_sys \<Rightarrow> bool" where
  start: "login_reach eh (login_sys_init w)"
| step: "login_reach eh s \<Longrightarrow> login_step eh s e = Some s' \<Longrightarrow> login_reach eh s'"

definition login_sys_inv :: "login_sys \<Rightarrow> bool" where
  "login_sys_inv s \<longleftrightarrow> (is_submitting (ls_form s) \<longleftrightarrow> in_flight s \<noteq> None)"

subsection \<open>The submit handler, branch by branch\<close>

text \<open>
  C6: a login whose response is a success with data resets the form fields, stores the
  session exactly as the session write does, shows one success toast with the
  response's message (or the default), navigates to \<open>/\<close>, and sent exactly the
  login request.
\<close>

theorem onSubmit_success:
  fixes tr eh v f w
  assumes "tr (login_request v) = Inr r" and "resp_status r = ''success''" and "resp_data r = Some d"
  defines "res \<equiv> onSubmit tr eh v f w"
  shows "form_values (fst res) = login_defaults
       \<and> storage (snd res) = storage (persist_session d w)
       \<and> toasts (snd res) = toasts w @ [Toast_Success (js_or (resp_message r) ''Login successful'')]
       \<and> navigations (snd res) = navigations w @ [''/'']
       \<and> requests (snd res) = requests w @ [login_request v]"
proof -
  let ?w1 = "w\<lparr>requests := requests w @ [login_request v]\<rparr>"
  have r: "res = (f\<lparr>form_values := login_defaults\<rparr>,
      router_push ''/'' (toast_success (js_or (resp_message r) ''Login successful'') (persist_session d ?w1)))"
    using assms by (simp add: onSubmit_def loginService_def call_service_Inr)
  show ?thesis
    by (simp add: r effect_simps frame_simps)
qed

theorem onSubmit_success_witness:
  "navigations (snd (onSubmit (\<lambda>_. Inr \<lparr>resp_status = ''success'', resp_message = Some ''Welcome'', resp_data = Some \<lparr>data_tokens = Some \<lparr>accessToken = ''at'', refreshToken = ''rt''\<rparr>, data_user = None\<rparr>\<rparr>) apiErrorHandler \<lparr>email = ''a@b.c'', password = ''pw''\<rparr> login_form_init empty_world)) = [''/'']
 \<and> storage (snd (onSubmit (\<lambda>_. Inr \<lparr>resp_status = ''success'', resp_message = Some ''Welcome'', resp_data = Some \<lparr>data_tokens = Some \<lparr>accessToken = ''at'', refreshToken = ''rt''\<rparr>, data_user = None\<rparr>\<rparr>) apiErrorHandler \<lparr>email = ''a@b.c'', password = ''pw''\<rparr> login_form_init empty_world)) ''accessToken'' = Some ''at''"
  using onSubmit_success [of "\<lambda>_. Inr \<lparr>resp_status = ''success'', resp_message = Some ''Welcome'', resp_data = Some \<lparr>data_tokens = Some \<lparr>accessToken = ''at'', refreshToken = ''rt''\<rparr>, data_user = None\<rparr>\<rparr>" "\<lparr>email = ''a@b.c'', password = ''pw''\<rparr>" "\<lparr>resp_status = ''success'', resp_message = Some ''Welcome'', resp_data = Some \<lparr>data_tokens = Some \<lparr>accessToken = ''at'', refreshToken = ''rt''\<rparr>, data_user = None\<rparr>\<rparr>" "\<lparr>data_tokens = Some \<lparr>accessToken = ''at'', refreshToken = ''rt''\<rparr>, data_user = None\<rparr>" apiErrorHandler login_form_init empty_world]
  by (simp add: empty_world_def persist_session_def setItem_def)

text \<open>
  C7: a login whose request fails (the service rethrows) leaves the form as it was,
  writes nothing to the storage, does not navigate, and shows exactly one error toast
  with the handler's message, or \<open>Unknown error\<close> when it has none.
\<close>

theorem onSubmit_transport_error:
  fixes tr eh v f w
  assumes "tr (login_request v) = Inl e"
  defines "res \<equiv> onSubmit tr eh v f w"
  shows "fst res = f
       \<and> storage (snd res) = storage w
       \<and> navigations (snd res) = navigations w
       \<and> toasts (snd res) = toasts w @ [Toast_Error (js_nullish (eh e) ''Unknown error'')]"
  using assms by (simp add: onSubmit_def loginService_def call_service_Inl effect_simps)

theorem onSubmit_transport_error_witness:
  "toasts (snd (onSubmit (\<lambda>_. Inl (Network_Error ''Network Error'')) (\<lambda>_. None) \<lparr>email = ''a@b.c'', password = ''pw''\<rparr> login_form_init empty_world))
     = [Toast_Error ''Unknown error'']"
  using onSubmit_transport_error [of "\<lambda>_. Inl (Network_Error ''Network Error'')" "\<lparr>email = ''a@b.c'', password = ''pw''\<rparr>"
      "Network_Error ''Network Error''" "\<lambda>_. None" login_form_init empty_world]
  by (simp add: empty_world_def)

text \<open>
  C11: a response that arrives without an exception but is not a success with data
  (for instance \<open>{status: "error", message: "Invalid credentials"}\<close> with a 2xx
  status) has no effect beyond the request itself: no toast, no navigation, no storage
  write, the form unchanged. The spec promises a failure notification here.
\<close>

theorem onSubmit_logical_failure_silent:
  assumes "tr (login_request v) = Inr r" and "resp_status r \<noteq> ''success'' \<or> resp_data r = None"
  shows "onSubmit tr eh v f w = (f, w\<lparr>requests := requests w @ [login_request v]\<rparr>)"
  using assms by (auto simp: onSubmit_def loginService_def call_service_Inr split: option.splits)

theorem onSubmit_logical_failure_silent_witness:
  "toasts (snd (onSubmit (\<lambda>_. Inr \<lparr>resp_status = ''error'', resp_message = Some ''Invalid credentials'', resp_data = None\<rparr>)
            apiErrorHandler \<lparr>email = ''a@b.c'', password = ''pw''\<rparr> login_form_init empty_world)) = []"
  using onSubmit_logical_failure_silent
      [of "\<lambda>_. Inr \<lparr>resp_status = ''error'', resp_message = Some ''Invalid credentials'', resp_data = None\<rparr>" "\<lparr>email = ''a@b.c'', password = ''pw''\<rparr>"
          "\<lparr>resp_status = ''error'', resp_message = Some ''Invalid credentials'', resp_data = None\<rparr>"
          apiErrorHandler login_form_init empty_world]
  by (simp add: empty_world_def)

subsection \<open>The submission in two phases\<close>

lemma login_step_inv: "login_sys_inv s \<Longrightarrow> login_step eh s e = Some s' \<Longrightarrow> login_sys_inv s'"
  by (cases e) (auto simp: login_sys_inv_def toggle_password_def split: if_splits option.splits prod.splits)

text \<open>In every reachable state \<open>isSubmitting\<close> is set exactly while a request is in flight.\<close>

lemma login_reach_inv: "login_reach eh s \<Longrightarrow> login_sys_inv s"
proof (induction rule: login_reach.induct)
  case (start eh w)
  then show ?case by (simp add: login_sys_inv_def login_sys_init_def login_form_init_def)
next
  case (step eh s e s')
  then show ?case by (blast intro: login_step_inv)
qed

text \<open>
  C20: in every state the login form reaches, while the form is mounted and a login
  request is in flight a submit event is ignored: no second request is sent and
  nothing changes.
\<close>

theorem submit_in_flight_ignored:
  assumes "login_reach eh s" and "ls_mounted s" and "in_flight s \<noteq> None"
  shows "login_step eh s Submit = Some s"
  using login_reach_inv [OF assms(1)] assms(2,3) by (simp add: login_sys_inv_def)

theorem submit_in_flight_ignored_witness:
  "login_step apiErrorHandler
     \<lparr>ls_form = login_form_init\<lparr>is_submitting := True\<rparr>, in_flight = Some login_defaults,
      ls_world = empty_world\<lparr>requests := [login_request login_defaults]\<rparr>, ls_mounted = True\<rparr> Submit
   = Some \<lparr>ls_form = login_form_init\<lparr>is_submitting := True\<rparr>, in_flight = Some login_defaults,
      ls_world = empty_world\<lparr>requests := [login_request login_defaults]\<rparr>, ls_mounted = True\<rparr>"
proof -
  let ?s = "\<lparr>ls_form = login_form_init\<lparr>is_submitting := True\<rparr>, in_flight = Some login_defaults,
      ls_world = empty_world\<lparr>requests := [login_request login_defaults]\<rparr>, ls_mounted = True\<rparr>"
  have "login_step apiErrorHandler (login_sys_init empty_world) Submit = Some ?s"
    by (simp add: login_sys_init_def login_form_init_def empty_world_def service_send_def)
  then have "login_reach apiErrorHandler ?s"
    by (rule login_reach.step [OF login_reach.start])
  then show ?thesis
    using submit_in_flight_ignored [of apiErrorHandler ?s] by simp
qed

text \<open>
  C30: in every state the login form reaches, the submit button is disabled and reads
  \<open>Logging in...\<close> exactly while a login request is in flight; otherwise it is enabled
  and reads \<open>Login\<close>.
\<close>

theorem login_view_in_flight:
  assumes "login_reach eh s"
  shows "submit_disabled (render_login_form (ls_form s)) = (in_flight s \<noteq> None)
       \<and> submit_label (render_login_form (ls_form s)) = (if in_flight s = None then ''Login'' else ''Logging in...'')"
  using login_reach_inv [OF assms] by (simp add: render_login_form_def login_sys_inv_def)

theorem login_view_in_flight_witness:
  "submit_disabled (render_login_form (login_form_init\<lparr>is_submitting := True\<rparr>))
   \<and> submit_label (render_login_form (login_form_init\<lparr>is_submitting := True\<rparr>)) = ''Logging in...''"
proof -
  let ?s = "\<lparr>ls_form = login_form_init\<lparr>is_submitting := True\<rparr>, in_flight = Some login_defaults,
      ls_world = empty_world\<lparr>requests := [login_request login_defaults]\<rparr>, ls_mounted = True\<rparr>"
  have "login_step apiErrorHandler (login_sys_init empty_world) Submit = Some ?s"
    by (simp add: login_sys_init_def login_form_init_def empty_world_def service_send_def)
  then have "login_reach apiErrorHandler ?s"
    by (rule login_reach.step [OF login_reach.start])
  then show ?thesis
    using login_view_in_flight [of apiErrorHandler ?s] by simp
qed

text \<open>
  C31: leaving the login page while the login request is in flight cancels nothing:
  when the backend then answers with a success, the session is still written and the
  browser is still sent to \<open>/\<close>, although the user has navigated elsewhere.
\<close>

theorem login_completes_after_leaving:
  assumes "\<not> is_submitting f" and "resp_status r = ''success''" and "resp_data r = Some d"
  shows "map_option (\<lambda>s. (ls_mounted s, in_flight s, navigations (ls_world s), storage (ls_world s)))
           (login_run eh \<lparr>ls_form = f, in_flight = None, ls_world = w, ls_mounted = True\<rparr> [Submit, Leave, Settle (Inr r)])
       = Some (False, None, navigations w @ [''/''], storage (persist_session d w))"
  using assms
  by (simp add: login_settle_def service_send_def storage_persist_session effect_simps frame_simps)

theorem login_completes_after_leaving_witness:
  "\<not> is_submitting login_form_init
   \<and> map_option (\<lambda>s. (ls_mounted s, in_flight s, navigations (ls_world s), storage (ls_world s)))
       (login_run apiErrorHandler \<lparr>ls_form = login_form_init, in_flight = None, ls_world = empty_world, ls_mounted = True\<rparr>
          [Submit, Leave, Settle (Inr \<lparr>resp_status = ''success'', resp_message = None,
             resp_data = Some \<lparr>data_tokens = Some \<lparr>accessToken = ''at'', refreshToken = ''rt''\<rparr>, data_user = None\<rparr>\<rparr>)])
     = Some (False, None, [''/''], storage (persist_session \<lparr>data_tokens = Some \<lparr>accessToken = ''at'', refreshToken = ''rt''\<rparr>, data_user = None\<rparr> empty_world))"
  using login_completes_after_leaving [of login_form_init "\<lparr>resp_status = ''success'', resp_message = None,
             resp_data = Some \<lparr>data_tokens = Some \<lparr>accessToken = ''at'', refreshToken = ''rt''\<rparr>, data_user = None\<rparr>\<rparr>"
      "\<lparr>data_tokens = Some \<lparr>accessToken = ''at'', refreshToken = ''rt''\<rparr>, data_user = None\<rparr>" apiErrorHandler empty_world]
  by (simp add: login_form_init_def empty_world_def)

end
