(* ===== verification/Url_Encoding.thy ===== *)
theory Url_Encoding
  imports Auth_Prelude
begin

text \<open>
  The URL machinery the callback page relies on: \<open>encodeURIComponent\<close>, which builds
  the query of \<open>/login?error=<message>\<close>, and the \<open>application/x-www-form-urlencoded\<close>
  parser behind \<open>URLSearchParams\<close> (\<open>useSearchParams().get\<close>), which reads it back.
  Both are JavaScript built-ins, modelled here from their specifications (ECMA-262
  \<open>encodeURIComponent\<close>, WHATWG URL \<open>urlencoded parser\<close>). A string is a list of
  UTF-8 bytes, so \<open>encodeURIComponent\<close> percent-encodes each byte outside the
  unreserved set, as the built-in does for the UTF-8 encoding of each code point.
\<close>

subsection \<open>Hexadecimal digits\<close>

definition hex_digit :: "nat \<Rightarrow> char" where
  "hex_digit n = char_of (if n < 10 then 48 + n else 55 + n)"

definition is_hex :: "char \<Rightarrow> bool" where
  "is_hex c \<longleftrightarrow> (let n = (of_char c :: nat) in
     (48 \<le> n \<and> n \<le> 57) \<or> (65 \<le> n \<and> n \<le> 70) \<or> (97 \<le> n \<and> n \<le> 102))"

definition hex_val :: "char \<Rightarrow> nat" where
  "hex_val c = (let n = (of_char c :: nat) in
     if n \<le> 57 then n - 48 else if n \<le> 70 then n - 55 else n - 87)"

subsection \<open>encodeURIComponent\<close>

text \<open>The unreserved characters: \<open>A-Z a-z 0-9 - _ . ! ~ * ' ( )\<close>.\<close>

definition uri_unreserved :: "char \<Rightarrow> bool" where
  "uri_unreserved c \<longleftrightarrow> (let n = (of_char c :: nat) in
     (48 \<le> n \<and> n \<le> 57) \<or> (65 \<le> n \<and> n \<le> 90) \<or> (97 \<le> n \<and> n \<le> 122) \<or>
     n \<in> {45, 95, 46, 33, 126, 42, 39, 40, 41})"

definition pct_encode :: "char \<Rightarrow> string" where
  "pct_encode c = [CHR ''%'', hex_digit (of_char c div 16), hex_digit (of_char c mod 16)]"

fun encodeURIComponent :: "string \<Rightarrow> string" where
  "encodeURIComponent [] = []"
| "encodeURIComponent (c # cs) =
     (if uri_unreserved c then [c] else pct_encode c) @ encodeURIComponent cs"

subsection \<open>The urlencoded parser\<close>

text \<open>
  Percent-decoding of a name or a value: \<open>+\<close> is a space, \<open>%XY\<close> with two hex digits
  is the byte \<open>XY\<close>, and any other \<open>%\<close> is kept as it is.
\<close>

fun form_decode :: "string \<Rightarrow> string" where
  "form_decode [] = []"
| "form_decode (c # cs) =
     (if c = CHR ''%'' then
        (case cs of
           a # b # rest \<Rightarrow>
             if is_hex a \<and> is_hex b then char_of (16 * hex_val a + hex_val b) # form_decode rest
             else c # form_decode cs
         | _ \<Rightarrow> c # form_decode cs)
      else if c = CHR ''+'' then CHR '' '' # form_decode cs
      else c # form_decode cs)"

text \<open>Splitting a string at every occurrence of a separator.\<close>

fun split_on :: "char \<Rightarrow> string \<Rightarrow> string list" where
  "split_on d [] = [[]]"
| "split_on d (c # cs) =
     (if c = d then [] # split_on d cs
      else (case split_on d cs of w # ws \<Rightarrow> (c # w) # ws | [] \<Rightarrow> [[c]]))"

text \<open>One \<open>name=value\<close> pair: split at the first \<open>=\<close>; no \<open>=\<close> means an empty value.\<close>

definition parse_pair :: "string \<Rightarrow> string \<times> string" where
  "parse_pair s = (let n = takeWhile (\<lambda>c. c \<noteq> CHR ''='') s;
                       v = drop (Suc (length n)) s
                   in (form_decode n, form_decode v))"

definition parse_query :: "string \<Rightarrow> (string \<times> string) list" where
  "parse_query q = map parse_pair (filter (\<lambda>s. s \<noteq> []) (split_on CHR ''&'' q))"

text \<open>\<open>URLSearchParams.get\<close>: the value of the first pair with that name.\<close>

definition search_get :: "(string \<times> string) list \<Rightarrow> string \<Rightarrow> string option" where
  "search_get ps k = map_of ps k"

text \<open>The query of a path: what follows the first \<open>?\<close> (a path here has no fragment).\<close>

definition query_of :: "string \<Rightarrow> string" where
  "query_of url = drop (Suc (length (takeWhile (\<lambda>c. c \<noteq> CHR ''?'') url))) url"

text \<open>
  The redirect target the callback page builds on every error path:
  \<open>router.push(`/login?error=${encodeURIComponent(errorMessage)}`)\<close>.
\<close>

definition login_error_url :: "string \<Rightarrow> string" where
  "login_error_url m = ''/login?error='' @ encodeURIComponent m"

subsection \<open>Hex digits and percent-encoding\<close>

lemma of_char_div_16: "(of_char c :: nat) div 16 < 16"
proof -
  have "(of_char c :: nat) < 16 * 16" by simp
  then show ?thesis by (simp add: div_less_iff_less_mult)
qed

lemma hex_digit_props:
  assumes "n < 16"
  shows "is_hex (hex_digit n)" and "hex_val (hex_digit n) = n"
  using assms by (auto simp: hex_digit_def is_hex_def hex_val_def Let_def)

lemma uri_unreserved_not_special:
  "uri_unreserved c \<Longrightarrow> c \<noteq> CHR ''%'' \<and> c \<noteq> CHR ''+'' \<and> c \<noteq> CHR ''&'' \<and> c \<noteq> CHR ''=''"
  by (auto simp: uri_unreserved_def)

lemma pct_encode_decode: "form_decode (pct_encode c @ rest) = c # form_decode rest"
proof -
  let ?n = "of_char c :: nat"
  have hi: "?n div 16 < 16" by (rule of_char_div_16)
  have lo: "?n mod 16 < 16" by simp
  have "16 * (?n div 16) + ?n mod 16 = ?n" by simp
  then show ?thesis
    using hex_digit_props [OF hi] hex_digit_props [OF lo]
    by (simp add: pct_encode_def)
qed

text \<open>Decoding undoes encoding, for every byte string.\<close>

lemma form_decode_encodeURIComponent: "form_decode (encodeURIComponent s) = s"
proof (induction s)
  case Nil
  then show ?case by simp
next
  case (Cons c cs)
  then show ?case
    by (cases "uri_unreserved c") (auto simp: pct_encode_decode dest: uri_unreserved_not_special)
qed

lemma encodeURIComponent_chars:
  "x \<in> set (encodeURIComponent s) \<Longrightarrow> uri_unreserved x \<or> x = CHR ''%'' \<or> is_hex x"
  by (induction s) (auto simp: pct_encode_def hex_digit_props of_char_div_16 split: if_splits)

lemma encodeURIComponent_no_separator:
  "CHR ''&'' \<notin> set (encodeURIComponent s) \<and> CHR ''='' \<notin> set (encodeURIComponent s)"
proof -
  have "\<And>x. x \<in> set (encodeURIComponent s) \<Longrightarrow> x \<noteq> CHR ''&'' \<and> x \<noteq> CHR ''=''"
    using encodeURIComponent_chars uri_unreserved_not_special
    by (fastforce simp: is_hex_def)
  then show ?thesis by blast
qed

lemma split_on_absent: "d \<notin> set s \<Longrightarrow> split_on d s = [s]"
  by (induction s) auto

subsection \<open>The error redirect reads back as the message\<close>

text \<open>The query of the redirect target is exactly one pair, \<open>error\<close> with the message.\<close>

lemma login_error_url_query: "parse_query (query_of (login_error_url m)) = [(''error'', m)]"
proof -
  let ?e = "encodeURIComponent m"
  have q: "query_of (login_error_url m) = ''error='' @ ?e"
    by (simp add: query_of_def login_error_url_def)
  have "CHR ''&'' \<notin> set (''error='' @ ?e)"
    using encodeURIComponent_no_separator by simp
  then have sp: "split_on CHR ''&'' (''error='' @ ?e) = [''error='' @ ?e]"
    by (rule split_on_absent)
  have "parse_pair (''error='' @ ?e) = (''error'', m)"
    by (simp add: parse_pair_def form_decode_encodeURIComponent)
  with q sp show ?thesis
    by (simp add: parse_query_def)
qed

text \<open>
  C15: the login page that receives \<open>/login?error=<encoded message>\<close> and reads
  \<open>searchParams.get("error")\<close> obtains exactly the message the callback page showed,
  whatever bytes it contains (spaces, \<open>&\<close>, \<open>=\<close>, \<open>+\<close>, \<open>%\<close>, non-ASCII).
\<close>

theorem login_error_url_roundtrip:
  "search_get (parse_query (query_of (login_error_url m))) ''error'' = Some m"
  by (simp add: login_error_url_query search_get_def)

end
