(* ===== verification/OAuth_Callback.thy ===== *)
theory OAuth_Callback
  imports Session Url_Encoding
begin

text \<open>
  The OAuth callback page of \<open>src/app/(auth)/oauth-callback/page.tsx\<close>: its state
  (\<open>status\<close>, \<open>message\<close>), the effect \<open>processCallback\<close> that runs once on mount, what
  the page renders in each state, and the page's life cycle as a step relation (mount,
  the timer firing, unmount). The query is the list of pairs \<open>useSearchParams()\<close> holds,
  read with \<open>search_get\<close> (\<open>URLSearchParams.get\<close>).
\<close>

datatype callback_status = Cb_Loading | Cb_Success | Cb_Error

record callback_page =
  cb_status :: callback_status
  cb_message :: string

definition callback_init :: callback_page where
  "callback_init = \<lparr>cb_status = Cb_Loading, cb_message = ''''\<rparr>"

type_synonym query = "(string \<times> string) list"

text \<open>
  The four statements every error path ends with: \<open>setStatus("error")\<close>,
  \<open>setMessage(m)\<close>, \<open>toast.error(m)\<close>, \<open>router.push(`/login?error=${...}`)\<close>.
\<close>

definition fail_with :: "string \<Rightarrow> callback_page \<Rightarrow> world \<Rightarrow> callback_page \<times> world" where
  "fail_with m p w = (p\<lparr>cb_status := Cb_Error, cb_message := m\<rparr>, router_push (login_error_url m) (toast_error m w))"

definition missing_code_message :: string where
  "missing_code_message = ''Invalid OAuth callback. Missing authentication code.''"

text \<open>
  \<open>processCallback\<close>, with the exchange endpoint \<open>ep\<close> and the error handler \<open>eh\<close>
  (\<open>apiErrorHandler(e).message\<close>) as parameters. A response that is not a success with
  data is turned into \<open>throw new Error(response.message || "Authentication failed")\<close>,
  which the \<open>catch\<close> hands to the same handler as a plain \<open>Error\<close>.
\<close>

definition processCallback ::
  "transport \<Rightarrow> string \<Rightarrow> (api_error \<Rightarrow> string option) \<Rightarrow> query \<Rightarrow> callback_page \<Rightarrow> world \<Rightarrow> callback_page \<times> world" where
  "processCallback tr ep eh q p w =
     (let code = search_get q ''code'';
          error = search_get q ''error'';
          statusParam = search_get q ''status''
      in if js_truthy error \<or> statusParam = Some ''error'' then
           fail_with (js_or (search_get q ''message'') (js_or error ''OAuth authentication failed'')) p w
         else (case code of
           Some c \<Rightarrow>
             if c = [] then fail_with missing_code_message p w
             else (case exchangeOAuthCode tr ep c w of
               (Inl e, w1) \<Rightarrow> fail_with (js_or (eh e) ''Failed to complete authentication'') p w1
             | (Inr r, w1) \<Rightarrow>
                 (case (resp_status r = ''success'', resp_data r) of
                    (True, Some d) \<Rightarrow>
                      (let m = js_or (resp_message r) ''Authentication successful!''
                       in (p\<lparr>cb_status := Cb_Success, cb_message := m\<rparr>,
                           set_timeout_push 1500 ''/'' (toast_success m (store_auth_data d w1))))
                  | _ \<Rightarrow> fail_with
                           (js_or (eh (Plain_Error (js_or (resp_message r) ''Authentication failed'')))
                              ''Failed to complete authentication'') p w1))
         | None \<Rightarrow> fail_with missing_code_message p w))"

text \<open>What the page renders: a spinner, or the outcome with its manual links.\<close>

datatype callback_view =
    Spinner_View string
  | Success_View string "string list"
  | Error_View string "string list"

fun render_callback :: "callback_page \<Rightarrow> callback_view" where
  "render_callback p =
     (case cb_status p of
        Cb_Loading \<Rightarrow> Spinner_View ''Completing authentication...''
      | Cb_Success \<Rightarrow> Success_View (cb_message p) [''/'']
      | Cb_Error \<Rightarrow> Error_View (cb_message p) [''/login'', ''/signup''])"

text \<open>
  The page's life cycle. The effect runs when the page mounts (its dependencies do not
  change afterwards), the event loop may fire the pending timers, and the page may
  unmount. The effect returns no cleanup function, so unmounting leaves the timers.
\<close>

datatype page_event = Mount query | Timers_Fire | Unmount

fun callback_life ::
  "transport \<Rightarrow> string \<Rightarrow> (api_error \<Rightarrow> string option) \<Rightarrow> callback_page option \<times> world \<Rightarrow> page_event
   \<Rightarrow> callback_page option \<times> world" where
  "callback_life tr ep eh (None, w) (Mount q) =
     (case processCallback tr ep eh q callback_init w of (p, w') \<Rightarrow> (Some p, w'))"
| "callback_life tr ep eh (Some p, w) (Mount q) = (Some p, w)"
| "callback_life tr ep eh (pg, w) Timers_Fire = (pg, fire_timers w)"
| "callback_life tr ep eh (pg, w) Unmount = (None, w)"

definition callback_run ::
  "transport \<Rightarrow> string \<Rightarrow> (api_error \<Rightarrow> string option) \<Rightarrow> page_event list \<Rightarrow> callback_page option \<times> world
   \<Rightarrow> callback_page option \<times> world" where
  "callback_run tr ep eh evs s = fold (\<lambda>e s. callback_life tr ep eh s e) evs s"

subsection \<open>The outcome of the callback\<close>

text \<open>
  Every run of the callback ends in one of two shapes: the error tail (toast, then the
  redirect to the login page with the displayed message) or the success tail (session
  write, toast, delayed navigation), each after steps that touch none of the storage,
  the toasts, the navigations and the timers (at most the exchange request and its log).
\<close>

lemma processCallback_outcomes:
  assumes "processCallback tr ep eh q p w = (p', w')"
  shows "(\<exists>w1. same_ui w1 w \<and> cb_status p' = Cb_Error
              \<and> w' = router_push (login_error_url (cb_message p')) (toast_error (cb_message p') w1))
       \<or> (\<exists>w1 d. same_ui w1 w \<and> cb_status p' = Cb_Success
              \<and> w' = set_timeout_push 1500 ''/'' (toast_success (cb_message p') (store_auth_data d w1)))"
  using assms
  by (auto simp: processCallback_def fail_with_def exchangeOAuthCode_def Let_def
           dest!: call_service_world split: if_splits option.splits sum.splits prod.splits bool.splits;
      blast)

lemma processCallback_success_world:
  assumes "processCallback tr ep eh q p w = (p', w')" and "cb_status p' = Cb_Success"
  shows "navigations w' = navigations w \<and> timers w' = timers w @ [(1500, ''/'')]"
  using processCallback_outcomes [OF assms(1)] assms(2) by (auto simp: effect_simps frame_simps)

text \<open>
  C1: every run of the callback that ends in the error state shows exactly one error
  toast carrying the displayed message, navigates exactly once, to
  \<open>/login?error=\<close> followed by that message percent-encoded, writes nothing to the
  storage and schedules no timer. This holds on all four error paths: an error signalled
  in the query, a failed exchange, an unsuccessful response, a missing code.
\<close>

theorem callback_error_outcome:
  assumes "processCallback tr ep eh q p w = (p', w')" and "cb_status p' = Cb_Error"
  shows "toasts w' = toasts w @ [Toast_Error (cb_message p')]
       \<and> navigations w' = navigations w @ [login_error_url (cb_message p')]
       \<and> storage w' = storage w \<and> timers w' = timers w"
  using processCallback_outcomes [OF assms(1)] assms(2) by (auto simp: effect_simps)

theorem callback_error_outcome_witness:
  "navigations (snd (processCallback (\<lambda>_. Inl (Network_Error ''Network Error'')) ''/oauth/exchange'' apiErrorHandler [(''code'', ''abc'')] callback_init empty_world))
     = [''/login?error=Network%20Error'']"
  using callback_error_outcome
      [of "(\<lambda>_. Inl (Network_Error ''Network Error''))" "''/oauth/exchange''" apiErrorHandler "[(''code'', ''abc'')]" callback_init empty_world
          "fst (processCallback (\<lambda>_. Inl (Network_Error ''Network Error'')) ''/oauth/exchange'' apiErrorHandler [(''code'', ''abc'')] callback_init empty_world)"
          "snd (processCallback (\<lambda>_. Inl (Network_Error ''Network Error'')) ''/oauth/exchange'' apiErrorHandler [(''code'', ''abc'')] callback_init empty_world)"]
  by (simp add: processCallback_def fail_with_def exchangeOAuthCode_def exchange_request_def post_request_def
      call_service_def console_error_def effect_simps login_error_url_def empty_world_def
      search_get_def uri_unreserved_def pct_encode_def hex_digit_def char_of_eq_iff)

text \<open>
  C2: when the query carries a non-empty code and no error, and the exchange answers a
  success with data, the page ends in the success state with the response's message
  (or the default), stores the session, shows one success toast, does not navigate at
  once but schedules the navigation to \<open>/\<close> after 1500 ms, and sent exactly one
  request, the exchange of that code.
\<close>

theorem callback_success_outcome:
  fixes tr ep eh q p w
  assumes "search_get q ''code'' = Some c" and "c \<noteq> []"
    and "\<not> js_truthy (search_get q ''error'')" and "search_get q ''status'' \<noteq> Some ''error''"
    and "tr (exchange_request ep c) = Inr r" and "resp_status r = ''success''" and "resp_data r = Some d"
  defines "res \<equiv> processCallback tr ep eh q p w"
    and "m \<equiv> js_or (resp_message r) ''Authentication successful!''"
  shows "cb_status (fst res) = Cb_Success \<and> cb_message (fst res) = m
       \<and> storage (snd res) = storage (store_auth_data d w)
       \<and> toasts (snd res) = toasts w @ [Toast_Success m]
       \<and> navigations (snd res) = navigations w
       \<and> timers (snd res) = timers w @ [(1500, ''/'')]
       \<and> requests (snd res) = requests w @ [exchange_request ep c]"
proof -
  let ?w1 = "w\<lparr>requests := requests w @ [exchange_request ep c]\<rparr>"
  have "res = (p\<lparr>cb_status := Cb_Success, cb_message := m\<rparr>,
               set_timeout_push 1500 ''/'' (toast_success m (store_auth_data d ?w1)))"
    using assms(1-7)
    by (simp add: res_def m_def processCallback_def exchangeOAuthCode_def call_service_Inr Let_def)
  then show ?thesis
    by (simp add: effect_simps frame_simps)
qed

theorem callback_success_outcome_witness:
  "cb_status (fst (processCallback (\<lambda>_. Inr \<lparr>resp_status = ''success'', resp_message = None, resp_data = Some \<lparr>data_tokens = Some \<lparr>accessToken = ''at'', refreshToken = ''rt''\<rparr>, data_user = None\<rparr>\<rparr>) ''/oauth/exchange'' apiErrorHandler [(''code'', ''abc123'')] callback_init empty_world)) = Cb_Success
 \<and> timers (snd (processCallback (\<lambda>_. Inr \<lparr>resp_status = ''success'', resp_message = None, resp_data = Some \<lparr>data_tokens = Some \<lparr>accessToken = ''at'', refreshToken = ''rt''\<rparr>, data_user = None\<rparr>\<rparr>) ''/oauth/exchange'' apiErrorHandler [(''code'', ''abc123'')] callback_init empty_world)) = [(1500, ''/'')]"
  using callback_success_outcome [of "[(''code'', ''abc123'')]" "''abc123''" "(\<lambda>_. Inr \<lparr>resp_status = ''success'', resp_message = None, resp_data = Some \<lparr>data_tokens = Some \<lparr>accessToken = ''at'', refreshToken = ''rt''\<rparr>, data_user = None\<rparr>\<rparr>)" "''/oauth/exchange''" "\<lparr>resp_status = ''success'', resp_message = None, resp_data = Some \<lparr>data_tokens = Some \<lparr>accessToken = ''at'', refreshToken = ''rt''\<rparr>, data_user = None\<rparr>\<rparr>" "\<lparr>data_tokens = Some \<lparr>accessToken = ''at'', refreshToken = ''rt''\<rparr>, data_user = None\<rparr>"
      apiErrorHandler callback_init empty_world]
  by (simp add: search_get_def empty_world_def)

text \<open>
  C9: an error signalled in the query (a truthy \<open>error\<close>, or \<open>status=error\<close>) ends in
  the error state with the \<open>message\<close> parameter, else the \<open>error\<close> parameter, else
  the default text; the page navigates to the login page with that message and
  exchanges nothing, whatever code the query also carries.
\<close>

theorem callback_error_param:
  fixes tr ep eh q p w
  assumes "js_truthy (search_get q ''error'') \<or> search_get q ''status'' = Some ''error''"
  defines "res \<equiv> processCallback tr ep eh q p w"
    and "m \<equiv> js_or (search_get q ''message'') (js_or (search_get q ''error'') ''OAuth authentication failed'')"
  shows "cb_status (fst res) = Cb_Error \<and> cb_message (fst res) = m
       \<and> navigations (snd res) = navigations w @ [login_error_url m]
       \<and> requests (snd res) = requests w"
  using assms by (simp add: processCallback_def fail_with_def effect_simps Let_def)

theorem callback_error_param_witness:
  "navigations (snd (processCallback (\<lambda>_. Inl (Network_Error ''Network Error'')) ''/oauth/exchange'' apiErrorHandler [(''error'', ''access_denied''), (''code'', ''abc'')]
     callback_init empty_world)) = [''/login?error=access_denied'']"
  using callback_error_param [of "[(''error'', ''access_denied''), (''code'', ''abc'')]" "(\<lambda>_. Inl (Network_Error ''Network Error''))" "''/oauth/exchange''"
      apiErrorHandler callback_init empty_world]
  by (simp add: search_get_def empty_world_def login_error_url_def uri_unreserved_def)

text \<open>
  C10: with no error signalled and no non-empty code, the page ends in the error state
  with the fixed missing-code message, navigates to the login page with it and
  exchanges nothing.
\<close>

theorem callback_missing_code:
  fixes tr ep eh q p w
  assumes "\<not> js_truthy (search_get q ''error'')" and "search_get q ''status'' \<noteq> Some ''error''"
    and "\<not> js_truthy (search_get q ''code'')"
  defines "res \<equiv> processCallback tr ep eh q p w"
  shows "cb_status (fst res) = Cb_Error \<and> cb_message (fst res) = missing_code_message
       \<and> navigations (snd res) = navigations w @ [login_error_url missing_code_message]
       \<and> requests (snd res) = requests w"
  using assms by (auto simp: processCallback_def fail_with_def effect_simps Let_def split: option.splits)

theorem callback_missing_code_witness:
  "cb_message (fst (processCallback (\<lambda>_. Inl (Network_Error ''Network Error'')) ''/oauth/exchange'' apiErrorHandler [] callback_init empty_world))
     = ''Invalid OAuth callback. Missing authentication code.''"
  using callback_missing_code [of "[]" "(\<lambda>_. Inl (Network_Error ''Network Error''))" "''/oauth/exchange''" apiErrorHandler callback_init empty_world]
  by (simp add: search_get_def missing_code_message_def)

text \<open>
  C16: an \<open>error\<close> parameter that is present but empty (\<open>?error=&code=abc\<close>) is not
  treated as an error, because the code tests truthiness: the page goes on to exchange
  the code. The spec says the error branch is taken when \<open>error\<close> is present.
\<close>

theorem callback_empty_error_param_exchanges:
  fixes tr ep eh q p w
  assumes "search_get q ''error'' = Some []" and "search_get q ''status'' \<noteq> Some ''error''"
    and "search_get q ''code'' = Some c" and "c \<noteq> []"
  shows "requests (snd (processCallback tr ep eh q p w)) = requests w @ [exchange_request ep c]"
  using assms
  by (auto simp: processCallback_def fail_with_def exchangeOAuthCode_def effect_simps frame_simps Let_def
           dest!: call_service_world split: option.splits sum.splits prod.splits bool.splits)

theorem callback_empty_error_param_exchanges_witness:
  "requests (snd (processCallback (\<lambda>_. Inl (Network_Error ''Network Error'')) ''/oauth/exchange'' apiErrorHandler [(''error'', []), (''code'', ''abc'')]
     callback_init empty_world)) = [exchange_request ''/oauth/exchange'' ''abc'']"
  using callback_empty_error_param_exchanges [of "[(''error'', []), (''code'', ''abc'')]" "''abc''" "(\<lambda>_. Inl (Network_Error ''Network Error''))"
      "''/oauth/exchange''" apiErrorHandler callback_init empty_world]
  by (simp add: search_get_def empty_world_def)

text \<open>
  C18: the delayed navigation of the success path is not cancelled when the page
  unmounts: mounting a callback that succeeds, unmounting, then letting the timer fire
  still navigates to \<open>/\<close>, exactly once.
\<close>

theorem success_redirect_survives_unmount:
  assumes "timers w = []"
    and "cb_status (fst (processCallback tr ep eh q callback_init w)) = Cb_Success"
  shows "callback_run tr ep eh [Mount q, Unmount, Timers_Fire] (None, w)
           = (None, (snd (processCallback tr ep eh q callback_init w))
                      \<lparr>navigations := navigations w @ [''/''], timers := []\<rparr>)"
proof -
  obtain p' w' where pc: "processCallback tr ep eh q callback_init w = (p', w')"
    by (cases "processCallback tr ep eh q callback_init w")
  with assms(2) have "navigations w' = navigations w \<and> timers w' = [(1500, ''/'')]"
    using processCallback_success_world [OF pc] assms(1) by simp
  with pc show ?thesis
    by (simp add: callback_run_def fire_timers_def)
qed

theorem success_redirect_survives_unmount_witness:
  "navigations (snd (callback_run (\<lambda>_. Inr \<lparr>resp_status = ''success'', resp_message = None, resp_data = Some \<lparr>data_tokens = Some \<lparr>accessToken = ''at'', refreshToken = ''rt''\<rparr>, data_user = None\<rparr>\<rparr>) ''/oauth/exchange'' apiErrorHandler [Mount [(''code'', ''abc123'')], Unmount, Timers_Fire]
     (None, empty_world))) = [''/'']"
  using success_redirect_survives_unmount [of empty_world "(\<lambda>_. Inr \<lparr>resp_status = ''success'', resp_message = None, resp_data = Some \<lparr>data_tokens = Some \<lparr>accessToken = ''at'', refreshToken = ''rt''\<rparr>, data_user = None\<rparr>\<rparr>)" "''/oauth/exchange''" apiErrorHandler "[(''code'', ''abc123'')]"]
  by (simp add: empty_world_def search_get_def processCallback_def exchangeOAuthCode_def call_service_def Let_def
      effect_simps)

text \<open>
  C22: after the callback has run, the page shows the error view with the links to the
  login and signup pages, or the success view with the link home, and in both cases the
  message on the page is the one of the last toast.
\<close>

theorem callback_view_after_processing:
  assumes "processCallback tr ep eh q p w = (p', w')"
  shows "(render_callback p' = Error_View (cb_message p') [''/login'', ''/signup'']
          \<and> last (toasts w') = Toast_Error (cb_message p'))
       \<or> (render_callback p' = Success_View (cb_message p') [''/'']
          \<and> last (toasts w') = Toast_Success (cb_message p'))"
  using processCallback_outcomes [OF assms] by (auto simp: effect_simps)

theorem callback_view_after_processing_witness:
  "render_callback (fst (processCallback (\<lambda>_. Inl (Network_Error ''x'')) ''/oauth/exchange'' apiErrorHandler
       [(''status'', ''error'')] callback_init empty_world))
   = Error_View ''OAuth authentication failed'' [''/login'', ''/signup'']"
  using callback_view_after_processing
      [of "\<lambda>_. Inl (Network_Error ''x'')" "''/oauth/exchange''" apiErrorHandler "[(''status'', ''error'')]"
          callback_init empty_world
          "fst (processCallback (\<lambda>_. Inl (Network_Error ''x'')) ''/oauth/exchange'' apiErrorHandler [(''status'', ''error'')] callback_init empty_world)"
          "snd (processCallback (\<lambda>_. Inl (Network_Error ''x'')) ''/oauth/exchange'' apiErrorHandler [(''status'', ''error'')] callback_init empty_world)"]
  by (simp add: processCallback_def fail_with_def search_get_def Let_def)

end
