(* ===== verification/OAuth_Buttons.thy ===== *)
theory OAuth_Buttons
  imports Auth_Service
begin

text \<open>
  The OAuth buttons of \<open>src/components/auth/oauth-buttons.tsx\<close>: the component state
  (\<open>loadingProvider\<close>, \<open>error\<close>), the click handler \<open>handleOAuthClick\<close>, what it
  renders, and sequences of clicks. The props are the \<open>externalLoading\<close> flag and the
  optional \<open>onProviderClick\<close> callback; the initiation itself (\<open>initiateOAuth\<close>) is a
  parameter too, any action that may throw synchronously. Each click sees the state
  committed by the previous one (React re-renders between discrete events).
\<close>

record buttons_state =
  loadingProvider :: "oauth_provider option"
  button_error :: "string option"

definition buttons_init :: buttons_state where
  "buttons_init = \<lparr>loadingProvider = None, button_error = None\<rparr>"

type_synonym click_action = "oauth_provider \<Rightarrow> world \<Rightarrow> thrown option \<times> world"

text \<open>\<open>err instanceof Error ? err.message : "Failed to initiate OAuth"\<close>\<close>

fun thrown_message :: "thrown \<Rightarrow> string" where
  "thrown_message (Thrown_Error m) = m"
| "thrown_message Thrown_Other = ''Failed to initiate OAuth''"

text \<open>The \<open>catch\<close> block: \<open>setError(m); setLoadingProvider(null); toast.error(m)\<close>.\<close>

definition click_failed :: "thrown \<Rightarrow> buttons_state \<Rightarrow> world \<Rightarrow> buttons_state \<times> world" where
  "click_failed t s w =
     (let m = thrown_message t in (s\<lparr>button_error := Some m, loadingProvider := None\<rparr>, toast_error m w))"

definition handleOAuthClick ::
  "bool \<Rightarrow> click_action option \<Rightarrow> click_action \<Rightarrow> oauth_provider \<Rightarrow> buttons_state \<Rightarrow> world
   \<Rightarrow> buttons_state \<times> world" where
  "handleOAuthClick externalLoading cb initiate p s w =
     (if externalLoading \<or> loadingProvider s \<noteq> None then (s, w)
      else
        (let s1 = s\<lparr>loadingProvider := Some p, button_error := None\<rparr> in
         case (case cb of None \<Rightarrow> (None, w) | Some f \<Rightarrow> f p w) of
           (Some t, w1) \<Rightarrow> click_failed t s1 w1
         | (None, w1) \<Rightarrow>
             (case initiate p w1 of
                (Some t, w2) \<Rightarrow> click_failed t s1 w2
              | (None, w2) \<Rightarrow> (s1, w2))))"

text \<open>What the component renders: the inline error, each button's label, \<open>disabled\<close>.\<close>

record buttons_view =
  error_banner :: "string option"
  google_label :: string
  github_label :: string
  buttons_disabled :: bool

definition render_buttons :: "bool \<Rightarrow> buttons_state \<Rightarrow> buttons_view" where
  "render_buttons externalLoading s =
     \<lparr>error_banner = (if js_truthy (button_error s) then button_error s else None),
      google_label = (if loadingProvider s = Some Google then ''Connecting...'' else ''Continue with Google''),
      github_label = (if loadingProvider s = Some Github then ''Connecting...'' else ''Continue with GitHub''),
      buttons_disabled = (externalLoading \<or> loadingProvider s \<noteq> None)\<rparr>"

text \<open>
  The props \<open>{ isLoading?: boolean; onProviderClick?: (provider) => void }\<close>; an
  absent prop is \<open>undefined\<close>. The component renames \<open>isLoading\<close> to
  \<open>externalLoading\<close> and only tests its truthiness.
\<close>

record buttons_props =
  isLoading :: "bool option"
  onProviderClick :: "click_action option"

definition props_loading :: "buttons_props \<Rightarrow> bool" where
  "props_loading pr = (case isLoading pr of None \<Rightarrow> False | Some b \<Rightarrow> b)"

text \<open>A click event carries the props of the render it happened in.\<close>

datatype click = Click buttons_props click_action oauth_provider

fun click_step :: "buttons_state \<times> world \<Rightarrow> click \<Rightarrow> buttons_state \<times> world" where
  "click_step (s, w) (Click pr init p) = handleOAuthClick (props_loading pr) (onProviderClick pr) init p s w"

definition buttons_run :: "click list \<Rightarrow> buttons_state \<times> world \<Rightarrow> buttons_state \<times> world" where
  "buttons_run cs sw = fold (\<lambda>c sw. click_step sw c) cs sw"

text \<open>The states the component can reach from its initial state by clicks.\<close>

inductive buttons_reach :: "buttons_state \<Rightarrow> world \<Rightarrow> bool" where
  start: "buttons_reach buttons_init w"
| click: "buttons_reach s w \<Longrightarrow> click_step (s, w) c = (s', w') \<Longrightarrow> buttons_reach s' w'"

definition buttons_inv :: "buttons_state \<Rightarrow> bool" where
  "buttons_inv s \<longleftrightarrow> (loadingProvider s \<noteq> None \<longrightarrow> button_error s = None)"

subsection \<open>The click handler\<close>

lemma handleOAuthClick_blocked:
  "externalLoading \<or> loadingProvider s \<noteq> None \<Longrightarrow> handleOAuthClick externalLoading cb init p s w = (s, w)"
  by (simp add: handleOAuthClick_def)

lemma click_failed_state:
  "fst (click_failed t s w) = s\<lparr>button_error := Some (thrown_message t), loadingProvider := None\<rparr>"
  by (simp add: click_failed_def Let_def)

lemma handleOAuthClick_inv:
  "buttons_inv s \<Longrightarrow> buttons_inv (fst (handleOAuthClick ext cb init p s w))"
  by (auto simp: handleOAuthClick_def buttons_inv_def click_failed_state Let_def
           split: option.splits prod.splits)

text \<open>
  C8: once a provider is loading, no sequence of further clicks, on either button and
  whatever the props, changes the state or the world: in particular no further
  initiation runs.
\<close>

theorem clicks_while_loading_ignored:
  "loadingProvider s \<noteq> None \<Longrightarrow> buttons_run cs (s, w) = (s, w)"
proof (induction cs)
  case Nil
  then show ?case by (simp add: buttons_run_def)
next
  case (Cons c cs)
  obtain pr init p where c: "c = Click pr init p" by (cases c)
  from Cons.prems have "click_step (s, w) c = (s, w)"
    by (simp add: c handleOAuthClick_blocked)
  with Cons show ?case by (simp add: buttons_run_def)
qed

theorem clicks_while_loading_ignored_witness:
  "redirects (snd (buttons_run [Click \<lparr>isLoading = None, onProviderClick = None\<rparr> initiateOAuth Google, Click \<lparr>isLoading = None, onProviderClick = None\<rparr> initiateOAuth Github,
                               Click \<lparr>isLoading = None, onProviderClick = None\<rparr> initiateOAuth Google] (buttons_init, empty_world))) = [Google]"
proof -
  let ?s = "buttons_init\<lparr>loadingProvider := Some Google, button_error := None\<rparr>"
  let ?w = "empty_world\<lparr>redirects := [Google]\<rparr>"
  have "buttons_run [Click \<lparr>isLoading = None, onProviderClick = None\<rparr> initiateOAuth Github, Click \<lparr>isLoading = None, onProviderClick = None\<rparr> initiateOAuth Google] (?s, ?w) = (?s, ?w)"
    using clicks_while_loading_ignored [of ?s "[Click \<lparr>isLoading = None, onProviderClick = None\<rparr> initiateOAuth Github, Click \<lparr>isLoading = None, onProviderClick = None\<rparr> initiateOAuth Google]" ?w]
    by simp
  then show ?thesis
    by (simp add: buttons_run_def handleOAuthClick_def initiateOAuth_def buttons_init_def empty_world_def
        props_loading_def)
qed

text \<open>In every reachable state a loading provider and an error are never set together.\<close>

lemma buttons_reach_inv: "buttons_reach s w \<Longrightarrow> buttons_inv s"
proof (induction rule: buttons_reach.induct)
  case (start w)
  then show ?case by (simp add: buttons_init_def buttons_inv_def)
next
  case (click s w c s' w')
  obtain pr init p where c: "c = Click pr init p" by (cases c)
  with click have "s' = fst (handleOAuthClick (props_loading pr) (onProviderClick pr) init p s w)"
    by (metis click_step.simps fst_conv)
  with click.IH show ?case by (simp add: handleOAuthClick_inv)
qed

text \<open>
  C12: in every state the component reaches by clicks, the rendered view never shows the
  inline error next to a \<open>Connecting...\<close> label, and without external loading the
  buttons are disabled exactly while a provider is loading.
\<close>

theorem buttons_view_consistent:
  assumes "buttons_reach s w"
  shows "\<not> (error_banner (render_buttons ext s) \<noteq> None
              \<and> (google_label (render_buttons ext s) = ''Connecting...'' \<or> github_label (render_buttons ext s) = ''Connecting...''))
       \<and> (buttons_disabled (render_buttons False s) \<longleftrightarrow> loadingProvider s \<noteq> None)"
proof -
  have "buttons_inv s" using assms by (rule buttons_reach_inv)
  then show ?thesis
    by (cases "loadingProvider s") (auto simp: buttons_inv_def render_buttons_def)
qed

theorem buttons_view_consistent_witness:
  "google_label (render_buttons False (buttons_init\<lparr>loadingProvider := Some Github, button_error := None\<rparr>)) = ''Continue with Google''
 \<and> buttons_disabled (render_buttons False (buttons_init\<lparr>loadingProvider := Some Github, button_error := None\<rparr>))"
proof -
  have "click_step (buttons_init, empty_world) (Click \<lparr>isLoading = None, onProviderClick = None\<rparr> initiateOAuth Github)
          = (buttons_init\<lparr>loadingProvider := Some Github, button_error := None\<rparr>, empty_world\<lparr>redirects := [Github]\<rparr>)"
    by (simp add: handleOAuthClick_def initiateOAuth_def buttons_init_def empty_world_def props_loading_def)
  then have "buttons_reach (buttons_init\<lparr>loadingProvider := Some Github, button_error := None\<rparr>) (empty_world\<lparr>redirects := [Github]\<rparr>)"
    by (rule buttons_reach.click [OF buttons_reach.start])
  then show ?thesis
    using buttons_view_consistent [of "buttons_init\<lparr>loadingProvider := Some Github, button_error := None\<rparr>"
        "empty_world\<lparr>redirects := [Github]\<rparr>" False]
    by (simp add: render_buttons_def buttons_init_def)
qed

text \<open>
  C13: when the initiation throws synchronously, the click ends with no provider
  loading, the thrown message (or the default text for a non-\<open>Error\<close>) as the inline
  error, and one error toast with the same message.
\<close>

theorem handleOAuthClick_failure:
  assumes "loadingProvider s = None" and "initiate p w = (Some t, w')"
  shows "handleOAuthClick False None initiate p s w
           = (s\<lparr>loadingProvider := None, button_error := Some (thrown_message t)\<rparr>,
              toast_error (thrown_message t) w')"
  using assms by (simp add: handleOAuthClick_def click_failed_def Let_def)

theorem handleOAuthClick_failure_witness:
  "handleOAuthClick False None (\<lambda>p w. (Some Thrown_Other, w)) Google buttons_init empty_world
     = (\<lparr>loadingProvider = None, button_error = Some ''Failed to initiate OAuth''\<rparr>,
        empty_world\<lparr>toasts := [Toast_Error ''Failed to initiate OAuth'']\<rparr>)"
  using handleOAuthClick_failure [of buttons_init "\<lambda>p w. (Some Thrown_Other, w)" Google empty_world Thrown_Other empty_world]
  by (simp add: buttons_init_def toast_error_def empty_world_def)

text \<open>
  C21: a click on an idle component, without external loading, marks that provider as
  loading, clears the error and starts exactly one redirect to that provider.
\<close>

theorem handleOAuthClick_start:
  assumes "loadingProvider s = None"
  shows "handleOAuthClick False None initiateOAuth p s w
           = (s\<lparr>loadingProvider := Some p, button_error := None\<rparr>, w\<lparr>redirects := redirects w @ [p]\<rparr>)"
  using assms by (simp add: handleOAuthClick_def initiateOAuth_def)

theorem handleOAuthClick_start_witness:
  "redirects (snd (handleOAuthClick False None initiateOAuth Github
       \<lparr>loadingProvider = None, button_error = Some ''Popup closed''\<rparr> empty_world)) = [Github]"
  using handleOAuthClick_start [of "\<lparr>loadingProvider = None, button_error = Some ''Popup closed''\<rparr>" Github empty_world]
  by (simp add: empty_world_def)

end
