(* ===== verification/Json_Parse.thy ===== *)
theory Json_Parse
  imports Json Url_Encoding
begin

text \<open>
  \<open>JSON.parse\<close>, the reader of the stored user profile (the counterpart of the
  \<open>JSON.stringify\<close> in the session write). It is a built-in, modelled from ECMA-404 and
  ECMA-262 (JSON.parse) as a recursive-descent reader in the style of a parser
  combinator library: a reader takes the input and returns an error or the value read
  with the rest of the input. The mutual recursion over values, array elements and
  object members is bounded by fuel; the reader is given twice the length of its input
  plus one, and \<open>JSON_parse_fuel_enough\<close> shows that this fuel never runs out.
  \<open>JSON_parse_stringify\<close> shows that it reads back what \<open>JSON.stringify\<close> writes,
  and \<open>JSON_parse_wf\<close> that every object it builds has distinct member names (a
  repeated name keeps its first position and its last value).
  Two parts of the language fall outside the model, and the reader reports them as
  their own errors: numbers with a fraction or an exponent (the \<open>json\<close> type has
  integer numbers only), and \<open>\u\<close> escapes of code points above 0x7F (a string is a
  list of UTF-8 bytes). The reordering of array-index keys (\<open>"0"\<close>, \<open>"1"\<close>, ...)
  that a JavaScript object applies is not modelled: members stay in text order.
\<close>

datatype parse_error = Syntax_Error | Unsupported_Number | Unsupported_Escape | Out_Of_Fuel

type_synonym 'a reader = "string \<Rightarrow> parse_error + ('a \<times> string)"

subsection \<open>Lexical level\<close>

definition json_ws :: "char \<Rightarrow> bool" where
  "json_ws c \<longleftrightarrow> c = CHR '' '' \<or> c = CHR 0x09 \<or> c = CHR 0x0A \<or> c = CHR 0x0D"

definition skip_ws :: "string \<Rightarrow> string" where
  "skip_ws = dropWhile json_ws"

definition is_digit :: "char \<Rightarrow> bool" where
  "is_digit c \<longleftrightarrow> (48::nat) \<le> of_char c \<and> of_char c \<le> (57::nat)"

fun digits_value :: "nat \<Rightarrow> string \<Rightarrow> nat" where
  "digits_value acc [] = acc"
| "digits_value acc (c # cs) = digits_value (10 * acc + (of_char c - 48)) cs"

text \<open>\<open>0 | [1-9][0-9]*\<close>: a leading zero may not be followed by another digit.\<close>

definition read_nat :: "nat reader" where
  "read_nat s = (let ds = takeWhile is_digit s in
     if ds = [] \<or> (hd ds = CHR ''0'' \<and> tl ds \<noteq> []) then Inl Syntax_Error
     else Inr (digits_value 0 ds, dropWhile is_digit s))"

definition read_number :: "int reader" where
  "read_number s =
     (let (neg, s1) = (case s of c # cs \<Rightarrow> if c = CHR ''-'' then (True, cs) else (False, s)
                                | [] \<Rightarrow> (False, s))
      in case read_nat s1 of
           Inl e \<Rightarrow> Inl e
         | Inr (n, r) \<Rightarrow>
             if r \<noteq> [] \<and> hd r \<in> {CHR ''.'', CHR ''e'', CHR ''E''} then Inl Unsupported_Number
             else Inr (if neg then - int n else int n, r))"

text \<open>The one-letter escapes \<open>\" \\ \/ \b \f \n \r \t\<close>.\<close>

definition json_unescape :: "char \<Rightarrow> char option" where
  "json_unescape e =
     (if e = CHR 0x22 then Some (CHR 0x22) else if e = CHR 0x5C then Some (CHR 0x5C)
      else if e = CHR ''/'' then Some (CHR ''/'') else if e = CHR ''b'' then Some (CHR 0x08)
      else if e = CHR ''f'' then Some (CHR 0x0C) else if e = CHR ''n'' then Some (CHR 0x0A)
      else if e = CHR ''r'' then Some (CHR 0x0D) else if e = CHR ''t'' then Some (CHR 0x09)
      else None)"

text \<open>The escape after a backslash: the character it stands for and the rest of the input.\<close>

definition read_escape :: "char reader" where
  "read_escape s =
     (case s of
        [] \<Rightarrow> Inl Syntax_Error
      | e # r \<Rightarrow>
          (case json_unescape e of
             Some d \<Rightarrow> Inr (d, r)
           | None \<Rightarrow>
               if e \<noteq> CHR ''u'' then Inl Syntax_Error
               else (case r of
                       a # b # x # y # r' \<Rightarrow>
                         if is_hex a \<and> is_hex b \<and> is_hex x \<and> is_hex y then
                           (let n = 4096 * hex_val a + 256 * hex_val b + 16 * hex_val x + hex_val y
                            in if n < 128 then Inr (char_of n, r') else Inl Unsupported_Escape)
                         else Inl Syntax_Error
                     | _ \<Rightarrow> Inl Syntax_Error)))"

text \<open>
  The characters of a string literal after its opening quote, up to the closing one.
  It terminates because an escape consumes input.
\<close>

function read_chars :: "string \<Rightarrow> string reader" where
  "read_chars acc [] = Inl Syntax_Error"
| "read_chars acc (c # cs) =
     (if c = CHR 0x22 then Inr (rev acc, cs)
      else if c = CHR 0x5C then
        (case read_escape cs of
           Inl e \<Rightarrow> Inl e
         | Inr (d, r) \<Rightarrow> read_chars (d # acc) r)
      else if of_char c < (32::nat) then Inl Syntax_Error
      else read_chars (c # acc) cs)"
  by pat_completeness auto
termination
  by (relation "measure (\<lambda>(acc, s). length s)")
     (auto simp: read_escape_def Let_def split: list.splits option.splits if_splits)

text \<open>A member name and its colon: \<open>ws string ws :\<close>.\<close>

definition read_key :: "string reader" where
  "read_key s =
     (case skip_ws s of
        q # r \<Rightarrow>
          if q \<noteq> CHR 0x22 then Inl Syntax_Error
          else (case read_chars [] r of
                  Inl e \<Rightarrow> Inl e
                | Inr (k, r1) \<Rightarrow>
                    (case skip_ws r1 of
                       d # r2 \<Rightarrow> if d = CHR '':'' then Inr (k, r2) else Inl Syntax_Error
                     | [] \<Rightarrow> Inl Syntax_Error))
      | [] \<Rightarrow> Inl Syntax_Error)"

text \<open>
  Adding a member in front of the members read after it: a later duplicate keeps its
  value and takes the position of the first occurrence, as property creation in an
  object literal does.
\<close>

definition obj_add :: "string \<times> json \<Rightarrow> (string \<times> json) list \<Rightarrow> (string \<times> json) list" where
  "obj_add kv kvs =
     (case map_of kvs (fst kv) of
        None \<Rightarrow> kv # kvs
      | Some v' \<Rightarrow> (fst kv, v') # filter (\<lambda>p. fst p \<noteq> fst kv) kvs)"

subsection \<open>Values, elements and members\<close>

fun read_value :: "nat \<Rightarrow> json reader"
and read_elems :: "nat \<Rightarrow> json list reader"
and read_members :: "nat \<Rightarrow> (string \<times> json) list reader" where
  "read_value 0 s = Inl Out_Of_Fuel"
| "read_value (Suc f) s =
     (case skip_ws s of
        [] \<Rightarrow> Inl Syntax_Error
      | c # cs \<Rightarrow>
          if c = CHR ''['' then
            (case skip_ws cs of
               d # r \<Rightarrow> if d = CHR '']'' then Inr (JArr [], r) else map_sum id (apfst JArr) (read_elems f cs)
             | [] \<Rightarrow> Inl Syntax_Error)
          else if c = CHR ''{'' then
            (case skip_ws cs of
               d # r \<Rightarrow> if d = CHR ''}'' then Inr (JObj [], r) else map_sum id (apfst JObj) (read_members f cs)
             | [] \<Rightarrow> Inl Syntax_Error)
          else if c = CHR 0x22 then map_sum id (apfst JStr) (read_chars [] cs)
          else if c = CHR ''n'' then (if take 3 cs = ''ull'' then Inr (JNull, drop 3 cs) else Inl Syntax_Error)
          else if c = CHR ''t'' then (if take 3 cs = ''rue'' then Inr (JBool True, drop 3 cs) else Inl Syntax_Error)
          else if c = CHR ''f'' then (if take 4 cs = ''alse'' then Inr (JBool False, drop 4 cs) else Inl Syntax_Error)
          else if c = CHR ''-'' \<or> is_digit c then map_sum id (apfst JNum) (read_number (c # cs))
          else Inl Syntax_Error)"
| "read_elems 0 s = Inl Out_Of_Fuel"
| "read_elems (Suc f) s =
     (case read_value f s of
        Inl e \<Rightarrow> Inl e
      | Inr (v, r) \<Rightarrow>
          (case skip_ws r of
             d # r' \<Rightarrow>
               if d = CHR '','' then map_sum id (apfst (Cons v)) (read_elems f r')
               else if d = CHR '']'' then Inr ([v], r')
               else Inl Syntax_Error
           | [] \<Rightarrow> Inl Syntax_Error))"
| "read_members 0 s = Inl Out_Of_Fuel"
| "read_members (Suc f) s =
     (case read_key s of
        Inl e \<Rightarrow> Inl e
      | Inr (k, r) \<Rightarrow>
          (case read_value f r of
             Inl e \<Rightarrow> Inl e
           | Inr (v, r') \<Rightarrow>
               (case skip_ws r' of
                  d # r'' \<Rightarrow>
                    if d = CHR '','' then map_sum id (apfst (obj_add (k, v))) (read_members f r'')
                    else if d = CHR ''}'' then Inr ([(k, v)], r'')
                    else Inl Syntax_Error
                | [] \<Rightarrow> Inl Syntax_Error)))"

text \<open>\<open>JSON.parse(text)\<close>: one value, surrounded by nothing but white space.\<close>

definition JSON_parse :: "string \<Rightarrow> parse_error + json" where
  "JSON_parse s =
     (case read_value (Suc (2 * length s)) s of
        Inl e \<Rightarrow> Inl e
      | Inr (v, r) \<Rightarrow> if skip_ws r = [] then Inr v else Inl Syntax_Error)"

text \<open>What may follow a value inside a JSON text: its end, a comma or a closing bracket.\<close>

definition json_delim :: "string \<Rightarrow> bool" where
  "json_delim r \<longleftrightarrow> r = [] \<or> hd r \<in> {CHR '','', CHR '']'', CHR ''}''}"

text \<open>
  Objects whose member names are distinct, at every depth: the JSON values that are a
  JavaScript object's own properties in order.
\<close>

fun json_wf :: "json \<Rightarrow> bool" where
  "json_wf (JArr vs) = list_all json_wf vs"
| "json_wf (JObj kvs) = (distinct (map fst kvs) \<and> list_all (\<lambda>kv. json_wf (snd kv)) kvs)"
| "json_wf _ = True"

text \<open>Fuel that the reader needs for a value: one per node, one per element or member.\<close>

fun json_size :: "json \<Rightarrow> nat" where
  "json_size (JArr vs) = Suc (Suc (sum_list (map (\<lambda>v. Suc (json_size v)) vs)))"
| "json_size (JObj kvs) = Suc (Suc (sum_list (map (\<lambda>kv. Suc (json_size (snd kv))) kvs)))"
| "json_size _ = 1"

subsection \<open>Every reader consumes input\<close>

lemma map_sum_apfst_Inr [simp]:
  "map_sum id (apfst g) x = Inr (v, r) \<longleftrightarrow> (\<exists>a. x = Inr (a, r) \<and> v = g a)"
  by (cases x) auto

lemma map_sum_apfst_Inl [simp]:
  "map_sum id (apfst g) x = Inl e \<longleftrightarrow> x = Inl e"
  by (cases x) auto

lemma skip_ws_length: "length (skip_ws s) \<le> length s"
  by (simp add: skip_ws_def length_dropWhile_le)

lemma skip_ws_Cons [simp]: "\<not> json_ws c \<Longrightarrow> skip_ws (c # r) = c # r"
  by (simp add: skip_ws_def)

lemma skip_ws_Nil [simp]: "skip_ws [] = []"
  by (simp add: skip_ws_def)

lemma skip_ws_append: "skip_ws s = c # r \<Longrightarrow> length r < length s"
  using skip_ws_length [of s] by simp

lemma read_escape_consumes: "read_escape s = Inr (d, r) \<Longrightarrow> length r < length s"
  by (auto simp: read_escape_def Let_def split: list.splits option.splits if_splits)

lemma read_chars_consumes: "read_chars acc s = Inr (x, r) \<Longrightarrow> length r < length s"
proof (induction acc s rule: read_chars.induct)
  case (2 acc c cs)
  show ?case
  proof (cases "c \<noteq> CHR 0x22 \<and> c = CHR 0x5C")
    case True
    with "2.prems" obtain d r0 where esc: "read_escape cs = Inr (d, r0)"
      and rec: "read_chars (d # acc) r0 = Inr (x, r)"
      by (auto split: sum.splits)
    have "length r < length r0"
      using "2.IH"(1) [OF _ _ esc refl rec] True by blast
    with read_escape_consumes [OF esc] show ?thesis by simp
  next
    case False
    with "2.prems" "2.IH"(2) show ?thesis
      by (auto split: if_splits)
  qed
qed simp

lemma read_nat_consumes: "read_nat s = Inr (n, r) \<Longrightarrow> length r < length s"
proof -
  assume "read_nat s = Inr (n, r)"
  then have "takeWhile is_digit s \<noteq> []" and "r = dropWhile is_digit s"
    by (auto simp: read_nat_def Let_def split: if_splits)
  then show ?thesis
  proof -
    have "length r = length s - length (takeWhile is_digit s)"
      using \<open>r = dropWhile is_digit s\<close> by (simp add: dropWhile_eq_drop)
    moreover have "0 < length (takeWhile is_digit s)"
      using \<open>takeWhile is_digit s \<noteq> []\<close> by simp
    moreover have "length (takeWhile is_digit s) \<le> length s"
      by (rule length_takeWhile_le)
    ultimately show ?thesis by arith
  qed
qed

lemma read_number_consumes: "read_number s = Inr (i, r) \<Longrightarrow> length r < length s"
  by (fastforce simp: read_number_def split: list.splits if_splits sum.splits prod.splits
        dest: read_nat_consumes)

lemma read_key_consumes: "read_key s = Inr (k, r) \<Longrightarrow> length r < length s"
  by (fastforce simp: read_key_def split: list.splits if_splits sum.splits prod.splits
        dest!: read_chars_consumes skip_ws_append)

lemma read_value_consumes_Suc:
  assumes ok: "read_value (Suc f) s = Inr (v, r)"
    and el: "\<And>s vs r. read_elems f s = Inr (vs, r) \<Longrightarrow> length r < length s"
    and mem: "\<And>s kvs r. read_members f s = Inr (kvs, r) \<Longrightarrow> length r < length s"
  shows "length r < length s"
proof -
  obtain c cs where sk: "skip_ws s = c # cs"
    using ok by (auto split: list.splits)
  have "length r < length (c # cs)"
    using ok sk
    apply (simp split: if_splits list.splits)
    apply (auto dest!: el mem skip_ws_append read_chars_consumes)[8]
    apply (metis read_number_consumes length_Cons)
    done
  with skip_ws_length [of s] sk show ?thesis by simp
qed

lemma read_elems_consumes_Suc:
  assumes ok: "read_elems (Suc f) s = Inr (vs, r)"
    and val: "\<And>s v r. read_value f s = Inr (v, r) \<Longrightarrow> length r < length s"
    and el: "\<And>s vs r. read_elems f s = Inr (vs, r) \<Longrightarrow> length r < length s"
  shows "length r < length s"
  using ok
  apply (simp split: sum.splits prod.splits list.splits if_splits)
  apply (fastforce dest!: val el skip_ws_append)+
  done

lemma read_members_consumes_Suc:
  assumes ok: "read_members (Suc f) s = Inr (kvs, r)"
    and val: "\<And>s v r. read_value f s = Inr (v, r) \<Longrightarrow> length r < length s"
    and mem: "\<And>s kvs r. read_members f s = Inr (kvs, r) \<Longrightarrow> length r < length s"
  shows "length r < length s"
  using ok
  apply (simp split: sum.splits prod.splits list.splits if_splits)
  apply (fastforce dest!: val mem skip_ws_append read_key_consumes)+
  done

lemma read_consumes:
  "read_value f s = Inr (v, r) \<Longrightarrow> length r < length s"
  "read_elems f s = Inr (vs, r) \<Longrightarrow> length r < length s"
  "read_members f s = Inr (kvs, r) \<Longrightarrow> length r < length s"
proof (induction f arbitrary: s v r vs kvs)
  case 0
  { case 1 then show ?case by simp }
  { case 2 then show ?case by simp }
  { case 3 then show ?case by simp }
next
  case (Suc f)
  { case 1 then show ?case by (rule read_value_consumes_Suc) (use Suc.IH in blast)+ }
  { case 2 then show ?case by (rule read_elems_consumes_Suc) (use Suc.IH in blast)+ }
  { case 3 then show ?case by (rule read_members_consumes_Suc) (use Suc.IH in blast)+ }
qed
subsection \<open>The fuel is enough\<close>

lemma read_escape_fuel: "read_escape s \<noteq> Inl Out_Of_Fuel"
  by (auto simp: read_escape_def Let_def split: list.splits option.splits)
lemma read_chars_fuel: "read_chars acc s \<noteq> Inl Out_Of_Fuel"
  by (induction acc s rule: read_chars.induct) (auto simp: read_escape_fuel split: sum.splits)
lemma read_number_fuel: "read_number s \<noteq> Inl Out_Of_Fuel"
  by (auto simp: read_number_def read_nat_def Let_def split: list.splits sum.splits prod.splits)

lemma read_key_fuel: "read_key s \<noteq> Inl Out_Of_Fuel"
  by (auto simp: read_key_def read_chars_fuel split: list.splits sum.splits prod.splits)

lemma read_value_fuel_Suc:
  assumes fuel: "2 * length s < Suc f"
    and el: "\<And>s. 2 * length s + 1 < f \<Longrightarrow> read_elems f s \<noteq> Inl Out_Of_Fuel"
    and mem: "\<And>s. 2 * length s + 1 < f \<Longrightarrow> read_members f s \<noteq> Inl Out_Of_Fuel"
  shows "read_value (Suc f) s \<noteq> Inl Out_Of_Fuel"
proof (cases "skip_ws s")
  case (Cons c cs)
  have "2 * length cs + 1 < f"
    using fuel skip_ws_append [OF Cons] by simp
  with Cons show ?thesis
    by (simp add: el mem read_chars_fuel read_number_fuel split: list.splits)
qed simp

lemma read_elems_fuel_Suc:
  assumes fuel: "2 * length s + 1 < Suc f"
    and val: "\<And>s. 2 * length s < f \<Longrightarrow> read_value f s \<noteq> Inl Out_Of_Fuel"
    and el: "\<And>s. 2 * length s + 1 < f \<Longrightarrow> read_elems f s \<noteq> Inl Out_Of_Fuel"
  shows "read_elems (Suc f) s \<noteq> Inl Out_Of_Fuel"
proof (cases "read_value f s")
  case (Inl e)
  with val fuel show ?thesis by auto
next
  case (Inr vr)
  obtain v r where vr: "vr = (v, r)" by fastforce
  have "length r < length s"
    using Inr vr read_consumes(1) by blast
  then have "2 * length r' + 1 < f" if "skip_ws r = d # r'" for d r'
    using fuel skip_ws_append [OF that] by simp
  with Inr vr el show ?thesis
    by (auto split: list.splits)
qed

lemma read_members_fuel_Suc:
  assumes fuel: "2 * length s + 1 < Suc f"
    and val: "\<And>s. 2 * length s < f \<Longrightarrow> read_value f s \<noteq> Inl Out_Of_Fuel"
    and mem: "\<And>s. 2 * length s + 1 < f \<Longrightarrow> read_members f s \<noteq> Inl Out_Of_Fuel"
  shows "read_members (Suc f) s \<noteq> Inl Out_Of_Fuel"
proof (cases "read_key s")
  case (Inl e)
  with read_key_fuel show ?thesis by auto
next
  case (Inr kr)
  note key = Inr
  obtain k r where kr: "kr = (k, r)" by fastforce
  have r: "length r < length s"
    using Inr kr read_key_consumes by blast
  show ?thesis
  proof (cases "read_value f r")
    case (Inl e)
    with val fuel r key kr show ?thesis by auto
  next
    case (Inr vr)
    obtain v r1 where vr: "vr = (v, r1)" by fastforce
    have "length r1 < length r"
      using Inr vr read_consumes(1) by blast
    with r have "2 * length r' + 1 < f" if "skip_ws r1 = d # r'" for d r'
      using fuel skip_ws_append [OF that] by simp
    with key kr Inr vr mem show ?thesis
      by (auto split: list.splits)
  qed
qed

lemma read_fuel:
  "2 * length s < f \<Longrightarrow> read_value f s \<noteq> Inl Out_Of_Fuel"
  "2 * length s + 1 < f \<Longrightarrow> read_elems f s \<noteq> Inl Out_Of_Fuel"
  "2 * length s + 1 < f \<Longrightarrow> read_members f s \<noteq> Inl Out_Of_Fuel"
proof (induction f arbitrary: s)
  case 0
  { case 1 then show ?case by simp }
  { case 2 then show ?case by simp }
  { case 3 then show ?case by simp }
next
  case (Suc f)
  { case 1 then show ?case by (rule read_value_fuel_Suc) (use Suc.IH in blast)+ }
  { case 2 then show ?case by (rule read_elems_fuel_Suc) (use Suc.IH in blast)+ }
  { case 3 then show ?case by (rule read_members_fuel_Suc) (use Suc.IH in blast)+ }
qed

lemma JSON_parse_fuel_enough: "JSON_parse s \<noteq> Inl Out_Of_Fuel"
  using read_fuel(1) [of s "Suc (2 * length s)"]
  by (auto simp: JSON_parse_def split: sum.splits prod.splits)
subsection \<open>Reading back what JSON.stringify writes\<close>

lemma hex_lower_val:
  "m < 16 \<Longrightarrow> is_hex (char_of (if m < 10 then 48 + m else 87 + m)) \<and>
              hex_val (char_of (if m < 10 then 48 + m else 87 + m)) = m"
  by (auto simp: is_hex_def hex_val_def Let_def of_char_of)

lemma read_escape_u:
  assumes "n < 32"
  shows "read_escape (CHR ''u'' # hex4 n @ r) = Inr (char_of n, r)"
proof -
  have d: "n div 16 < 16" "n mod 16 < 16" using assms by simp_all
  have "is_hex (CHR ''0'')" "hex_val (CHR ''0'') = 0" by (simp_all add: is_hex_def hex_val_def)
  with hex_lower_val [OF d(1)] hex_lower_val [OF d(2)] assms show ?thesis
    by (simp add: read_escape_def json_unescape_def hex4_def)
qed

lemma of_char_inj: "(of_char c :: nat) = of_char d \<Longrightarrow> c = d"
  by (metis char_of_char)

lemma read_chars_escape_char:
  "read_chars acc (json_escape_char c @ r) = read_chars (c # acc) r"
proof -
  consider "c \<in> {CHR 0x08, CHR 0x09, CHR 0x0A, CHR 0x0C, CHR 0x0D, CHR 0x22, CHR 0x5C}"
    | "c \<notin> {CHR 0x08, CHR 0x09, CHR 0x0A, CHR 0x0C, CHR 0x0D, CHR 0x22, CHR 0x5C}"
      "of_char c < (32::nat)"
    | "c \<notin> {CHR 0x22, CHR 0x5C}" "\<not> of_char c < (32::nat)"
    by blast
  then show ?thesis
  proof cases
    case 1
    then show ?thesis
      by (auto simp: json_escape_char_def read_escape_def json_unescape_def)
  next
    case 2
    then have "of_char c \<notin> {8, 9, 10, 12, 13, 34, 92::nat}"
      using of_char_inj [of c "CHR 0x08"] of_char_inj [of c "CHR 0x09"] of_char_inj [of c "CHR 0x0A"]
        of_char_inj [of c "CHR 0x0C"] of_char_inj [of c "CHR 0x0D"] of_char_inj [of c "CHR 0x22"]
        of_char_inj [of c "CHR 0x5C"]
      by auto
    with 2 have "json_escape_char c = CHR 0x5C # CHR ''u'' # hex4 (of_char c)"
      by (simp add: json_escape_char_def)
    with 2 show ?thesis
      by (simp add: read_escape_u)
  next
    case 3
    then have "of_char c \<notin> {34, 92::nat}"
      using of_char_inj [of c "CHR 0x22"] of_char_inj [of c "CHR 0x5C"] by auto
    with 3 have "json_escape_char c = [c]"
      by (simp add: json_escape_char_def)
    with 3 show ?thesis by simp
  qed
qed

lemma read_chars_quoted:
  "read_chars acc (concat (map json_escape_char s) @ CHR 0x22 # r) = Inr (rev acc @ s, r)"
  by (induction s arbitrary: acc) (simp_all add: read_chars_escape_char)

lemma digit_char:
  "(d::nat) < 10 \<Longrightarrow> is_digit (char_of (48 + d)) \<and> (of_char (char_of (48 + d)) :: nat) - 48 = d"
  by (simp add: is_digit_def of_char_of)

lemma nat_to_string_step:
  "nat_to_string n = (if n < 10 then [char_of (48 + n)] else nat_to_string (n div 10) @ [char_of (48 + n mod 10)])"
  by (rule nat_to_string.simps)

lemma nat_to_string_digits: "\<forall>c \<in> set (nat_to_string n). is_digit c"
  by (induction n rule: nat_to_string.induct) (subst nat_to_string_step, simp add: digit_char)

lemma digits_value_append: "digits_value acc (xs @ ys) = digits_value (digits_value acc xs) ys"
  by (induction acc xs rule: digits_value.induct) simp_all

lemma digits_value_nat_to_string: "digits_value 0 (nat_to_string n) = n"
proof (induction n rule: nat_to_string.induct)
  case (1 n)
  then show ?case
    by (subst nat_to_string_step) (simp add: digits_value_append digit_char)
qed

lemma nat_to_string_Cons: "\<exists>c cs. nat_to_string n = c # cs"
proof -
  have "nat_to_string n \<noteq> []" by (subst nat_to_string_step) simp
  then show ?thesis by (simp add: neq_Nil_conv)
qed

lemma nat_to_string_leading:
  "nat_to_string n = c # cs \<Longrightarrow> cs \<noteq> [] \<Longrightarrow> c \<noteq> CHR ''0''"
proof (induction n arbitrary: c cs rule: nat_to_string.induct)
  case (1 n)
  show ?case
  proof (cases "n < 10")
    case True
    with "1.prems" show ?thesis by (subst (asm) nat_to_string_step) simp
  next
    case False
    obtain c' cs' where ns: "nat_to_string (n div 10) = c' # cs'"
      using nat_to_string_Cons by blast
    with False "1.prems"(1) have c: "c = c'"
      by (subst (asm) nat_to_string_step) simp
    show ?thesis
    proof (cases "cs' = []")
      case True
      with ns have "nat_to_string (n div 10) = [c']" by simp
      then have c': "c' = char_of (48 + n div 10)" "n div 10 < 10"
        by (subst (asm) nat_to_string_step, simp split: if_splits)+
      have "c' \<noteq> CHR ''0''"
      proof
        assume "c' = CHR ''0''"
        then have "(of_char (char_of (48 + n div 10)) :: nat) = of_char (CHR ''0'')"
          using c' by simp
        with c'(2) False show False by (simp add: of_char_of)
      qed
      with c show ?thesis by simp
    next
      case False
      with "1.IH" \<open>\<not> n < 10\<close> ns c show ?thesis by blast
    qed
  qed
qed

lemma json_delim_num_end:
  "json_delim r \<Longrightarrow> r = [] \<or> (\<not> is_digit (hd r) \<and> hd r \<notin> {CHR ''.'', CHR ''e'', CHR ''E''})"
  by (auto simp: json_delim_def is_digit_def)

lemma read_nat_nat_to_string:
  assumes "json_delim r"
  shows "read_nat (nat_to_string n @ r) = Inr (n, r)"
proof -
  obtain c cs where ns: "nat_to_string n = c # cs"
    using nat_to_string_Cons by blast
  have tw: "takeWhile is_digit (nat_to_string n @ r) = nat_to_string n"
    and dw: "dropWhile is_digit (nat_to_string n @ r) = r"
    using nat_to_string_digits [of n] json_delim_num_end [OF assms]
    by (cases r; simp)+
  have "nat_to_string n \<noteq> []" "\<not> (hd (nat_to_string n) = CHR ''0'' \<and> tl (nat_to_string n) \<noteq> [])"
    using nat_to_string_leading [OF ns] ns by auto
  then show ?thesis
    by (simp add: read_nat_def Let_def tw dw digits_value_nat_to_string)
qed

lemma read_number_int_to_string:
  assumes "json_delim r"
  shows "read_number (int_to_string i @ r) = Inr (i, r)"
proof -
  obtain c cs where ns: "nat_to_string (nat \<bar>i\<bar>) = c # cs"
    using nat_to_string_Cons by blast
  have "c \<noteq> CHR ''-''"
    using nat_to_string_digits [of "nat \<bar>i\<bar>"] ns by (auto simp: is_digit_def)
  with assms ns show ?thesis
    using read_nat_nat_to_string [OF assms, of "nat \<bar>i\<bar>"] json_delim_num_end [OF assms]
    by (auto simp: read_number_def int_to_string_def)
qed

lemma read_key_quoted: "read_key (quote_json k @ CHR '':'' # r) = Inr (k, r)"
  by (simp add: read_key_def quote_json_def json_ws_def read_chars_quoted)

lemma int_to_string_hd: "\<exists>c cs. int_to_string i = c # cs \<and> (c = CHR ''-'' \<or> is_digit c)"
  using nat_to_string_Cons [of "nat (- i)"] nat_to_string_Cons [of "nat i"]
    nat_to_string_digits [of "nat i"]
  by (auto simp: int_to_string_def)

lemma json_stringify_hd:
  "\<exists>c cs. json_stringify v = c # cs \<and> \<not> json_ws c \<and> c \<noteq> CHR '']'' \<and> c \<noteq> CHR ''}''"
proof (cases v)
  case (JNum i)
  with int_to_string_hd [of i] show ?thesis
    by (auto simp: json_ws_def is_digit_def)
qed (auto simp: json_ws_def quote_json_def)

lemma read_elems_stringified:
  assumes val: "\<And>v f r. v \<in> set vs \<Longrightarrow> json_wf v \<Longrightarrow> json_size v < f \<Longrightarrow> json_delim r \<Longrightarrow>
                  read_value f (json_stringify v @ r) = Inr (v, r)"
    and "vs \<noteq> []" "list_all json_wf vs" "sum_list (map (\<lambda>v. Suc (json_size v)) vs) < f"
  shows "read_elems f (join_with CHR '','' (map json_stringify vs) @ CHR '']'' # r) = Inr (vs, r)"
  using assms
proof (induction vs arbitrary: f rule: induct_list012)
  case (2 v)
  then obtain f' where f: "f = Suc f'" "json_size v < f'"
    by (cases f) auto
  with "2.prems"(1) [of v f' "CHR '']'' # r"] "2.prems"(3) show ?case
    by (simp add: json_delim_def json_ws_def)
next
  case (3 v w ws)
  then obtain f' where f: "f = Suc f'" "json_size v < f'"
      "sum_list (map (\<lambda>v. Suc (json_size v)) (w # ws)) < f'"
    by (cases f) auto
  have hd: "read_value f' (json_stringify v @ CHR '','' # join_with CHR '','' (map json_stringify (w # ws)) @
              CHR '']'' # r) = Inr (v, CHR '','' # join_with CHR '','' (map json_stringify (w # ws)) @ CHR '']'' # r)"
    using "3.prems"(1) [of v f'] "3.prems"(3) f by (simp add: json_delim_def)
  have tl: "read_elems f' (join_with CHR '','' (map json_stringify (w # ws)) @ CHR '']'' # r) = Inr (w # ws, r)"
    using "3.IH"(2) [of f'] "3.prems" f by simp
  show ?case
    using hd tl f by (simp add: json_ws_def)
qed simp

lemma obj_add_fresh: "k \<notin> set (map fst kvs) \<Longrightarrow> obj_add (k, v) kvs = (k, v) # kvs"
proof -
  assume "k \<notin> set (map fst kvs)"
  then have "map_of kvs k = None" by (simp add: map_of_eq_None_iff)
  then show ?thesis by (simp add: obj_add_def)
qed

lemma number_start:
  "c = CHR ''-'' \<or> is_digit c \<Longrightarrow>
     \<not> json_ws c \<and> c \<noteq> CHR ''['' \<and> c \<noteq> CHR ''{'' \<and> c \<noteq> CHR 0x22 \<and> c \<noteq> CHR ''n'' \<and>
     c \<noteq> CHR ''t'' \<and> c \<noteq> CHR ''f''"
  by (auto simp: json_ws_def is_digit_def)

lemma read_members_stringified:
  assumes val: "\<And>kv f r. kv \<in> set kvs \<Longrightarrow> json_wf (snd kv) \<Longrightarrow> json_size (snd kv) < f \<Longrightarrow>
                  json_delim r \<Longrightarrow> read_value f (json_stringify (snd kv) @ r) = Inr (snd kv, r)"
    and "kvs \<noteq> []" "distinct (map fst kvs)" "list_all (\<lambda>kv. json_wf (snd kv)) kvs"
      "sum_list (map (\<lambda>kv. Suc (json_size (snd kv))) kvs) < f"
  shows "read_members f (join_with CHR '',''
           (map (\<lambda>kv. quote_json (fst kv) @ CHR '':'' # json_stringify (snd kv)) kvs) @ CHR ''}'' # r)
         = Inr (kvs, r)"
  using assms
proof (induction kvs arbitrary: f rule: induct_list012)
  case (2 kv)
  obtain k v where kv: "kv = (k, v)" by fastforce
  from 2 kv obtain f' where f: "f = Suc f'" "json_size v < f'"
    by (cases f) auto
  with "2.prems"(1) [of kv f' "CHR ''}'' # r"] "2.prems"(4) kv show ?case
    by (simp add: json_delim_def json_ws_def read_key_quoted)
next
  case (3 kv kw kws)
  obtain k v where kv: "kv = (k, v)" by fastforce
  from 3 kv obtain f' where f: "f = Suc f'" "json_size v < f'"
      "sum_list (map (\<lambda>kv. Suc (json_size (snd kv))) (kw # kws)) < f'"
    by (cases f) auto
  let ?rest = "join_with CHR '','' (map (\<lambda>kv. quote_json (fst kv) @ CHR '':'' # json_stringify (snd kv))
                 (kw # kws)) @ CHR ''}'' # r"
  have hd: "read_value f' (json_stringify v @ CHR '','' # ?rest) = Inr (v, CHR '','' # ?rest)"
    using "3.prems"(1) [of kv f'] "3.prems"(4) f kv by (simp add: json_delim_def)
  have tl: "read_members f' ?rest = Inr (kw # kws, r)"
    using "3.IH"(2) [of f'] "3.prems" f by simp
  have "k \<notin> set (map fst (kw # kws))"
    using "3.prems"(3) kv by simp
  then show ?case
    using hd tl f kv by (simp add: json_ws_def read_key_quoted obj_add_fresh)
qed simp

lemma read_value_stringified:
  "json_wf v \<Longrightarrow> json_size v < f \<Longrightarrow> json_delim r \<Longrightarrow> read_value f (json_stringify v @ r) = Inr (v, r)"
proof (induction v arbitrary: f r rule: json_stringify.induct)
  case 1
  then show ?case by (cases f) (simp_all add: json_ws_def)
next
  case (2 b)
  then show ?case by (cases f) (simp_all add: json_ws_def)
next
  case (3 n)
  obtain c cs where c: "int_to_string n = c # cs" "c = CHR ''-'' \<or> is_digit c"
    using int_to_string_hd [of n] by blast
  with "3.prems" number_start [OF c(2)] read_number_int_to_string [OF "3.prems"(3), of n]
  show ?case
    by (cases f) simp_all
next
  case (4 s)
  then show ?case
    by (cases f) (simp_all add: json_ws_def quote_json_def read_chars_quoted)
next
  case (5 vs)
  then obtain f' where f: "f = Suc f'" "sum_list (map (\<lambda>v. Suc (json_size v)) vs) < f'"
    by (cases f) auto
  show ?case
  proof (cases vs)
    case Nil
    with f show ?thesis by (simp add: json_ws_def)
  next
    case (Cons w ws)
    obtain c cs where c: "json_stringify w = c # cs" "\<not> json_ws c" "c \<noteq> CHR '']''"
      using json_stringify_hd [of w] by blast
    have "read_elems f' (join_with CHR '','' (map json_stringify vs) @ CHR '']'' # r) = Inr (vs, r)"
      using "5.IH" "5.prems"(1) f Cons by (intro read_elems_stringified) (auto simp: list_all_iff)
    with Cons c f show ?thesis
      by (cases ws) (simp_all add: json_ws_def)
  qed
next
  case (6 kvs)
  then obtain f' where f: "f = Suc f'" "sum_list (map (\<lambda>kv. Suc (json_size (snd kv))) kvs) < f'"
    by (cases f) auto
  show ?case
  proof (cases kvs)
    case Nil
    with f show ?thesis by (simp add: json_ws_def)
  next
    case (Cons kv kws)
    have "read_members f' (join_with CHR '',''
           (map (\<lambda>kv. quote_json (fst kv) @ CHR '':'' # json_stringify (snd kv)) kvs) @ CHR ''}'' # r)
         = Inr (kvs, r)"
      using "6.IH" "6.prems"(1) f Cons by (intro read_members_stringified) (auto simp: list_all_iff)
    with Cons f show ?thesis
      by (cases kws) (simp_all add: json_ws_def quote_json_def)
  qed
qed

lemma length_join_with:
  "xs \<noteq> [] \<Longrightarrow> length (join_with d xs) = sum_list (map length xs) + length xs - 1"
  by (induction d xs rule: join_with.induct) auto

lemma stringify_nonempty: "0 < length (json_stringify v)"
  using json_stringify_hd [of v] by auto

lemma sum_list_bound:
  "(\<And>x. x \<in> set xs \<Longrightarrow> g x \<le> 2 * h x) \<Longrightarrow>
     sum_list (map (\<lambda>x. Suc (g x)) xs) \<le> length xs + 2 * sum_list (map h xs)"
  by (induction xs) fastforce+

lemma json_size_le: "json_size v \<le> 2 * length (json_stringify v)"
proof (induction v rule: json_stringify.induct)
  case (5 vs)
  have "sum_list (map (\<lambda>v. Suc (json_size v)) vs) \<le> length vs + 2 * sum_list (map (\<lambda>v. length (json_stringify v)) vs)"
    using "5.IH" by (rule sum_list_bound)
  then show ?case
    by (cases "vs = []") (auto simp: length_join_with comp_def)
next
  case (6 kvs)
  have "sum_list (map (\<lambda>kv. Suc (json_size (snd kv))) kvs) \<le>
          length kvs + 2 * sum_list (map (\<lambda>kv. length (json_stringify (snd kv))) kvs)"
    using "6.IH" by (rule sum_list_bound)
  moreover have "sum_list (map (\<lambda>kv. length (json_stringify (snd kv))) kvs) \<le>
          sum_list (map (\<lambda>kv. length (quote_json (fst kv) @ CHR '':'' # json_stringify (snd kv))) kvs)"
    by (rule sum_list_mono) simp
  ultimately show ?case
    by (cases "kvs = []") (auto simp: length_join_with comp_def)
next
  case (3 n)
  show ?case using stringify_nonempty [of "JNum n"] by (simp add: Suc_leI)
qed (simp_all add: quote_json_def)

lemma JSON_parse_stringify: "json_wf v \<Longrightarrow> JSON_parse (json_stringify v) = Inr v"
  using read_value_stringified [of v "Suc (2 * length (json_stringify v))" "[]"] json_size_le [of v]
  by (simp add: JSON_parse_def json_delim_def)

subsection \<open>Objects read by JSON.parse have distinct member names\<close>

lemma obj_add_wf:
  assumes "distinct (map fst kvs)" "list_all (\<lambda>kv. json_wf (snd kv)) kvs" "json_wf v"
  shows "distinct (map fst (obj_add (k, v) kvs)) \<and> list_all (\<lambda>kv. json_wf (snd kv)) (obj_add (k, v) kvs)"
proof (cases "map_of kvs k")
  case None
  then have "k \<notin> set (map fst kvs)" by (simp add: map_of_eq_None_iff)
  with None assms show ?thesis by (simp add: obj_add_def)
next
  case (Some v')
  then have "(k, v') \<in> set kvs" by (rule map_of_SomeD)
  with assms(2) have "json_wf v'" by (auto simp: list_all_iff)
  moreover have "distinct (map fst (filter (\<lambda>p. fst p \<noteq> k) kvs))"
    using assms(1) by (simp add: distinct_map_filter)
  ultimately show ?thesis
    using Some assms(2) by (auto simp: obj_add_def list_all_iff)
qed

lemma read_value_wf_Suc:
  assumes ok: "read_value (Suc f) s = Inr (v, r)"
    and el: "\<And>s vs r. read_elems f s = Inr (vs, r) \<Longrightarrow> list_all json_wf vs"
    and mem: "\<And>s kvs r. read_members f s = Inr (kvs, r) \<Longrightarrow>
                distinct (map fst kvs) \<and> list_all (\<lambda>kv. json_wf (snd kv)) kvs"
  shows "json_wf v"
proof (cases v)
  case (JArr vs)
  have "vs = [] \<or> (\<exists>cs. read_elems f cs = Inr (vs, r))"
    using ok JArr by (simp split: if_splits list.splits) blast
  with el show ?thesis using JArr by auto
next
  case (JObj kvs)
  have "kvs = [] \<or> (\<exists>cs. read_members f cs = Inr (kvs, r))"
    using ok JObj by (simp split: if_splits list.splits) blast
  with mem show ?thesis using JObj by auto
qed simp_all

lemma read_elems_wf_Suc:
  assumes ok: "read_elems (Suc f) s = Inr (vs, r)"
    and val: "\<And>s v r. read_value f s = Inr (v, r) \<Longrightarrow> json_wf v"
    and el: "\<And>s vs r. read_elems f s = Inr (vs, r) \<Longrightarrow> list_all json_wf vs"
  shows "list_all json_wf vs"
  using ok
  apply (simp split: sum.splits prod.splits list.splits if_splits)
  apply (auto dest!: val el)
  done

lemma read_members_wf_Suc:
  assumes ok: "read_members (Suc f) s = Inr (kvs, r)"
    and val: "\<And>s v r. read_value f s = Inr (v, r) \<Longrightarrow> json_wf v"
    and mem: "\<And>s kvs r. read_members f s = Inr (kvs, r) \<Longrightarrow>
                distinct (map fst kvs) \<and> list_all (\<lambda>kv. json_wf (snd kv)) kvs"
  shows "distinct (map fst kvs) \<and> list_all (\<lambda>kv. json_wf (snd kv)) kvs"
  using ok
  apply (simp split: sum.splits prod.splits list.splits if_splits)
  apply (auto dest!: val mem simp: obj_add_wf)
  done

lemma read_wf:
  "read_value f s = Inr (v, r) \<Longrightarrow> json_wf v"
  "read_elems f s = Inr (vs, r) \<Longrightarrow> list_all json_wf vs"
  "read_members f s = Inr (kvs, r) \<Longrightarrow> distinct (map fst kvs) \<and> list_all (\<lambda>kv. json_wf (snd kv)) kvs"
proof (induction f arbitrary: s v r vs kvs)
  case 0
  { case 1 then show ?case by simp }
  { case 2 then show ?case by simp }
  { case 3 then show ?case by simp }
next
  case (Suc f)
  { case 1 then show ?case by (rule read_value_wf_Suc) (use Suc.IH in blast)+ }
  { case 2 then show ?case by (rule read_elems_wf_Suc) (use Suc.IH in blast)+ }
  { case 3 then show ?case by (rule read_members_wf_Suc) (use Suc.IH in blast)+ }
qed

lemma JSON_parse_wf: "JSON_parse s = Inr v \<Longrightarrow> json_wf v"
proof -
  assume "JSON_parse s = Inr v"
  then obtain r where "read_value (Suc (2 * length s)) s = Inr (v, r)"
    by (auto simp del: read_value.simps simp: JSON_parse_def split: sum.splits prod.splits if_splits)
  then show ?thesis by (rule read_wf(1))
qed

end
