(* ===== verification/Callback_Flow.thy ===== *)
theory Callback_Flow
  imports OAuth_Callback
begin

text \<open>
  The OAuth callback effect with its \<open>await\<close> made visible. \<open>processCallback\<close> in
  \<open>src/app/(auth)/oauth-callback/page.tsx\<close> runs synchronously up to
  \<open>await exchangeOAuthCode(code)\<close> (line 39) and resumes when the backend answers; in
  between, the event loop may fire timers and the user may leave the page. The system
  state holds the mounted page (if any), the query the effect last ran on, the
  exchanges in flight (each marked with whether the page that issued it is still
  mounted) and the browser world; an event is a mount with a query, a change of the
  query of the mounted page (which re-runs the effect), the answer to one exchange in
  flight, the timers firing, or the unmount. A continuation whose page has unmounted still runs: React drops its
  \<open>setStatus\<close>/\<open>setMessage\<close>, but its storage writes, toasts and navigations happen.
\<close>

text \<open>Lines 22--39 and 71--78: everything before the \<open>await\<close>, ending either in an outcome or in the sent exchange request.\<close>

definition callback_start ::
  "string \<Rightarrow> query \<Rightarrow> callback_page \<Rightarrow> world \<Rightarrow> (callback_page \<times> world) + (string \<times> world)" where
  "callback_start ep q p w =
     (let code = search_get q ''code'';
          error = search_get q ''error'';
          statusParam = search_get q ''status''
      in if js_truthy error \<or> statusParam = Some ''error'' then
           Inl (fail_with (js_or (search_get q ''message'') (js_or error ''OAuth authentication failed'')) p w)
         else (case code of
           Some c \<Rightarrow>
             if c = [] then Inl (fail_with missing_code_message p w)
             else Inr (c, service_send (exchange_request ep c) w)
         | None \<Rightarrow> Inl (fail_with missing_code_message p w)))"

text \<open>Lines 39--70 from the moment the exchange answers: the service's own handling, then the page's.\<close>

definition callback_settle ::
  "(api_error \<Rightarrow> string option) \<Rightarrow> api_error + auth_response \<Rightarrow> callback_page \<Rightarrow> world \<Rightarrow> callback_page \<times> world" where
  "callback_settle eh a p w =
     (case service_settle a w of
        (Inl e, w1) \<Rightarrow> fail_with (js_or (eh e) ''Failed to complete authentication'') p w1
      | (Inr r, w1) \<Rightarrow>
          (case (resp_status r = ''success'', resp_data r) of
             (True, Some d) \<Rightarrow>
               (let m = js_or (resp_message r) ''Authentication successful!''
                in (p\<lparr>cb_status := Cb_Success, cb_message := m\<rparr>,
                    set_timeout_push 1500 ''/'' (toast_success m (store_auth_data d w1))))
           | _ \<Rightarrow> fail_with
                    (js_or (eh (Plain_Error (js_or (resp_message r) ''Authentication failed'')))
                       ''Failed to complete authentication'') p w1))"

record cb_sys =
  cb_page :: "callback_page option"
  cb_query :: "query option"
  cb_inflight :: "bool list"
  cb_world :: world

definition cb_sys_init :: "world \<Rightarrow> cb_sys" where
  "cb_sys_init w = \<lparr>cb_page = None, cb_query = None, cb_inflight = [], cb_world = w\<rparr>"

datatype cb_event =
    Cb_Mount query
  | Cb_Query query
  | Cb_Answer nat "api_error + auth_response"
  | Cb_Timers
  | Cb_Unmount

text \<open>
  One event. The effect runs when the page mounts, and again whenever the query of the
  mounted page changes (\<open>searchParams\<close> is a dependency, line 82), on the page state
  as it is and with no cleanup of the earlier run; a re-render with the same query does
  not run it. An answer resumes the \<open>i\<close>-th exchange in flight, on the page if that
  page is still mounted, and for its effects on the world only otherwise; there is no
  answer without an exchange in flight and no unmount without a page.
\<close>

fun cb_step :: "string \<Rightarrow> (api_error \<Rightarrow> string option) \<Rightarrow> cb_sys \<Rightarrow> cb_event \<Rightarrow> cb_sys option" where
  "cb_step ep eh s (Cb_Mount q) =
     (case cb_page s of
        Some _ \<Rightarrow> Some s
      | None \<Rightarrow>
          (case callback_start ep q callback_init (cb_world s) of
             Inl (p, w) \<Rightarrow> Some (s\<lparr>cb_page := Some p, cb_query := Some q, cb_world := w\<rparr>)
           | Inr (c, w) \<Rightarrow>
               Some (s\<lparr>cb_page := Some callback_init, cb_query := Some q,
                       cb_inflight := cb_inflight s @ [True], cb_world := w\<rparr>)))"
| "cb_step ep eh s (Cb_Query q) =
     (case cb_page s of
        None \<Rightarrow> None
      | Some p \<Rightarrow>
          if cb_query s = Some q then Some s
          else (case callback_start ep q p (cb_world s) of
                  Inl (p', w) \<Rightarrow> Some (s\<lparr>cb_page := Some p', cb_query := Some q, cb_world := w\<rparr>)
                | Inr (c, w) \<Rightarrow>
                    Some (s\<lparr>cb_query := Some q, cb_inflight := cb_inflight s @ [True], cb_world := w\<rparr>)))"
| "cb_step ep eh s (Cb_Answer i a) =
     (if length (cb_inflight s) \<le> i then None
      else (let rest = take i (cb_inflight s) @ drop (Suc i) (cb_inflight s) in
            case cb_page s of
              Some p \<Rightarrow>
                if cb_inflight s ! i then
                  (case callback_settle eh a p (cb_world s) of
                     (p', w) \<Rightarrow> Some (s\<lparr>cb_page := Some p', cb_inflight := rest, cb_world := w\<rparr>))
                else Some (s\<lparr>cb_inflight := rest, cb_world := snd (callback_settle eh a callback_init (cb_world s))\<rparr>)
            | None \<Rightarrow>
                Some (s\<lparr>cb_inflight := rest, cb_world := snd (callback_settle eh a callback_init (cb_world s))\<rparr>)))"
| "cb_step ep eh s Cb_Timers = Some (s\<lparr>cb_world := fire_timers (cb_world s)\<rparr>)"
| "cb_step ep eh s Cb_Unmount =
     (case cb_page s of
        None \<Rightarrow> None
      | Some _ \<Rightarrow> Some (s\<lparr>cb_page := None, cb_query := None, cb_inflight := map (\<lambda>_. False) (cb_inflight s)\<rparr>))"

fun cb_run :: "string \<Rightarrow> (api_error \<Rightarrow> string option) \<Rightarrow> cb_event list \<Rightarrow> cb_sys \<Rightarrow> cb_sys option" where
  "cb_run ep eh [] s = Some s"
| "cb_run ep eh (e # es) s = (case cb_step ep eh s e of None \<Rightarrow> None | Some s' \<Rightarrow> cb_run ep eh es s')"

inductive cb_reach :: "string \<Rightarrow> (api_error \<Rightarrow> string option) \<Rightarrow> cb_sys \<Rightarrow> bool" where
  start: "cb_reach ep eh (cb_sys_init w)"
| step: "cb_reach ep eh s \<Longrightarrow> cb_step ep eh s e = Some s' \<Longrightarrow> cb_reach ep eh s'"

text \<open>
  A page state is well formed when it is loading exactly while its message is empty:
  every outcome carries a message.
\<close>

definition callback_wf :: "callback_page \<Rightarrow> bool" where
  "callback_wf p \<longleftrightarrow> (cb_status p = Cb_Loading \<longleftrightarrow> cb_message p = [])"

text \<open>
  The system is well formed when its page is, an exchange in flight belongs to a page
  only while that page is mounted, and the initial loading page always has one of its
  exchanges in flight.
\<close>

definition cb_sys_wf :: "cb_sys \<Rightarrow> bool" where
  "cb_sys_wf s \<longleftrightarrow>
     (case cb_page s of
        None \<Rightarrow> True \<notin> set (cb_inflight s)
      | Some p \<Rightarrow> callback_wf p \<and> (p = callback_init \<longrightarrow> True \<in> set (cb_inflight s)))"


subsection \<open>Every reachable state is well formed\<close>

lemma callback_start_outcome:
  "callback_start ep q p w = Inl (p', w') \<Longrightarrow> cb_status p' = Cb_Error \<and> cb_message p' \<noteq> []"
  by (auto simp: callback_start_def fail_with_def missing_code_message_def Let_def
           split: if_splits option.splits)

lemma callback_settle_outcome:
  "cb_status (fst (callback_settle eh a p w)) \<noteq> Cb_Loading \<and> cb_message (fst (callback_settle eh a p w)) \<noteq> []"
  by (simp add: callback_settle_def service_settle_def fail_with_def Let_def
      split: sum.split prod.split bool.split option.split)

lemma callback_settle_world: "snd (callback_settle eh a p w) = snd (callback_settle eh a p' w)"
  by (simp add: callback_settle_def service_settle_def fail_with_def Let_def
      split: sum.split prod.split bool.split option.split)

lemma callback_wf_outcome:
  "cb_status p \<noteq> Cb_Loading \<Longrightarrow> cb_message p \<noteq> [] \<Longrightarrow> callback_wf p"
  by (simp add: callback_wf_def)

lemma callback_init_fields [simp]: "cb_status callback_init = Cb_Loading" "cb_message callback_init = []"
  by (simp_all add: callback_init_def)

lemma callback_wf_init [simp]: "callback_wf callback_init"
  by (simp add: callback_wf_def callback_init_def)

lemma remove_nth_other:
  assumes "i < length xs" "\<not> xs ! i"
  shows "filter id (take i xs @ drop (Suc i) xs) = filter id xs"
proof -
  have "xs = take i xs @ xs ! i # drop (Suc i) xs"
    using assms(1) by (simp add: id_take_nth_drop)
  then have "filter id xs = filter id (take i xs @ xs ! i # drop (Suc i) xs)"
    by simp
  with assms(2) show ?thesis by simp
qed

lemma remove_nth_set: "set (take i xs @ drop (Suc i) xs) \<subseteq> set xs"
  using set_take_subset set_drop_subset by fastforce

lemma true_in_set_filter: "True \<in> set xs \<longleftrightarrow> filter id xs \<noteq> []"
  by (induction xs) auto

lemma cb_step_answer_wf:
  assumes wf: "cb_sys_wf s" and i: "i < length (cb_inflight s)"
    and s': "cb_step ep eh s (Cb_Answer i a) = Some s'"
  shows "cb_sys_wf s'"
proof (cases "cb_page s")
  case None
  with wf have "True \<notin> set (cb_inflight s)" by (simp add: cb_sys_wf_def)
  with remove_nth_set [of i "cb_inflight s"]
  have "True \<notin> set (take i (cb_inflight s) @ drop (Suc i) (cb_inflight s))" by blast
  with None i s' show ?thesis by (auto simp: cb_sys_wf_def Let_def)
next
  case (Some p)
  show ?thesis
  proof (cases "cb_inflight s ! i")
    case True
    with Some i s' callback_settle_outcome [of eh a p "cb_world s"] show ?thesis
      by (auto simp: cb_sys_wf_def Let_def callback_wf_outcome split: prod.splits)
  next
    case False
    with i have "filter id (take i (cb_inflight s) @ drop (Suc i) (cb_inflight s)) = filter id (cb_inflight s)"
      by (rule remove_nth_other)
    with Some False i s' wf show ?thesis
      by (auto simp: cb_sys_wf_def Let_def true_in_set_filter)
  qed
qed

lemma cb_step_wf:
  assumes "cb_sys_wf s" and "cb_step ep eh s e = Some s'"
  shows "cb_sys_wf s'"
proof (cases e)
  case (Cb_Mount q)
  then show ?thesis
    using assms
    by (auto simp: cb_sys_wf_def callback_wf_outcome dest!: callback_start_outcome
             split: option.splits sum.splits prod.splits)
next
  case (Cb_Query q)
  then show ?thesis
    using assms
    by (auto simp: cb_sys_wf_def callback_wf_outcome dest!: callback_start_outcome
             split: option.splits sum.splits prod.splits if_splits)
next
  case (Cb_Answer i a)
  with assms(2) have "i < length (cb_inflight s)"
    by (simp split: if_splits)
  with assms Cb_Answer show ?thesis
    using cb_step_answer_wf by blast
next
  case Cb_Unmount
  then show ?thesis
    using assms by (auto simp: cb_sys_wf_def split: option.splits)
qed (use assms in \<open>auto simp: cb_sys_wf_def split: option.splits\<close>)

lemma cb_reach_invariant: "cb_reach ep eh s \<Longrightarrow> cb_sys_wf s"
proof (induction rule: cb_reach.induct)
  case (start ep eh w)
  then show ?case by (simp add: cb_sys_wf_def cb_sys_init_def)
next
  case (step ep eh s e s')
  from step.IH step.hyps(2) show ?case by (rule cb_step_wf)
qed

lemma callback_start_sent:
  "callback_start ep q p w = Inr (c, w1) \<Longrightarrow> w1 = service_send (exchange_request ep c) w"
  by (auto simp: callback_start_def Let_def split: if_splits option.splits)

lemma callback_settle_page: "fst (callback_settle eh a p w) = fst (callback_settle eh a p' w')"
  by (simp add: callback_settle_def service_settle_def fail_with_def Let_def
      split: sum.split prod.split bool.split option.split)

text \<open>
  C25: in every reachable state of the callback page, a mounted page shows a message
  exactly when it is no longer loading, no exchange in flight belongs to a page that
  has unmounted, and the initial loading page always has an exchange of its own in
  flight.
\<close>

theorem callback_reachable_wf: "cb_reach ep eh s \<Longrightarrow> cb_sys_wf s"
  by (rule cb_reach_invariant)

theorem callback_reachable_wf_witness:
  "cb_reach ''/oauth/exchange'' apiErrorHandler
     \<lparr>cb_page = Some callback_init, cb_query = Some [(''code'', ''abc'')], cb_inflight = [True],
      cb_world = service_send (exchange_request ''/oauth/exchange'' ''abc'') empty_world\<rparr>
   \<and> cb_sys_wf \<lparr>cb_page = Some callback_init, cb_query = Some [(''code'', ''abc'')], cb_inflight = [True],
      cb_world = service_send (exchange_request ''/oauth/exchange'' ''abc'') empty_world\<rparr>"
proof -
  have r: "cb_reach ''/oauth/exchange'' apiErrorHandler
     \<lparr>cb_page = Some callback_init, cb_query = Some [(''code'', ''abc'')], cb_inflight = [True],
      cb_world = service_send (exchange_request ''/oauth/exchange'' ''abc'') empty_world\<rparr>"
    by (rule cb_reach.step [OF cb_reach.start [of _ _ empty_world], where e = "Cb_Mount [(''code'', ''abc'')]"])
       (simp add: cb_sys_init_def callback_start_def search_get_def)
  show ?thesis using r callback_reachable_wf [OF r] by simp
qed

text \<open>
  C26: leaving the page while the exchange is in flight cancels nothing. The world
  after the answer is the same as if the page had stayed, and only the view is gone.
\<close>

theorem unmount_cancels_nothing:
  assumes "callback_start ep q callback_init w = Inr (c, w1)"
  shows "map_option cb_world (cb_run ep eh [Cb_Mount q, Cb_Unmount, Cb_Answer 0 a] (cb_sys_init w))
         = map_option cb_world (cb_run ep eh [Cb_Mount q, Cb_Answer 0 a] (cb_sys_init w))
       \<and> map_option cb_page (cb_run ep eh [Cb_Mount q, Cb_Unmount, Cb_Answer 0 a] (cb_sys_init w)) = Some None"
  using assms callback_settle_world [of eh a callback_init w1]
  by (simp add: cb_sys_init_def split: prod.split)

theorem unmount_cancels_nothing_witness:
  "callback_start ''/oauth/exchange'' [(''code'', ''abc'')] callback_init empty_world
     = Inr (''abc'', service_send (exchange_request ''/oauth/exchange'' ''abc'') empty_world)
   \<and> map_option cb_world (cb_run ''/oauth/exchange'' apiErrorHandler [Cb_Mount [(''code'', ''abc'')], Cb_Unmount, Cb_Answer 0 (Inl (Network_Error ''timeout''))] (cb_sys_init empty_world))
     = map_option cb_world (cb_run ''/oauth/exchange'' apiErrorHandler [Cb_Mount [(''code'', ''abc'')], Cb_Answer 0 (Inl (Network_Error ''timeout''))] (cb_sys_init empty_world))
   \<and> map_option cb_page (cb_run ''/oauth/exchange'' apiErrorHandler [Cb_Mount [(''code'', ''abc'')], Cb_Unmount, Cb_Answer 0 (Inl (Network_Error ''timeout''))] (cb_sys_init empty_world)) = Some None"
  using unmount_cancels_nothing [of "''/oauth/exchange''" "[(''code'', ''abc'')]" empty_world "''abc''"
      "service_send (exchange_request ''/oauth/exchange'' ''abc'') empty_world" apiErrorHandler "Inl (Network_Error ''timeout'')"]
  by (simp add: callback_start_def search_get_def)

text \<open>
  C27: an exchange that fails after the user has left the page is not silent: it still
  shows the error toast and navigates to \<open>/login?error=...\<close>, although no view is left.
\<close>

theorem orphaned_failure_not_silent:
  assumes "callback_start ep q callback_init w = Inr (c, w1)"
  shows "map_option (\<lambda>s. (cb_page s, toasts (cb_world s), navigations (cb_world s)))
           (cb_run ep eh [Cb_Mount q, Cb_Unmount, Cb_Answer 0 (Inl e)] (cb_sys_init w))
       = Some (None, toasts w @ [Toast_Error (js_or (eh e) ''Failed to complete authentication'')],
               navigations w @ [login_error_url (js_or (eh e) ''Failed to complete authentication'')])"
  using assms callback_start_sent [OF assms]
  by (simp add: cb_sys_init_def callback_settle_def service_settle_def service_send_def fail_with_def
      effect_simps)

theorem orphaned_failure_not_silent_witness:
  "callback_start ''/oauth/exchange'' [(''code'', ''abc'')] callback_init empty_world
     = Inr (''abc'', service_send (exchange_request ''/oauth/exchange'' ''abc'') empty_world)
   \<and> map_option (\<lambda>s. (cb_page s, toasts (cb_world s), navigations (cb_world s)))
       (cb_run ''/oauth/exchange'' apiErrorHandler [Cb_Mount [(''code'', ''abc'')], Cb_Unmount, Cb_Answer 0 (Inl (Network_Error ''timeout''))] (cb_sys_init empty_world))
     = Some (None, [Toast_Error (js_or (apiErrorHandler (Network_Error ''timeout'')) ''Failed to complete authentication'')],
             [login_error_url (js_or (apiErrorHandler (Network_Error ''timeout'')) ''Failed to complete authentication'')])"
  using orphaned_failure_not_silent [of "''/oauth/exchange''" "[(''code'', ''abc'')]" empty_world "''abc''"
      "service_send (exchange_request ''/oauth/exchange'' ''abc'') empty_world" apiErrorHandler "Network_Error ''timeout''"]
  by (simp add: callback_start_def search_get_def empty_world_def)

text \<open>
  C28: the effect is not guarded against a second run. When the query of the mounted
  page changes while its exchange is in flight, the effect runs again on the same page
  and sends a second exchange request; both exchanges are then in flight for one page.
\<close>

theorem query_change_second_exchange:
  assumes "callback_start ep q1 callback_init w = Inr (c1, w1)"
    and "callback_start ep q2 callback_init w1 = Inr (c2, w2)" and "q1 \<noteq> q2"
  shows "cb_run ep eh [Cb_Mount q1, Cb_Query q2] (cb_sys_init w)
           = Some \<lparr>cb_page = Some callback_init, cb_query = Some q2, cb_inflight = [True, True], cb_world = w2\<rparr>
       \<and> requests w2 = requests w @ [exchange_request ep c1, exchange_request ep c2]"
  using assms callback_start_sent [OF assms(1)] callback_start_sent [OF assms(2)]
  by (simp add: cb_sys_init_def service_send_def)

theorem query_change_second_exchange_witness:
  "callback_start ''/x'' [(''code'', ''a'')] callback_init empty_world
     = Inr (''a'', service_send (exchange_request ''/x'' ''a'') empty_world)
   \<and> callback_start ''/x'' [(''code'', ''b'')] callback_init (service_send (exchange_request ''/x'' ''a'') empty_world)
     = Inr (''b'', service_send (exchange_request ''/x'' ''b'') (service_send (exchange_request ''/x'' ''a'') empty_world))
   \<and> [(''code'', ''a'')] \<noteq> [(''code'', ''b'')]
   \<and> requests (service_send (exchange_request ''/x'' ''b'') (service_send (exchange_request ''/x'' ''a'') empty_world))
       = requests empty_world @ [exchange_request ''/x'' ''a'', exchange_request ''/x'' ''b'']"
  using query_change_second_exchange [of "''/x''" "[(''code'', ''a'')]" empty_world "''a''"
      "service_send (exchange_request ''/x'' ''a'') empty_world" "[(''code'', ''b'')]" "''b''"
      "service_send (exchange_request ''/x'' ''b'') (service_send (exchange_request ''/x'' ''a'') empty_world)"
      apiErrorHandler]
  by (simp add: callback_start_def search_get_def)

text \<open>
  C29: with two exchanges in flight, the one that answers last decides what the page
  shows, even when it is the stale first one: if the second exchange succeeds and the
  first then fails, the page ends in the first one's outcome.
\<close>

theorem stale_answer_decides:
  assumes "callback_start ep q1 callback_init w = Inr (c1, w1)"
    and "callback_start ep q2 callback_init w1 = Inr (c2, w2)" and "q1 \<noteq> q2"
  shows "map_option cb_page (cb_run ep eh [Cb_Mount q1, Cb_Query q2, Cb_Answer 1 a2, Cb_Answer 0 a1] (cb_sys_init w))
         = Some (Some (fst (callback_settle eh a1 callback_init w)))"
  using assms
  by (simp add: cb_sys_init_def split: prod.split) (metis callback_settle_page fst_conv)

theorem stale_answer_decides_witness:
  "callback_start ''/x'' [(''code'', ''a'')] callback_init empty_world
     = Inr (''a'', service_send (exchange_request ''/x'' ''a'') empty_world)
   \<and> callback_start ''/x'' [(''code'', ''b'')] callback_init (service_send (exchange_request ''/x'' ''a'') empty_world)
     = Inr (''b'', service_send (exchange_request ''/x'' ''b'') (service_send (exchange_request ''/x'' ''a'') empty_world))
   \<and> [(''code'', ''a'')] \<noteq> [(''code'', ''b'')]
   \<and> map_option cb_page (cb_run ''/x'' apiErrorHandler
        [Cb_Mount [(''code'', ''a'')], Cb_Query [(''code'', ''b'')],
         Cb_Answer 1 (Inr \<lparr>resp_status = ''success'', resp_message = None, resp_data = Some \<lparr>data_tokens = None, data_user = None\<rparr>\<rparr>),
         Cb_Answer 0 (Inl (Network_Error ''timeout''))] (cb_sys_init empty_world))
       = Some (Some (fst (callback_settle apiErrorHandler (Inl (Network_Error ''timeout'')) callback_init empty_world)))"
  using stale_answer_decides [of "''/x''" "[(''code'', ''a'')]" empty_world "''a''"
      "service_send (exchange_request ''/x'' ''a'') empty_world" "[(''code'', ''b'')]" "''b''"
      "service_send (exchange_request ''/x'' ''b'') (service_send (exchange_request ''/x'' ''a'') empty_world)"
      apiErrorHandler "Inr \<lparr>resp_status = ''success'', resp_message = None, resp_data = Some \<lparr>data_tokens = None, data_user = None\<rparr>\<rparr>"
      "Inl (Network_Error ''timeout'')"]
  by (simp add: callback_start_def search_get_def)

end
