(* ===== verification/Request_Url.thy ===== *)
theory Request_Url
  imports Auth_Service Url_Encoding
begin

text \<open>
  The URL axios builds for a request with \<open>params\<close> (\<open>verifyEmailService\<close> sends
  \<open>params: { token }\<close>), modelled from axios's \<open>buildURL\<close>: each name and value is
  encoded with \<open>encodeURIComponent\<close>, after which \<open>%3A %24 %2C %5B %5D\<close> are turned
  back into \<open>: $ , [ ]\<close> and \<open>%20\<close> into \<open>+\<close>; the pairs are joined with \<open>&\<close> and
  appended after a \<open>?\<close>. The encoder is written per byte, which is the same function
  since those escapes arise only from those bytes. The backend reads the query with the
  \<open>application/x-www-form-urlencoded\<close> parser of \<open>Url_Encoding\<close>.
\<close>

fun axios_encode :: "string \<Rightarrow> string" where
  "axios_encode [] = []"
| "axios_encode (c # cs) =
     (if uri_unreserved c \<or> c \<in> {CHR '':'', CHR ''$'', CHR '','', CHR ''['', CHR '']''} then [c]
      else if c = CHR '' '' then [CHR ''+'']
      else pct_encode c) @ axios_encode cs"

definition params_query :: "(string \<times> string) list \<Rightarrow> string" where
  "params_query ps = join_with CHR ''&'' (map (\<lambda>(k, v). axios_encode k @ CHR ''='' # axios_encode v) ps)"

definition request_url :: "request \<Rightarrow> string" where
  "request_url r =
     (if req_params r = [] then req_path r else req_path r @ CHR ''?'' # params_query (req_params r))"

subsection \<open>The backend reads back the parameters\<close>

lemma axios_encode_special:
  "c \<in> {CHR '':'', CHR ''$'', CHR '','', CHR ''['', CHR '']''} \<Longrightarrow>
     c \<noteq> CHR ''%'' \<and> c \<noteq> CHR ''+'' \<and> c \<noteq> CHR ''&'' \<and> c \<noteq> CHR ''=''"
  by auto

lemma form_decode_axios_encode: "form_decode (axios_encode s @ rest) = s @ form_decode rest"
proof (induction s)
  case (Cons c cs)
  then show ?case
    by (auto simp: pct_encode_decode dest: uri_unreserved_not_special)
qed simp

lemma axios_encode_chars:
  "x \<in> set (axios_encode s) \<Longrightarrow> x \<noteq> CHR ''&'' \<and> x \<noteq> CHR ''=''"
proof (induction s)
  case (Cons c cs)
  have "x \<noteq> CHR ''&'' \<and> x \<noteq> CHR ''=''" if "x \<in> set (pct_encode c)"
    using that hex_digit_props(1) [OF of_char_div_16 [of c]] hex_digit_props(1) [of "of_char c mod 16"]
    by (auto simp: pct_encode_def is_hex_def)
  with Cons show ?case
    by (auto split: if_splits dest: uri_unreserved_not_special)
qed simp

lemma split_on_join:
  "xs \<noteq> [] \<Longrightarrow> (\<And>x. x \<in> set xs \<Longrightarrow> d \<notin> set x) \<Longrightarrow> split_on d (join_with d xs) = xs"
proof (induction d xs rule: join_with.induct)
  case (2 d x)
  then show ?case by (simp add: split_on_absent)
next
  case (3 d x y zs)
  have app: "split_on d (a @ d # b) = a # split_on d b" if "d \<notin> set a" for a b
    using that by (induction a) auto
  with 3 show ?case by simp
qed simp

lemma parse_pair_encoded: "parse_pair (axios_encode k @ CHR ''='' # axios_encode v) = (k, v)"
proof -
  have "takeWhile (\<lambda>c. c \<noteq> CHR ''='') (axios_encode k @ CHR ''='' # axios_encode v) = axios_encode k"
    using axios_encode_chars [of _ k] by (simp add: takeWhile_append2)
  then show ?thesis
    using form_decode_axios_encode [of k "[]"] form_decode_axios_encode [of v "[]"]
    by (simp add: parse_pair_def)
qed

lemma parse_query_params: "parse_query (params_query ps) = ps"
proof (cases "ps = []")
  case False
  let ?xs = "map (\<lambda>(k, v). axios_encode k @ CHR ''='' # axios_encode v) ps"
  have "split_on CHR ''&'' (join_with CHR ''&'' ?xs) = ?xs"
    using False axios_encode_chars by (intro split_on_join) fastforce+
  moreover have "filter (\<lambda>s. s \<noteq> []) ?xs = ?xs" by (simp add: filter_id_conv split_def)
  ultimately show ?thesis
    by (simp add: parse_query_def params_query_def comp_def split_def parse_pair_encoded)
qed (simp add: parse_query_def params_query_def)

lemma takeWhile_upto: "d \<notin> set xs \<Longrightarrow> takeWhile (\<lambda>c. c \<noteq> d) (xs @ d # ys) = xs"
  by (induction xs) auto

lemma query_of_request_url:
  "CHR ''?'' \<notin> set (req_path r) \<Longrightarrow> req_params r \<noteq> [] \<Longrightarrow>
     query_of (request_url r) = params_query (req_params r)"
proof -
  assume a: "CHR ''?'' \<notin> set (req_path r)" "req_params r \<noteq> []"
  then have "takeWhile (\<lambda>c. c \<noteq> CHR ''?'') (request_url r) = req_path r"
    by (simp add: request_url_def takeWhile_upto)
  with a show ?thesis by (simp add: query_of_def request_url_def)
qed

text \<open>
  C32: \<open>verifyEmailService(token)\<close> sends one GET request to
  \<open>/api/auth/v1/verify-email\<close> whose URL carries the token so that the backend's query
  parser reads back exactly that token, whatever bytes it contains.
\<close>

theorem verify_email_token_roundtrip:
  "\<exists>r. requests (snd (verifyEmailService tr t w)) = requests w @ [r]
      \<and> req_method r = GET \<and> takeWhile (\<lambda>c. c \<noteq> CHR ''?'') (request_url r) = ''/api/auth/v1/verify-email''
      \<and> parse_query (query_of (request_url r)) = [(''token'', t)]"
proof -
  let ?r = "\<lparr>req_method = GET, req_path = ''/api/auth/v1/verify-email'', req_body = None,
             req_params = [(''token'', t)]\<rparr>"
  have "requests (snd (verifyEmailService tr t w)) = requests w @ [?r]"
    by (cases "tr ?r") (simp_all add: verifyEmailService_def call_service_def console_error_def)
  moreover have "parse_query (query_of (request_url ?r)) = [(''token'', t)]"
    using query_of_request_url [of ?r] parse_query_params [of "[(''token'', t)]"] by simp
  moreover have "takeWhile (\<lambda>c. c \<noteq> CHR ''?'') (request_url ?r) = ''/api/auth/v1/verify-email''"
    by (simp add: request_url_def)
  ultimately show ?thesis by auto
qed

end
