(* ===== verification/App_Session.thy ===== *)
theory App_Session
  imports Login_Form Callback_Flow OAuth_Buttons
begin

text \<open>
  The three components in one browser: the login form, the OAuth buttons and the OAuth
  callback page each keep their own React state, and all of them act on the same
  browser (\<open>localStorage\<close>, toasts, router, timers, the requests sent). A composed
  state holds the three component states and the one shared world; an event belongs to
  exactly one component, which takes a step on the shared world while the others stay
  as they are. The buttons are rendered with no \<open>onProviderClick\<close> and start the
  provider redirect with \<open>initiateOAuth\<close>, as the spec describes the OAuth flow.
  Besides the component events there is the full page load of a URL (the provider
  sending the browser back to the callback route, a reload, a typed address): the old
  page is unloaded with all its React state, its pending timers and its awaiting
  continuations; \<open>localStorage\<close> and the requests already sent survive; the route
  of the URL is mounted, and the callback page reads its query with
  \<open>useSearchParams()\<close>.
\<close>

record app =
  app_login :: login_sys
  app_buttons :: buttons_state
  app_callback :: cb_sys
  app_world :: world

datatype app_event =
    On_Login login_event
  | On_Click "bool option" oauth_provider
  | On_Callback cb_event
  | Page_Load string

definition app_init :: "world \<Rightarrow> app" where
  "app_init w = \<lparr>app_login = login_sys_init w, app_buttons = buttons_init, app_callback = cb_sys_init w,
                 app_world = w\<rparr>"

text \<open>\<open>useSearchParams()\<close> on the callback route: the parsed query of the page's URL.\<close>

definition useSearchParams :: "string \<Rightarrow> query" where
  "useSearchParams url = parse_query (query_of url)"

text \<open>The path of a URL: what precedes its query.\<close>

definition url_path :: "string \<Rightarrow> string" where
  "url_path url = takeWhile (\<lambda>c. c \<noteq> CHR ''?'') url"

text \<open>Unloading a page discards its pending \<open>setTimeout\<close> callbacks; the rest of the browser stays.\<close>

definition page_unload :: "world \<Rightarrow> world" where
  "page_unload w = w\<lparr>timers := []\<rparr>"

text \<open>
  The states after a full page load: every component starts afresh on the unloaded
  world, with the login form mounted only on \<open>/login\<close> and the callback page mounted
  (and its effect run on the URL's query) only on \<open>/oauth-callback\<close>.
\<close>

definition app_unmounted :: "world \<Rightarrow> app" where
  "app_unmounted w = \<lparr>app_login = (login_sys_init w)\<lparr>ls_mounted := False\<rparr>, app_buttons = buttons_init,
                      app_callback = cb_sys_init w, app_world = w\<rparr>"

text \<open>
  A component steps on the shared world: its own world slot is filled with the shared
  world before the step, and the world it returns becomes the shared one.
\<close>

fun app_step :: "string \<Rightarrow> (api_error \<Rightarrow> string option) \<Rightarrow> app \<Rightarrow> app_event \<Rightarrow> app option" where
  "app_step ep eh a (On_Login e) =
     map_option (\<lambda>l. a\<lparr>app_login := l, app_world := ls_world l\<rparr>)
       (login_step eh ((app_login a)\<lparr>ls_world := app_world a\<rparr>) e)"
| "app_step ep eh a (On_Click ld p) =
     (case click_step (app_buttons a, app_world a)
             (Click \<lparr>isLoading = ld, onProviderClick = None\<rparr> initiateOAuth p) of
        (b, w) \<Rightarrow> Some (a\<lparr>app_buttons := b, app_world := w\<rparr>))"
| "app_step ep eh a (On_Callback e) =
     map_option (\<lambda>c. a\<lparr>app_callback := c, app_world := cb_world c\<rparr>)
       (cb_step ep eh ((app_callback a)\<lparr>cb_world := app_world a\<rparr>) e)"
| "app_step ep eh a (Page_Load url) =
     (let w = page_unload (app_world a) in
      if url_path url = ''/oauth-callback'' then
        map_option (\<lambda>c. (app_unmounted w)\<lparr>app_callback := c, app_world := cb_world c\<rparr>)
          (cb_step ep eh (cb_sys_init w) (Cb_Mount (useSearchParams url)))
      else if url_path url = ''/login'' then Some (app_init w)
      else Some (app_unmounted w))"

fun app_run :: "string \<Rightarrow> (api_error \<Rightarrow> string option) \<Rightarrow> app_event list \<Rightarrow> app \<Rightarrow> app option" where
  "app_run ep eh [] a = Some a"
| "app_run ep eh (e # es) a = (case app_step ep eh a e of None \<Rightarrow> None | Some a' \<Rightarrow> app_run ep eh es a')"

text \<open>The session tokens in \<open>localStorage\<close>, and the tokens a backend answer makes the code store.\<close>

definition stored_tokens :: "world \<Rightarrow> string option \<times> string option" where
  "stored_tokens w = (storage w ''accessToken'', storage w ''refreshToken'')"

definition response_tokens :: "auth_response \<Rightarrow> tokens option" where
  "response_tokens r =
     (if resp_status r = ''success'' then (case resp_data r of Some d \<Rightarrow> data_tokens d | None \<Rightarrow> None) else None)"

fun granted_tokens :: "app_event \<Rightarrow> tokens option" where
  "granted_tokens (On_Login (Settle (Inr r))) = response_tokens r"
| "granted_tokens (On_Callback (Cb_Answer i (Inr r))) = response_tokens r"
| "granted_tokens _ = None"

text \<open>
  The answer data the code acts on: \<open>response.status === "success" && response.data\<close>
  (line 41 of the login form, line 41 of the callback page); an answer delivered to
  either page that passes this test runs the session write, any other answer does not.
\<close>

definition success_data :: "auth_response \<Rightarrow> auth_data option" where
  "success_data r = (if resp_status r = ''success'' then resp_data r else None)"

fun answer_data :: "app_event \<Rightarrow> auth_data option" where
  "answer_data (On_Login (Settle (Inr r))) = success_data r"
| "answer_data (On_Callback (Cb_Answer i (Inr r))) = success_data r"
| "answer_data _ = None"

text \<open>The session write seen on \<open>localStorage\<close> alone.\<close>

definition session_storage_write :: "auth_data \<Rightarrow> (string \<rightharpoonup> string) \<Rightarrow> (string \<rightharpoonup> string)" where
  "session_storage_write d st = storage (persist_session d (empty_world\<lparr>storage := st\<rparr>))"

definition storage_after :: "auth_data option \<Rightarrow> (string \<rightharpoonup> string) \<Rightarrow> (string \<rightharpoonup> string)" where
  "storage_after g st = (case g of None \<Rightarrow> st | Some d \<Rightarrow> session_storage_write d st)"

definition tokens_after :: "tokens option \<Rightarrow> string option \<times> string option \<Rightarrow> string option \<times> string option" where
  "tokens_after g old = (case g of None \<Rightarrow> old | Some t \<Rightarrow> (Some (accessToken t), Some (refreshToken t)))"

subsection \<open>Full page loads\<close>

lemma page_load_cases:
  assumes "app_step ep eh a (Page_Load url) = Some a'"
  obtains (cb) c where "cb_step ep eh (cb_sys_init (page_unload (app_world a))) (Cb_Mount (useSearchParams url)) = Some c"
      "a' = (app_unmounted (page_unload (app_world a)))\<lparr>app_callback := c, app_world := cb_world c\<rparr>"
    | (other) "a' = app_init (page_unload (app_world a)) \<or> a' = app_unmounted (page_unload (app_world a))"
  using assms by (auto simp: Let_def simp del: cb_step.simps split: if_splits)

subsection \<open>What the steps write to localStorage\<close>

lemma storage_frame [simp]:
  "storage (toast_error m w) = storage w"
  "storage (toast_success m w) = storage w"
  "storage (router_push u w) = storage w"
  "storage (set_timeout_push n u w) = storage w"
  "storage (console_error e w) = storage w"
  "storage (fire_timers w) = storage w"
  "storage (service_send req w) = storage w"
  "storage (page_unload w) = storage w"
  by (simp_all add: effect_simps service_send_def page_unload_def)

lemma storage_persist_write: "storage (persist_session d w) = session_storage_write d (storage w)"
  by (simp add: session_storage_write_def storage_persist_session Let_def split: option.split)

lemma login_settle_storage:
  "storage (snd (login_settle eh a f w))
     = storage_after (case a of Inl _ \<Rightarrow> None | Inr r \<Rightarrow> success_data r) (storage w)"
  by (simp add: login_settle_def success_data_def storage_after_def storage_persist_write
      split: sum.split option.split)

lemma callback_settle_storage:
  "storage (snd (callback_settle eh a p w))
     = storage_after (case a of Inl _ \<Rightarrow> None | Inr r \<Rightarrow> success_data r) (storage w)"
  by (simp add: callback_settle_def service_settle_def fail_with_def success_data_def storage_after_def
      store_auth_data_eq_persist_session storage_persist_write Let_def
      split: sum.split option.split bool.split prod.split)

lemma settle_storage_pair:
  "login_settle eh a f w = (f', w') \<Longrightarrow>
     storage w' = storage_after (case a of Inl _ \<Rightarrow> None | Inr r \<Rightarrow> success_data r) (storage w)"
  "callback_settle eh a p w = (p', w') \<Longrightarrow>
     storage w' = storage_after (case a of Inl _ \<Rightarrow> None | Inr r \<Rightarrow> success_data r) (storage w)"
  using login_settle_storage [of eh a f w] callback_settle_storage [of eh a p w] by simp_all

lemma callback_start_storage:
  "callback_start ep q p w = Inl (p', w') \<Longrightarrow> storage w' = storage w"
  "callback_start ep q p w = Inr (c, w') \<Longrightarrow> storage w' = storage w"
  by (auto simp: callback_start_def fail_with_def Let_def split: if_splits option.splits)

lemma click_initiate_storage:
  "storage (snd (click_step (b, w) (Click \<lparr>isLoading = ld, onProviderClick = None\<rparr> initiateOAuth p)))
     = storage w"
  by (simp add: handleOAuthClick_def initiateOAuth_def click_failed_def Let_def split: option.split prod.split)

lemma answer_data_answer:
  "answer_data (On_Callback (Cb_Answer i a)) = (case a of Inl _ \<Rightarrow> None | Inr r \<Rightarrow> success_data r)"
  "answer_data (On_Login (Settle a)) = (case a of Inl _ \<Rightarrow> None | Inr r \<Rightarrow> success_data r)"
  by (simp_all split: sum.split)

lemma login_step_storage:
  "login_step eh l e = Some l' \<Longrightarrow>
     storage (ls_world l') = storage_after (answer_data (On_Login e)) (storage (ls_world l))"
  by (cases e) (auto simp: answer_data_answer storage_after_def dest!: settle_storage_pair
                     split: if_splits option.splits prod.splits)

lemma cb_step_storage:
  "cb_step ep eh c e = Some c' \<Longrightarrow>
     storage (cb_world c') = storage_after (answer_data (On_Callback e)) (storage (cb_world c))"
  by (cases e) (auto simp: answer_data_answer storage_after_def callback_settle_storage Let_def
                     dest!: settle_storage_pair callback_start_storage
                     split: if_splits option.splits prod.splits sum.splits)

lemma page_load_storage:
  assumes "app_step ep eh a (Page_Load url) = Some a'"
  shows "storage (app_world a') = storage (app_world a)"
  using assms
proof (cases rule: page_load_cases)
  case (cb c)
  from cb_step_storage [OF cb(1)] show ?thesis
    by (simp add: cb(2) storage_after_def cb_sys_init_def)
next
  case other
  then show ?thesis
    by (auto simp: app_init_def app_unmounted_def)
qed

lemma app_step_storage:
  assumes "app_step ep eh a e = Some a'"
  shows "storage (app_world a') = storage_after (answer_data e) (storage (app_world a))"
proof (cases e)
  case (On_Login le)
  with assms show ?thesis by (auto dest!: login_step_storage)
next
  case (On_Click ld p)
  with assms click_initiate_storage [of "app_buttons a" "app_world a" ld p] show ?thesis
    by (auto simp: storage_after_def split: prod.splits)
next
  case (On_Callback ce)
  with assms show ?thesis by (auto dest!: cb_step_storage)
next
  case (Page_Load url)
  with assms have "app_step ep eh a (Page_Load url) = Some a'" by (simp only:)
  then have "storage (app_world a') = storage (app_world a)" by (rule page_load_storage)
  then show ?thesis by (simp add: Page_Load storage_after_def)
qed

lemma app_run_storage:
  "app_run ep eh evs a = Some a' \<Longrightarrow>
     storage (app_world a') = fold (\<lambda>e. storage_after (answer_data e)) evs (storage (app_world a))"
proof (induction evs arbitrary: a)
  case (Cons e evs)
  then obtain a1 where a1: "app_step ep eh a e = Some a1" and r: "app_run ep eh evs a1 = Some a'"
    by (auto split: option.splits)
  from Cons.IH [OF r] app_step_storage [OF a1] show ?case by simp
qed simp

lemma fold_storage_after:
  "fold (\<lambda>e. storage_after (answer_data e)) evs st
     = fold session_storage_write (List.map_filter answer_data evs) st"
  by (induction evs arbitrary: st) (simp_all add: storage_after_def map_filter_simps split: option.split)

subsection \<open>Which answer owns the session\<close>

lemma granted_tokens_answer: "granted_tokens e = Option.bind (answer_data e) data_tokens"
  by (induction e rule: granted_tokens.induct) (simp_all add: response_tokens_def success_data_def split: option.split)

lemma tokens_storage_after:
  "(storage_after g st ''accessToken'', storage_after g st ''refreshToken'')
     = tokens_after (Option.bind g data_tokens) (st ''accessToken'', st ''refreshToken'')"
  by (simp add: storage_after_def session_storage_write_def storage_persist_session tokens_after_def
      Let_def split: option.split)

lemma fold_storage_tokens:
  "(fold (\<lambda>e. storage_after (answer_data e)) evs st ''accessToken'',
    fold (\<lambda>e. storage_after (answer_data e)) evs st ''refreshToken'')
     = fold (\<lambda>e. tokens_after (granted_tokens e)) evs (st ''accessToken'', st ''refreshToken'')"
proof (induction evs arbitrary: st)
  case (Cons e evs)
  then show ?case by (simp add: tokens_storage_after granted_tokens_answer)
qed simp

lemma app_run_tokens:
  "app_run ep eh evs a = Some a' \<Longrightarrow>
     stored_tokens (app_world a') = fold (\<lambda>e. tokens_after (granted_tokens e)) evs (stored_tokens (app_world a))"
  by (simp add: stored_tokens_def app_run_storage fold_storage_tokens)

lemma fold_tokens_after_last:
  "fold (\<lambda>e. tokens_after (granted_tokens e)) evs old
     = (case rev (List.map_filter granted_tokens evs) of
          [] \<Rightarrow> old
        | t # _ \<Rightarrow> (Some (accessToken t), Some (refreshToken t)))"
  by (induction evs rule: rev_induct)
     (simp_all add: tokens_after_def map_filter_snoc split: option.split list.split)

text \<open>
  C34: across any interleaving of the login form, the OAuth buttons and the callback
  page on one browser, the session tokens in \<open>localStorage\<close> are exactly those of the
  last backend answer that granted tokens (a success with data carrying tokens,
  delivered to the login form or to a callback exchange, mounted or orphaned), and the
  ones stored before when no answer granted any: the two tokens always come from the
  same answer, and no other step writes them.
\<close>

theorem session_last_writer:
  "app_run ep eh evs a = Some a' \<Longrightarrow>
     stored_tokens (app_world a')
       = (case rev (List.map_filter granted_tokens evs) of
            [] \<Rightarrow> stored_tokens (app_world a)
          | t # _ \<Rightarrow> (Some (accessToken t), Some (refreshToken t)))"
  using app_run_tokens [of ep eh evs a a'] by (simp add: fold_tokens_after_last)

theorem session_last_writer_witness:
  "map_option (\<lambda>a. stored_tokens (app_world a))
     (app_run ''/oauth/exchange'' apiErrorHandler
        [On_Login Submit, On_Callback (Cb_Mount [(''code'', ''c'')]), On_Callback (Cb_Answer 0 (Inr \<lparr>resp_status = ''success'', resp_message = None, resp_data = Some \<lparr>data_tokens = Some \<lparr>accessToken = ''oauth-at'', refreshToken = ''oauth-rt''\<rparr>, data_user = None\<rparr>\<rparr>)),
        On_Login (Settle (Inr \<lparr>resp_status = ''success'', resp_message = None, resp_data = Some \<lparr>data_tokens = Some \<lparr>accessToken = ''login-at'', refreshToken = ''login-rt''\<rparr>, data_user = None\<rparr>\<rparr>))]
        (app_init empty_world))
   = Some (Some ''login-at'', Some ''login-rt'')"
proof -
  have "\<exists>a'. app_run ''/oauth/exchange'' apiErrorHandler
        [On_Login Submit, On_Callback (Cb_Mount [(''code'', ''c'')]), On_Callback (Cb_Answer 0 (Inr \<lparr>resp_status = ''success'', resp_message = None, resp_data = Some \<lparr>data_tokens = Some \<lparr>accessToken = ''oauth-at'', refreshToken = ''oauth-rt''\<rparr>, data_user = None\<rparr>\<rparr>)),
        On_Login (Settle (Inr \<lparr>resp_status = ''success'', resp_message = None, resp_data = Some \<lparr>data_tokens = Some \<lparr>accessToken = ''login-at'', refreshToken = ''login-rt''\<rparr>, data_user = None\<rparr>\<rparr>))]
        (app_init empty_world) = Some a'"
    by (simp add: app_init_def login_sys_init_def login_form_init_def cb_sys_init_def callback_start_def
        search_get_def Let_def split: prod.split)
  then obtain a' where a': "app_run ''/oauth/exchange'' apiErrorHandler
        [On_Login Submit, On_Callback (Cb_Mount [(''code'', ''c'')]), On_Callback (Cb_Answer 0 (Inr \<lparr>resp_status = ''success'', resp_message = None, resp_data = Some \<lparr>data_tokens = Some \<lparr>accessToken = ''oauth-at'', refreshToken = ''oauth-rt''\<rparr>, data_user = None\<rparr>\<rparr>)),
        On_Login (Settle (Inr \<lparr>resp_status = ''success'', resp_message = None, resp_data = Some \<lparr>data_tokens = Some \<lparr>accessToken = ''login-at'', refreshToken = ''login-rt''\<rparr>, data_user = None\<rparr>\<rparr>))]
        (app_init empty_world) = Some a'"
    by blast
  from session_last_writer [OF a'] have "stored_tokens (app_world a') = (Some ''login-at'', Some ''login-rt'')"
    by (simp add: response_tokens_def)
  then show ?thesis by (simp only: a' option.map)
qed

text \<open>
  C36: across any interleaving of the login form, the OAuth buttons and the callback
  page on one browser, including page loads and answers that arrive after their page
  has gone, \<open>localStorage\<close> ends as the storage it started with, with the session
  write of every answer that passed the success test applied in the order the answers
  arrived, and nothing else: no other step writes or removes a key. Since the tokens
  and the user profile are written under separate tests, the stored session can mix
  the tokens of one answer with the profile of an earlier one.
\<close>

theorem session_storage_after_run:
  "app_run ep eh evs a = Some a' \<Longrightarrow>
     storage (app_world a') = fold session_storage_write (List.map_filter answer_data evs) (storage (app_world a))"
  using app_run_storage [of ep eh evs a a'] by (simp add: fold_storage_after)

theorem session_storage_after_run_witness:
  "map_option (\<lambda>a. (storage (app_world a) ''accessToken'', storage (app_world a) ''user''))
     (app_run ''/oauth/exchange'' apiErrorHandler
        [On_Login Submit, On_Callback (Cb_Mount [(''code'', ''c'')]),
         On_Callback (Cb_Answer 0 (Inr \<lparr>resp_status = ''success'', resp_message = None, resp_data = Some \<lparr>data_tokens = Some \<lparr>accessToken = ''oauth-at'', refreshToken = ''oauth-rt''\<rparr>, data_user = Some (JObj [(''name'', JStr ''Ann'')])\<rparr>\<rparr>)),
         On_Login (Settle (Inr \<lparr>resp_status = ''success'', resp_message = None, resp_data = Some \<lparr>data_tokens = Some \<lparr>accessToken = ''login-at'', refreshToken = ''login-rt''\<rparr>, data_user = None\<rparr>\<rparr>))]
        (app_init empty_world))
   = Some (Some ''login-at'', Some (json_stringify (JObj [(''name'', JStr ''Ann'')])))"
proof -
  have "\<exists>a'. app_run ''/oauth/exchange'' apiErrorHandler
        [On_Login Submit, On_Callback (Cb_Mount [(''code'', ''c'')]),
         On_Callback (Cb_Answer 0 (Inr \<lparr>resp_status = ''success'', resp_message = None, resp_data = Some \<lparr>data_tokens = Some \<lparr>accessToken = ''oauth-at'', refreshToken = ''oauth-rt''\<rparr>, data_user = Some (JObj [(''name'', JStr ''Ann'')])\<rparr>\<rparr>)),
         On_Login (Settle (Inr \<lparr>resp_status = ''success'', resp_message = None, resp_data = Some \<lparr>data_tokens = Some \<lparr>accessToken = ''login-at'', refreshToken = ''login-rt''\<rparr>, data_user = None\<rparr>\<rparr>))]
        (app_init empty_world) = Some a'"
    by (simp add: app_init_def login_sys_init_def login_form_init_def cb_sys_init_def callback_start_def
        search_get_def Let_def del: json_stringify.simps split: prod.split)
  then obtain a' where a': "app_run ''/oauth/exchange'' apiErrorHandler
        [On_Login Submit, On_Callback (Cb_Mount [(''code'', ''c'')]),
         On_Callback (Cb_Answer 0 (Inr \<lparr>resp_status = ''success'', resp_message = None, resp_data = Some \<lparr>data_tokens = Some \<lparr>accessToken = ''oauth-at'', refreshToken = ''oauth-rt''\<rparr>, data_user = Some (JObj [(''name'', JStr ''Ann'')])\<rparr>\<rparr>)),
         On_Login (Settle (Inr \<lparr>resp_status = ''success'', resp_message = None, resp_data = Some \<lparr>data_tokens = Some \<lparr>accessToken = ''login-at'', refreshToken = ''login-rt''\<rparr>, data_user = None\<rparr>\<rparr>))]
        (app_init empty_world) = Some a'"
    by blast
  from session_storage_after_run [OF a']
  have "(storage (app_world a') ''accessToken'', storage (app_world a') ''user'')
          = (Some ''login-at'', Some (json_stringify (JObj [(''name'', JStr ''Ann'')])))"
    by (simp add: success_data_def session_storage_write_def storage_persist_session app_init_def
        login_sys_init_def empty_world_def Let_def del: json_stringify.simps)
  then show ?thesis by (simp only: a' option.map)
qed

subsection \<open>The OAuth login, end to end\<close>

lemma response_tokens_SomeE:
  assumes "response_tokens r = Some t"
  obtains d where "resp_status r = ''success''" "resp_data r = Some d" "data_tokens d = Some t"
  using assms by (auto simp: response_tokens_def split: if_splits option.splits)

text \<open>The callback route with an encoded code reads back exactly that code.\<close>

lemma callback_url_query:
  "useSearchParams (''/oauth-callback?code='' @ encodeURIComponent c) = [(''code'', c)]"
proof -
  let ?e = "encodeURIComponent c"
  have q: "query_of (''/oauth-callback?code='' @ ?e) = ''code='' @ ?e"
    by (simp add: query_of_def)
  have "CHR ''&'' \<notin> set (''code='' @ ?e)"
    using encodeURIComponent_no_separator by simp
  then have sp: "split_on CHR ''&'' (''code='' @ ?e) = [''code='' @ ?e]"
    by (rule split_on_absent)
  have "parse_pair (''code='' @ ?e) = (''code'', c)"
    by (simp add: parse_pair_def form_decode_encodeURIComponent)
  with q sp show ?thesis
    by (simp add: useSearchParams_def parse_query_def)
qed

lemma callback_url_path: "url_path (''/oauth-callback?code='' @ e) = ''/oauth-callback''"
  by (simp add: url_path_def)

text \<open>
  C35: the OAuth login completes end to end: a click on \<open>Continue with Google\<close> starts
  the provider redirect; when the provider sends the browser back to
  \<open>/oauth-callback?code=<encoded code>\<close> (a full page load, which drops whatever the
  old page had pending), the page reads exactly that code from its URL, whatever bytes
  it holds, and sends exactly one exchange request for it; when the backend answers
  with tokens the page shows the success state, the tokens are stored, one success
  toast is shown, and once the timer fires the browser is at \<open>/\<close>.
\<close>

theorem oauth_login_journey:
  assumes "c \<noteq> []" and "response_tokens r = Some t"
  shows "\<exists>a'. app_run ep eh [On_Click None Google, Page_Load (''/oauth-callback?code='' @ encodeURIComponent c),
                           On_Callback (Cb_Answer 0 (Inr r)), On_Callback Cb_Timers] (app_init w) = Some a'
           \<and> redirects (app_world a') = redirects w @ [Google]
           \<and> requests (app_world a') = requests w @ [exchange_request ep c]
           \<and> stored_tokens (app_world a') = (Some (accessToken t), Some (refreshToken t))
           \<and> toasts (app_world a') = toasts w @ [Toast_Success (js_or (resp_message r) ''Authentication successful!'')]
           \<and> navigations (app_world a') = navigations w @ [''/'']
           \<and> map_option cb_status (cb_page (app_callback a')) = Some Cb_Success"
proof -
  obtain d where r: "resp_status r = ''success''" "resp_data r = Some d" "data_tokens d = Some t"
    using assms(2) by (rule response_tokens_SomeE)
  show ?thesis
    using assms(1) r
    by (simp add: callback_url_query [simplified] callback_url_path [simplified] app_init_def app_unmounted_def page_unload_def
        buttons_init_def cb_sys_init_def callback_start_def callback_settle_def
        service_settle_def service_send_def handleOAuthClick_def props_loading_def initiateOAuth_def
        search_get_def stored_tokens_def store_auth_data_eq_persist_session storage_persist_session
        Let_def effect_simps frame_simps split: prod.split option.split)
qed

theorem oauth_login_journey_witness:
  "\<exists>a'. app_run ''/oauth/exchange'' apiErrorHandler
          [On_Click None Google, Page_Load (''/oauth-callback?code='' @ encodeURIComponent ''a b&c''),
           On_Callback (Cb_Answer 0 (Inr \<lparr>resp_status = ''success'', resp_message = None, resp_data = Some \<lparr>data_tokens = Some \<lparr>accessToken = ''at'', refreshToken = ''rt''\<rparr>, data_user = None\<rparr>\<rparr>)),
           On_Callback Cb_Timers] (app_init empty_world) = Some a'
     \<and> requests (app_world a') = [exchange_request ''/oauth/exchange'' ''a b&c'']
     \<and> stored_tokens (app_world a') = (Some ''at'', Some ''rt'')
     \<and> navigations (app_world a') = [''/'']"
proof -
  have "response_tokens \<lparr>resp_status = ''success'', resp_message = None, resp_data = Some \<lparr>data_tokens = Some \<lparr>accessToken = ''at'', refreshToken = ''rt''\<rparr>, data_user = None\<rparr>\<rparr> = Some \<lparr>accessToken = ''at'', refreshToken = ''rt''\<rparr>"
    by (simp add: response_tokens_def)
  from oauth_login_journey [OF _ this, where c = "''a b&c''" and w = empty_world and ep = "''/oauth/exchange''"
      and eh = apiErrorHandler]
  show ?thesis by (auto simp: empty_world_def simp del: app_run.simps encodeURIComponent.simps)
qed

end
