(* ===== verification/Spec2Isabelle.thy ===== *)
theory Spec2Isabelle
  imports Login_Form OAuth_Callback OAuth_Buttons Json_Parse Callback_Flow Request_Url App_Session
begin

text \<open>
  \<^bold>\<open>A verification library for the authentication front end.\<close>

  The repository is a slice of a Next.js application: a login form
  (\<open>src/components/auth/login-form.tsx\<close>), OAuth provider buttons
  (\<open>src/components/auth/oauth-buttons.tsx\<close>), the OAuth callback page
  (\<open>src/app/(auth)/oauth-callback/page.tsx\<close>) and the service functions that call the
  auth backend (\<open>src/services/auth.ts\<close>). The components call the services; the login
  form and the callback page both end a successful authentication by writing the tokens
  and the user profile to \<open>localStorage\<close>; every error path of the callback page
  redirects to \<open>/login?error=<message>\<close>, which the login route reads back.

  \<^bold>\<open>How the code is modelled.\<close> Shallow embedding, one theory per part:
  \<^item> \<open>Auth_Prelude\<close>: JavaScript truthiness and the \<open>||\<close> and \<open>??\<close> operators on
    optional strings (\<open>js_truthy\<close>, \<open>js_or\<close>, \<open>js_nullish\<close>), and the rule
    collections \<open>effect_simps\<close> and \<open>frame_simps\<close> that carry the component proofs.
  \<^item> \<open>Url_Encoding\<close>: \<open>encodeURIComponent\<close> and the \<open>URLSearchParams\<close> parser
    (built-ins, from their specifications), and \<open>login_error_url\<close>, the redirect target
    the callback page builds.
  \<^item> \<open>Json\<close>: JSON values, their truthiness, \<open>JSON.stringify\<close> (a built-in).
  \<^item> \<open>Json_Parse\<close>: \<open>JSON.parse\<close> (a built-in), the reader of the stored profile, as
    mutually recursive readers of values, array elements and object members that return
    an error or the value with the rest of the input (\<open>read_value\<close>, \<open>read_elems\<close>,
    \<open>read_members\<close>, \<open>JSON_parse\<close>).
  \<^item> \<open>Http\<close>: requests, the response envelope, the errors a call raises, the backend as
    a \<open>transport\<close> (any function from requests to responses or errors) and the spec's
    \<open>apiErrorHandler\<close>. \<open>@/lib/axios\<close> is not in the repository.
  \<^item> \<open>Request_Url\<close>: the URL axios builds for a request with \<open>params\<close> (its
    encoder \<open>axios_encode\<close>, \<open>params_query\<close>, \<open>request_url\<close>; axios is a library the
    code only calls, modelled from its \<open>buildURL\<close>).
  \<^item> \<open>Browser\<close>: the world every handler threads: storage, toasts, navigations,
    pending timers, console log, requests sent and provider redirects started; one
    function per effect (\<open>setItem\<close>, \<open>toast_error\<close>, \<open>router_push\<close>, ...).
  \<^item> \<open>Auth_Service\<close>: \<open>call_service\<close> (the try/log/rethrow shape of every service,
    also split at its \<open>await\<close> into \<open>service_send\<close> and \<open>service_settle\<close>) and
    the five services of \<open>auth.ts\<close>; \<open>exchangeOAuthCode\<close> and \<open>initiateOAuth\<close>, which
    the components import but \<open>auth.ts\<close> does not define, from the spec.
  \<^item> \<open>Session\<close>: the two copies of the session write (\<open>persist_session\<close> in the login
    form, \<open>store_auth_data\<close> in the callback page).
  \<^item> \<open>Login_Form\<close>: the form state, \<open>onSubmit\<close>, the password toggle and the
    rendered view; and the submission in two phases (\<open>login_step\<close>: \<open>Submit\<close> is
    react-hook-form's \<open>handleSubmit\<close>, ignored while submitting, and sends the request, \<open>Settle\<close> delivers any answer and runs
    \<open>login_settle\<close>, the code after the \<open>await\<close>, \<open>Leave\<close> unmounts the form), with its
    reachable states (\<open>login_reach\<close>, inductive).
  \<^item> \<open>OAuth_Buttons\<close>: the component's optional props (\<open>buttons_props\<close>), its state,
    \<open>handleOAuthClick\<close>, the rendered view, runs of clicks and the reachable states
    (\<open>buttons_reach\<close>, inductive).
  \<^item> \<open>OAuth_Callback\<close>: the page state, \<open>processCallback\<close>, the rendered view and
    the page life cycle (mount, timers firing, unmount), with the effect run atomically.
  \<^item> \<open>Callback_Flow\<close>: the same effect split at \<open>await exchangeOAuthCode(code)\<close>
    (\<open>callback_start\<close>, \<open>callback_settle\<close>), and a system state \<open>cb_sys\<close> holding the
    mounted page, the exchanges in flight (each marked with whether its page is still
    mounted), the query the effect last ran on, and the world; \<open>cb_step\<close> takes one
    event (mount, a change of the query, the answer to one exchange, timers, unmount)
    and \<open>cb_reach\<close> is the inductive set of reachable states.
  \<^item> \<open>App_Session\<close>: the three components in one browser, composed by interleaving:
    a state \<open>app\<close> holds the login form's, the buttons' and the callback page's states
    and the one shared world; an event \<open>app_event\<close> belongs to one component, which
    steps (\<open>login_step\<close>, \<open>click_step\<close> with \<open>initiateOAuth\<close>, \<open>cb_step\<close>) on the
    shared world while the others stay as they are (\<open>app_step\<close>, \<open>app_run\<close>, and
    \<open>app_reach\<close>, inductive). A further event is the full page load of a URL
    (\<open>Page_Load\<close>: the provider sending the browser back, a reload): the old page is
    unloaded with its React state, pending timers and awaiting continuations
    (\<open>page_unload\<close>), \<open>localStorage\<close> and the requests sent survive, and the route of
    the URL is mounted; the callback page reads its query with \<open>useSearchParams\<close>
    (line 15 of its file).
  The login form and the callback page are each modelled both atomically (the handler
  run in one go, for the properties of one submission or one callback) and in two
  phases around their one \<open>await\<close> (for the properties of interleavings). Every loop of the model is structural recursion over a string, a JSON
  value or an event list, except the JSON reader: its mutual recursion is bounded by
  fuel, \<open>JSON_parse\<close> gives it twice the length of the text plus one, and
  \<open>JSON_parse_fuel_enough\<close> proves that this never runs out (each reader consumes
  input, and an element or member reader calls the value reader once before consuming).

  \<^bold>\<open>What is proved.\<close> For the callback page (\<open>OAuth_Callback\<close>): every run ends
  in the error tail or the success tail (\<open>processCallback_outcomes\<close>, the lemma the
  other properties are read from), the behaviour on each kind of query, what the page then renders, and that the success navigation
  survives an unmount. For the URL layer: the error redirect reads back as the
  displayed message, and the token of \<open>verifyEmailService\<close> reaches the backend's query
  parser intact. For the session: the tokens stored are the response's, keys
  other than the three are untouched, a missing user leaves a stale profile, and the
  two copies of the write agree. For the login form: the success, transport-error and
  silent logical-failure branches, the in-flight guard and the submit button's label
  and disabled flag over all reachable states, and that leaving the page mid-request cancels nothing (a late
  success still navigates to \<open>/\<close>). For the buttons: clicks while
  loading are ignored, a start and a failure, and in every reachable state the view
  never shows an error next to a loading label. For JSON: the serialised profile has
  no raw control byte, and \<open>JSON.parse\<close> reads back what \<open>JSON.stringify\<close> writes for
  values whose objects have distinct member names (\<open>JSON_parse_stringify\<close>), and every
  object it builds has distinct member names (\<open>JSON_parse_wf\<close>). For the
  callback flow (\<open>Callback_Flow\<close>): every reachable state is well formed (a page shows a message once it is no longer
  loading, and the loading page has an exchange in flight); leaving the page
  mid-exchange cancels none of the continuation's effects, so a late failure still
  toasts and navigates; a change of the query re-runs the effect and sends a second
  exchange, and the answer that arrives last decides the page, stale or not.
  Across components (below): the login page receives exactly the message the callback
  page shows, the two login flows store the same session for the same response, the
  stored user profile reads back as the response's profile, and the JSON body of
  every POST service (login, resend, refresh) reads back on the backend as the object
  the service built. For the composed application (\<open>App_Session\<close>): after any
  interleaving, \<open>localStorage\<close> is the initial storage with the session write of each
  answer that passed the success test applied in arrival order, and nothing else
  (\<open>session_storage_after_run\<close>), so a stored session can pair the tokens of one
  answer with the profile of an earlier one; the tokens in \<open>localStorage\<close> are always
  the pair of the last answer that granted tokens, whichever page received it (so a
  late password login replaces a completed OAuth session); and the OAuth login
  completes end to end, from the click through the page load of the callback URL,
  whose code is read back exactly whatever its bytes, to the stored tokens and the
  navigation to \<open>/\<close>.

  \<^bold>\<open>Not modelled.\<close> The UI library components and their styling, the zod validators
  (values are taken as validated), \<open>next/link\<close> and \<open>next/image\<close>, storage writes that
  throw (quota), React's development double-invocation of effects, and the backend.
  In \<open>JSON.parse\<close>: numbers with a fraction or an exponent and \<open>\\u\<close> escapes above
  0x7F are reported as outside the model, and JavaScript's ordering of array-index
  member names first is not modelled (members stay in text order). Numbers with a
  fraction are left out on purpose: the code only ever serialises and reads back
  strings, objects and the user profile, and a faithful model of JavaScript numbers
  needs IEEE doubles with the shortest round-trip printing of \<open>Number.toString\<close>,
  which a rational or integer model would misstate. In the composition, the buttons
  have no \<open>onProviderClick\<close>: the page that renders them is not in the repository,
  and an arbitrary callback could write \<open>localStorage\<close> itself. The other parts
  marked partly modelled are code outside the repository (\<open>@/lib/axios\<close>, the two
  missing service exports, the browser APIs), modelled from the spec or from the
  built-in's specification as far as the components use them; nothing more of them
  can be modelled faithfully from what the repository contains.

  \<^bold>\<open>Further work.\<close> The pages that render the components (the login route reading
  \<open>?error=\<close>, the page that renders \<open>OAuthButtons\<close>) once they are in the repository.
\<close>

subsection \<open>Properties that span components\<close>

text \<open>
  C3: whenever the callback page ends in the error state, the login route it navigates
  to reads \<open>searchParams.get("error")\<close> as exactly the message the callback page
  displayed.
\<close>

theorem callback_error_message_reaches_login:
  assumes "processCallback tr ep eh q p w = (p', w')" and "cb_status p' = Cb_Error"
  shows "search_get (parse_query (query_of (last (navigations w')))) ''error'' = Some (cb_message p')"
  using OAuth_Callback.processCallback_outcomes [OF assms(1)] assms(2)
  by (auto simp: effect_simps login_error_url_query search_get_def)

theorem callback_error_message_reaches_login_witness:
  "search_get (parse_query (query_of (last (navigations (snd (processCallback (\<lambda>_. Inl (Network_Error ''x''))
      ''/oauth/exchange'' apiErrorHandler [(''error'', ''a&b=c'')] callback_init empty_world)))))) ''error''
   = Some ''a&b=c''"
  using callback_error_message_reaches_login
      [of "\<lambda>_. Inl (Network_Error ''x'')" "''/oauth/exchange''" apiErrorHandler "[(''error'', ''a&b=c'')]"
          callback_init empty_world
          "fst (processCallback (\<lambda>_. Inl (Network_Error ''x'')) ''/oauth/exchange'' apiErrorHandler [(''error'', ''a&b=c'')] callback_init empty_world)"
          "snd (processCallback (\<lambda>_. Inl (Network_Error ''x'')) ''/oauth/exchange'' apiErrorHandler [(''error'', ''a&b=c'')] callback_init empty_world)"]
  by (simp add: processCallback_def fail_with_def search_get_def Let_def)

text \<open>
  C14: for the same successful response with data, a password login and an OAuth
  callback leave the same storage behind, starting from the same world.
\<close>

theorem login_and_oauth_same_session:
  assumes "tr1 (login_request v) = Inr r" and "tr2 (exchange_request ep c) = Inr r"
    and "resp_status r = ''success''" and "resp_data r = Some d"
    and "search_get q ''code'' = Some c" and "c \<noteq> []"
    and "\<not> js_truthy (search_get q ''error'')" and "search_get q ''status'' \<noteq> Some ''error''"
  shows "storage (snd (onSubmit tr1 eh v f w)) = storage (snd (processCallback tr2 ep eh' q p w))"
  using assms
  by (simp add: onSubmit_def loginService_def processCallback_def exchangeOAuthCode_def call_service_Inr
      Let_def effect_simps frame_simps store_auth_data_eq_persist_session)

theorem login_and_oauth_same_session_witness:
  "storage (snd (onSubmit (\<lambda>_. Inr \<lparr>resp_status = ''success'', resp_message = None, resp_data = Some \<lparr>data_tokens = Some \<lparr>accessToken = ''at'', refreshToken = ''rt''\<rparr>, data_user = None\<rparr>\<rparr>) apiErrorHandler \<lparr>email = ''a@b.c'', password = ''pw''\<rparr> login_form_init empty_world))
   = storage (snd (processCallback (\<lambda>_. Inr \<lparr>resp_status = ''success'', resp_message = None, resp_data = Some \<lparr>data_tokens = Some \<lparr>accessToken = ''at'', refreshToken = ''rt''\<rparr>, data_user = None\<rparr>\<rparr>) ''/oauth/exchange'' apiErrorHandler [(''code'', ''abc123'')] callback_init empty_world))"
  using login_and_oauth_same_session [of "(\<lambda>_. Inr \<lparr>resp_status = ''success'', resp_message = None, resp_data = Some \<lparr>data_tokens = Some \<lparr>accessToken = ''at'', refreshToken = ''rt''\<rparr>, data_user = None\<rparr>\<rparr>)" "\<lparr>email = ''a@b.c'', password = ''pw''\<rparr>" "\<lparr>resp_status = ''success'', resp_message = None, resp_data = Some \<lparr>data_tokens = Some \<lparr>accessToken = ''at'', refreshToken = ''rt''\<rparr>, data_user = None\<rparr>\<rparr>" "(\<lambda>_. Inr \<lparr>resp_status = ''success'', resp_message = None, resp_data = Some \<lparr>data_tokens = Some \<lparr>accessToken = ''at'', refreshToken = ''rt''\<rparr>, data_user = None\<rparr>\<rparr>)"
      "''/oauth/exchange''" "''abc123''" "\<lparr>data_tokens = Some \<lparr>accessToken = ''at'', refreshToken = ''rt''\<rparr>, data_user = None\<rparr>" "[(''code'', ''abc123'')]" apiErrorHandler login_form_init empty_world
      apiErrorHandler callback_init]
  by (simp add: search_get_def)

text \<open>
  C24: the user profile that the session write stores is read back by \<open>JSON.parse\<close> as
  the profile of the response, in both copies of the write (login form and OAuth
  callback), when its objects have distinct member names.
\<close>

theorem stored_user_reads_back:
  assumes "data_user d = Some u" and "json_truthy u" and "json_wf u"
  shows "map_option JSON_parse (storage (persist_session d w) ''user'') = Some (Inr u)
       \<and> map_option JSON_parse (storage (store_auth_data d w) ''user'') = Some (Inr u)"
  using assms JSON_parse_stringify [OF assms(3)]
  by (simp add: store_auth_data_eq_persist_session storage_persist_session Let_def split: option.splits)

theorem stored_user_reads_back_witness:
  "data_user \<lparr>data_tokens = None, data_user = Some (JObj [(''id'', JNum 7), (''name'', JStr ''Ann'')])\<rparr>
     = Some (JObj [(''id'', JNum 7), (''name'', JStr ''Ann'')])
   \<and> json_truthy (JObj [(''id'', JNum 7), (''name'', JStr ''Ann'')])
   \<and> json_wf (JObj [(''id'', JNum 7), (''name'', JStr ''Ann'')])
   \<and> map_option JSON_parse (storage (persist_session \<lparr>data_tokens = None, data_user = Some (JObj [(''id'', JNum 7), (''name'', JStr ''Ann'')])\<rparr> empty_world) ''user'')
       = Some (Inr (JObj [(''id'', JNum 7), (''name'', JStr ''Ann'')]))"
  using stored_user_reads_back [of "\<lparr>data_tokens = None, data_user = Some (JObj [(''id'', JNum 7), (''name'', JStr ''Ann'')])\<rparr>"
      "JObj [(''id'', JNum 7), (''name'', JStr ''Ann'')]" empty_world]
  by simp

text \<open>
  C33: each service that POSTs a JSON body sends exactly one request to its endpoint,
  and the body, serialised by \<open>JSON.stringify\<close> and read by \<open>JSON.parse\<close> on the
  backend, is exactly the object the service built: the email and password of
  \<open>loginService\<close>, the email of \<open>resendEmailVerificationService\<close>, the refresh token of
  \<open>refreshTokenService\<close>.
\<close>

lemma call_service_sent: "requests (snd (call_service tr req w)) = requests w @ [req]"
  by (cases "tr req") (simp_all add: call_service_def console_error_def)

lemma post_body_reads_back:
  "json_wf b \<Longrightarrow>
     \<exists>r. requests (snd (call_service tr (post_request p b) w)) = requests w @ [r]
        \<and> req_method r = POST \<and> req_path r = p
        \<and> map_option (\<lambda>b. JSON_parse (json_stringify b)) (req_body r) = Some (Inr b)"
  by (simp add: call_service_sent post_request_def JSON_parse_stringify)

theorem post_bodies_reach_backend:
  "(\<exists>r. requests (snd (loginService tr v w)) = requests w @ [r]
      \<and> req_method r = POST \<and> req_path r = ''/api/auth/v1/login''
      \<and> map_option (\<lambda>b. JSON_parse (json_stringify b)) (req_body r)
          = Some (Inr (JObj [(''email'', JStr (email v)), (''password'', JStr (password v))])))
 \<and> (\<exists>r. requests (snd (resendEmailVerificationService tr e w)) = requests w @ [r]
      \<and> req_method r = POST \<and> req_path r = ''/api/auth/v1/resend-email-verification''
      \<and> map_option (\<lambda>b. JSON_parse (json_stringify b)) (req_body r) = Some (Inr (JObj [(''email'', JStr e)])))
 \<and> (\<exists>r. requests (snd (refreshTokenService tr t w)) = requests w @ [r]
      \<and> req_method r = POST \<and> req_path r = ''/api/auth/v1/refres-token''
      \<and> map_option (\<lambda>b. JSON_parse (json_stringify b)) (req_body r) = Some (Inr (JObj [(''refreshToken'', JStr t)])))"
  using post_body_reads_back [of "JObj [(''email'', JStr (email v)), (''password'', JStr (password v))]" tr
      "''/api/auth/v1/login''" w]
    post_body_reads_back [of "JObj [(''email'', JStr e)]" tr "''/api/auth/v1/resend-email-verification''" w]
    post_body_reads_back [of "JObj [(''refreshToken'', JStr t)]" tr "''/api/auth/v1/refres-token''" w]
  by (simp add: loginService_def login_request_def resendEmailVerificationService_def refreshTokenService_def)

end
